(* ===== verification/Prelude.thy ===== *)
theory Prelude
  imports Main "HOL-Library.AList" "HOL-Library.Multiset" "HOL-Library.Sublist"
    "HOL-Library.Char_ord"
begin

section \<open>Prelude: errors, results, Go maps\<close>

text \<open>
  What every theory of the development shares: the error values of the program, the result type
  of a fallible call, the Go map with string keys and its unspecified iteration order, and the
  theorem collections the component proofs rest on.

  A Go \<open>error\<close> is a value of \<open>error\<close>. The constructors keep the format string and the
  operands of the \<open>fmt.Errorf\<close> call that makes it, instead of the formatted text: \<open>Errorf\<close> is a
  plain error, \<open>Wrapf\<close> one that wraps another with \<open>%w\<close>, \<open>OSNotExist\<close> and \<open>OSError\<close> what a
  call of package \<open>os\<close> returns (the first is what \<open>os.IsNotExist\<close> recognises), \<open>JsonError\<close> a
  decoding error of \<open>encoding/json\<close>, and \<open>ExecError\<close> the error \<open>Client.run\<close> builds from a failed \<open>virsh\<close> run
  (its arguments, the exit error and the trimmed standard error).
\<close>

datatype error =
    Errorf string "string list"
  | Wrapf string "string list" error
  | OSNotExist string
  | OSError string string
  | JsonError string
  | ExecError "string list" string string

type_synonym 'a res = "error + 'a"

text \<open>A call that changes a state \<open>'w\<close> and may fail, the shape of every effectful method.\<close>

type_synonym ('a, 'w) act = "'w \<Rightarrow> 'a res \<times> 'w"

named_theorems valid_dests \<open>what an accepted input is known to satisfy\<close>
named_theorems frame_simps \<open>what an operation leaves unchanged\<close>
named_theorems store_simps \<open>effect of the store operations\<close>

subsection \<open>Results\<close>

definition is_ok :: "'a res \<Rightarrow> bool" where
  "is_ok r = (case r of Inl _ \<Rightarrow> False | Inr _ \<Rightarrow> True)"

lemma is_ok_simps [simp]: "is_ok (Inr a)" "\<not> is_ok (Inl e)"
  by (simp_all add: is_ok_def)

lemma is_ok_iff: "is_ok r \<longleftrightarrow> (\<exists>a. r = Inr a)"
  by (cases r) simp_all

subsection \<open>Sequencing effectful calls\<close>

text \<open>
  \<open>bindAct m k\<close> is the Go idiom \<open>a, err := m(); if err != nil { return err }; k(a)\<close>. \<open>keeps R m\<close> says
  that every run of \<open>m\<close> relates the state before to the state after by \<open>R\<close>.
\<close>

definition retAct :: "'a \<Rightarrow> ('a, 'w) act" where
  "retAct a w = (Inr a, w)"

definition failAct :: "error \<Rightarrow> ('a, 'w) act" where
  "failAct e w = (Inl e, w)"

definition bindAct :: "('a, 'w) act \<Rightarrow> ('a \<Rightarrow> ('b, 'w) act) \<Rightarrow> ('b, 'w) act" where
  "bindAct m k w = (case m w of (Inl e, w') \<Rightarrow> (Inl e, w') | (Inr a, w') \<Rightarrow> k a w')"

text \<open>A call whose error does not stop the caller: the continuation sees the result.\<close>

definition tryAct :: "('a, 'w) act \<Rightarrow> ('a res \<Rightarrow> ('b, 'w) act) \<Rightarrow> ('b, 'w) act" where
  "tryAct m k w = (case m w of (r, w') \<Rightarrow> k r w')"

definition keeps :: "('w \<Rightarrow> 'w \<Rightarrow> bool) \<Rightarrow> ('a, 'w) act \<Rightarrow> bool" where
  "keeps R m \<longleftrightarrow> (\<forall>w. R w (snd (m w)))"

lemma keepsD: "keeps R m \<Longrightarrow> R w (snd (m w))"
  by (simp add: keeps_def)

lemma keepsE: "keeps R m \<Longrightarrow> m w = (r, w') \<Longrightarrow> R w w'"
  by (metis keepsD snd_conv)

locale frame =
  fixes R :: "'w \<Rightarrow> 'w \<Rightarrow> bool"
  assumes R_refl: "R w w" and R_trans: "R a b \<Longrightarrow> R b c \<Longrightarrow> R a c"
begin

lemma keeps_ret: "keeps R (retAct a)"
  by (simp add: keeps_def retAct_def R_refl)

lemma keeps_fail: "keeps R (failAct e)"
  by (simp add: keeps_def failAct_def R_refl)

lemma keeps_bind: "keeps R m \<Longrightarrow> (\<And>a. keeps R (k a)) \<Longrightarrow> keeps R (bindAct m k)"
  unfolding keeps_def bindAct_def
  by (auto split: prod.splits sum.splits) (metis R_trans snd_conv)+

lemma keeps_try: "keeps R m \<Longrightarrow> (\<And>r. keeps R (k r)) \<Longrightarrow> keeps R (tryAct m k)"
  unfolding keeps_def tryAct_def
  by (auto split: prod.splits) (metis R_trans snd_conv)

lemma keeps_if: "keeps R m \<Longrightarrow> keeps R n \<Longrightarrow> keeps R (if b then m else n)"
  by simp

lemma keeps_fold:
  assumes "\<And>x w. R w (f x w)"
  shows "R w (fold f xs w)"
  by (induction xs arbitrary: w) (auto intro: R_refl R_trans assms)

lemmas keeps_intros = keeps_ret keeps_fail keeps_bind keeps_try keeps_if

end

subsection \<open>Go maps\<close>

text \<open>
  A Go \<open>map[string]V\<close> is an association list with distinct keys (\<open>gmap_ok\<close>). Ranging over it
  visits the entries in an order the language leaves open and may choose anew each time: the
  operations that range take that order as an argument \<open>ord\<close>, any function that permutes the
  entries (\<open>is_order\<close>).
\<close>

type_synonym 'v gmap = "(string \<times> 'v) list"

definition gget :: "string \<Rightarrow> 'v gmap \<Rightarrow> 'v option" where
  "gget k m = map_of m k"

definition gput :: "string \<Rightarrow> 'v \<Rightarrow> 'v gmap \<Rightarrow> 'v gmap" where
  "gput k v m = AList.update k v m"

definition gdel :: "string \<Rightarrow> 'v gmap \<Rightarrow> 'v gmap" where
  "gdel k m = AList.delete k m"

definition gmap_ok :: "'v gmap \<Rightarrow> bool" where
  "gmap_ok m \<longleftrightarrow> distinct (map fst m)"

definition is_order :: "('a list \<Rightarrow> 'a list) \<Rightarrow> bool" where
  "is_order ord \<longleftrightarrow> (\<forall>xs. mset (ord xs) = mset xs)"

lemma gget_gput [simp]: "gget k (gput k' v m) = (if k = k' then Some v else gget k m)"
  by (simp add: gget_def gput_def update_conv)

lemma gget_gdel [simp]: "gget k (gdel k' m) = (if k = k' then None else gget k m)"
  by (simp add: gget_def gdel_def delete_conv)

lemma gget_Nil [simp]: "gget k [] = None"
  by (simp add: gget_def)

lemma gmap_ok_Nil [simp, intro]: "gmap_ok []"
  by (simp add: gmap_ok_def)

lemma gmap_ok_gput [simp, intro]: "gmap_ok m \<Longrightarrow> gmap_ok (gput k v m)"
  by (simp add: gmap_ok_def gput_def distinct_update)

lemma gmap_ok_gdel [simp, intro]: "gmap_ok m \<Longrightarrow> gmap_ok (gdel k m)"
  by (simp add: gmap_ok_def gdel_def distinct_delete)

lemma gget_eq_Some_iff: "gmap_ok m \<Longrightarrow> gget k m = Some v \<longleftrightarrow> (k, v) \<in> set m"
  by (simp add: gget_def gmap_ok_def)

lemma gget_SomeD: "gget k m = Some v \<Longrightarrow> (k, v) \<in> set m"
  by (simp add: gget_def map_of_SomeD)

lemma is_order_set [simp]: "is_order ord \<Longrightarrow> set (ord xs) = set xs"
  unfolding is_order_def by (metis set_mset_mset)

lemma is_order_length [simp]: "is_order ord \<Longrightarrow> length (ord xs) = length xs"
  unfolding is_order_def by (metis size_mset)

lemma is_order_id [simp]: "is_order id" "is_order (\<lambda>xs. xs)" "is_order rev"
  by (simp_all add: is_order_def)

lemma is_order_mset: "is_order ord \<Longrightarrow> mset (ord xs) = mset xs"
  by (simp add: is_order_def)

lemma is_order_gmap_ok [simp]: "is_order ord \<Longrightarrow> gmap_ok (ord m) \<longleftrightarrow> gmap_ok m"
  unfolding gmap_ok_def is_order_def
  by (metis mset_eq_imp_distinct_iff mset_map)

lemma is_order_gget [simp]:
  assumes "is_order ord" "gmap_ok m"
  shows "gget k (ord m) = gget k m"
proof -
  have "(k, v) \<in> set (ord m) \<longleftrightarrow> (k, v) \<in> set m" for v
    using assms(1) by simp
  then have "gget k (ord m) = Some v \<longleftrightarrow> gget k m = Some v" for v
    using assms by (simp add: gget_eq_Some_iff)
  then show ?thesis
    by (metis not_None_eq)
qed

text \<open>
  The loops of the program that put a list of entries into a map: the last entry with a key wins.
\<close>

definition gput_all :: "('e \<Rightarrow> string) \<Rightarrow> 'e list \<Rightarrow> 'e gmap \<Rightarrow> 'e gmap" where
  "gput_all key es m = fold (\<lambda>e. gput (key e) e) es m"

lemma gput_all_Nil [simp]: "gput_all key [] m = m"
  by (simp add: gput_all_def)

lemma gput_all_Cons [simp]: "gput_all key (e # es) m = gput_all key es (gput (key e) e m)"
  by (simp add: gput_all_def)

lemma gmap_ok_gput_all [simp, intro]: "gmap_ok m \<Longrightarrow> gmap_ok (gput_all key es m)"
  by (induction es arbitrary: m) simp_all

lemma gget_gput_all_other:
  "k \<notin> key ` set es \<Longrightarrow> gget k (gput_all key es m) = gget k m"
  by (induction es arbitrary: m) auto

lemma gget_gput_all_distinct:
  "distinct (map key es) \<Longrightarrow> e \<in> set es \<Longrightarrow> gget (key e) (gput_all key es m) = Some e"
proof (induction es arbitrary: m)
  case Nil
  then show ?case by simp
next
  case (Cons a es)
  show ?case
  proof (cases "e = a")
    case True
    with Cons.prems show ?thesis
      by (auto simp: gget_gput_all_other)
  next
    case False
    with Cons show ?thesis by auto
  qed
qed

text \<open>A map whose keys are those of its values, which every store keeps.\<close>

definition keyed :: "('e \<Rightarrow> string) \<Rightarrow> 'e gmap \<Rightarrow> bool" where
  "keyed key m \<longleftrightarrow> gmap_ok m \<and> (\<forall>(k, e) \<in> set m. k = key e)"

lemma keyed_Nil [simp, intro]: "keyed key []"
  by (simp add: keyed_def)

lemma keyedD: "keyed key m \<Longrightarrow> gget k m = Some e \<Longrightarrow> key e = k"
  by (auto simp: keyed_def dest: gget_SomeD)

lemma set_gput: "set (gput k v m) \<subseteq> insert (k, v) (set m)"
  by (induction m) (auto simp: gput_def)

lemma set_gdel: "set (gdel k m) \<subseteq> set m"
  by (auto simp: gdel_def AList.delete_eq)

lemma keyed_gput [simp, intro]: "keyed key m \<Longrightarrow> keyed key (gput (key e) e m)"
  using set_gput [of "key e" e m] by (auto simp: keyed_def)

lemma keyed_gdel [simp, intro]: "keyed key m \<Longrightarrow> keyed key (gdel k m)"
  using set_gdel [of k m] by (auto simp: keyed_def)

lemma keyed_gput_all [simp, intro]: "keyed key m \<Longrightarrow> keyed key (gput_all key es m)"
  by (induction es arbitrary: m) simp_all

lemma keyed_order [simp]: "is_order ord \<Longrightarrow> keyed key (ord m) \<longleftrightarrow> keyed key m"
  by (simp add: keyed_def)

lemma keyed_map_fst: "keyed key m \<Longrightarrow> map fst m = map key (map snd m)"
  by (auto simp: keyed_def)

text \<open>Reloading what was saved gives the same map, whatever order it was saved in.\<close>

lemma gget_reload:
  assumes "keyed key m" "is_order ord"
  shows "gget k (gput_all key (map snd (ord m)) []) = gget k m"
proof -
  let ?es = "map snd (ord m)"
  have ok: "keyed key (ord m)" using assms by simp
  then have dist: "distinct (map key ?es)"
    using keyed_map_fst [OF ok] by (simp add: keyed_def gmap_ok_def)
  show ?thesis
  proof (cases "gget k m")
    case None
    then have "k \<notin> fst ` set (ord m)"
      using assms by (simp add: gget_def map_of_eq_None_iff)
    then have "k \<notin> key ` set ?es"
      using ok by (force simp: keyed_def)
    with None show ?thesis by (simp add: gget_gput_all_other)
  next
    case (Some e)
    then have "e \<in> set ?es" using assms by (force dest: gget_SomeD)
    from gget_gput_all_distinct [OF dist this, of "[]"] Some assms(1)
    show ?thesis by (simp add: keyedD)
  qed
qed

end
