(* ===== verification/GoStrings.thy ===== *)
theory GoStrings
  imports Prelude
begin

section \<open>Package strings and strconv\<close>

text \<open>
  What the program uses of Go's packages \<open>strings\<close>, \<open>strconv\<close> and \<open>encoding/hex\<close>. A Go string
  is a list of bytes, so it is a \<open>string\<close> (a \<open>char list\<close>, each \<open>char\<close> a byte). A search that Go
  writes as \<open>Index\<close> followed by slicing is \<open>Cut\<close> here: it returns what is before the first
  occurrence and what is after it. Letters and white space are the ASCII ones; the program forces
  the C locale on the commands whose output it parses.
\<close>

abbreviation HasPrefix :: "string \<Rightarrow> string \<Rightarrow> bool" where
  "HasPrefix s p \<equiv> prefix p s"

abbreviation HasSuffix :: "string \<Rightarrow> string \<Rightarrow> bool" where
  "HasSuffix s p \<equiv> suffix p s"

fun Cut :: "string \<Rightarrow> string \<Rightarrow> (string \<times> string) option" where
  "Cut [] p = (if p = [] then Some ([], []) else None)"
| "Cut (c # s) p =
     (if prefix p (c # s) then Some ([], drop (length p) (c # s))
      else map_option (\<lambda>(a, b). (c # a, b)) (Cut s p))"

fun CutLast :: "string \<Rightarrow> string \<Rightarrow> (string \<times> string) option" where
  "CutLast [] p = (if p = [] then Some ([], []) else None)"
| "CutLast (c # s) p =
     (case CutLast s p of
        Some (a, b) \<Rightarrow> Some (c # a, b)
      | None \<Rightarrow> if prefix p (c # s) then Some ([], drop (length p) (c # s)) else None)"

definition Contains :: "string \<Rightarrow> string \<Rightarrow> bool" where
  "Contains s p \<longleftrightarrow> Cut s p \<noteq> None"

definition ContainsAny :: "string \<Rightarrow> string \<Rightarrow> bool" where
  "ContainsAny s cs \<longleftrightarrow> list_ex (\<lambda>c. c \<in> set cs) s"

definition TrimPrefix :: "string \<Rightarrow> string \<Rightarrow> string" where
  "TrimPrefix s p = (if prefix p s then drop (length p) s else s)"

definition TrimSuffix :: "string \<Rightarrow> string \<Rightarrow> string" where
  "TrimSuffix s p = (if suffix p s then take (length s - length p) s else s)"

definition TrimLeftFunc :: "(char \<Rightarrow> bool) \<Rightarrow> string \<Rightarrow> string" where
  "TrimLeftFunc f s = dropWhile f s"

definition TrimRightFunc :: "(char \<Rightarrow> bool) \<Rightarrow> string \<Rightarrow> string" where
  "TrimRightFunc f s = rev (dropWhile f (rev s))"

definition TrimFunc :: "(char \<Rightarrow> bool) \<Rightarrow> string \<Rightarrow> string" where
  "TrimFunc f s = TrimRightFunc f (TrimLeftFunc f s)"

definition isSpace :: "char \<Rightarrow> bool" where
  "isSpace c \<longleftrightarrow> c \<in> {CHR 0x09, CHR 0x0A, CHR 0x0B, CHR 0x0C, CHR 0x0D, CHR '' ''}"

definition TrimSpace :: "string \<Rightarrow> string" where
  "TrimSpace s = TrimFunc isSpace s"

definition Trim :: "string \<Rightarrow> string \<Rightarrow> string" where
  "Trim s cs = TrimFunc (\<lambda>c. c \<in> set cs) s"

definition TrimRight :: "string \<Rightarrow> string \<Rightarrow> string" where
  "TrimRight s cs = TrimRightFunc (\<lambda>c. c \<in> set cs) s"

text \<open>\<open>strings.Split\<close> with a separator of one byte; the result is never empty.\<close>

fun splitOn :: "(char \<Rightarrow> bool) \<Rightarrow> string \<Rightarrow> string list" where
  "splitOn f [] = [[]]"
| "splitOn f (c # s) =
     (if f c then [] # splitOn f s
      else (case splitOn f s of [] \<Rightarrow> [[c]] | w # ws \<Rightarrow> (c # w) # ws))"

definition Split :: "string \<Rightarrow> char \<Rightarrow> string list" where
  "Split s c = splitOn (\<lambda>x. x = c) s"

definition Fields :: "string \<Rightarrow> string list" where
  "Fields s = filter (\<lambda>w. w \<noteq> []) (splitOn isSpace s)"

fun Join :: "string list \<Rightarrow> string \<Rightarrow> string" where
  "Join [] sep = []"
| "Join [w] sep = w"
| "Join (w # ws) sep = w @ sep @ Join ws sep"

definition toLowerChar :: "char \<Rightarrow> char" where
  "toLowerChar c =
     (if CHR ''A'' \<le> c \<and> c \<le> CHR ''Z'' then char_of (of_char c + (32 :: nat)) else c)"

definition ToLower :: "string \<Rightarrow> string" where
  "ToLower s = map toLowerChar s"

definition EqualFold :: "string \<Rightarrow> string \<Rightarrow> bool" where
  "EqualFold s t \<longleftrightarrow> ToLower s = ToLower t"

definition isDigit :: "char \<Rightarrow> bool" where
  "isDigit c \<longleftrightarrow> CHR ''0'' \<le> c \<and> c \<le> CHR ''9''"

definition isLowerHex :: "char \<Rightarrow> bool" where
  "isLowerHex c \<longleftrightarrow> isDigit c \<or> (CHR ''a'' \<le> c \<and> c \<le> CHR ''f'')"

definition isHexDigit :: "char \<Rightarrow> bool" where
  "isHexDigit c \<longleftrightarrow> isLowerHex c \<or> (CHR ''A'' \<le> c \<and> c \<le> CHR ''F'')"

definition isAlnum :: "char \<Rightarrow> bool" where
  "isAlnum c \<longleftrightarrow> (CHR ''a'' \<le> c \<and> c \<le> CHR ''z'') \<or> (CHR ''A'' \<le> c \<and> c \<le> CHR ''Z'') \<or> isDigit c"

subsection \<open>Numbers\<close>

definition digitVal :: "char \<Rightarrow> nat" where
  "digitVal c =
     (if isDigit c then of_char c - 48
      else if CHR ''a'' \<le> c \<and> c \<le> CHR ''f'' then of_char c - 87
      else if CHR ''A'' \<le> c \<and> c \<le> CHR ''F'' then of_char c - 55 else 16)"

definition digitChar :: "nat \<Rightarrow> char" where
  "digitChar d = char_of (48 + d)"

fun natDigits :: "nat \<Rightarrow> string" where
  "natDigits n = (if n < 10 then [digitChar n] else natDigits (n div 10) @ [digitChar (n mod 10)])"

declare natDigits.simps [simp del]

definition Itoa :: "int \<Rightarrow> string" where
  "Itoa i = (if i < 0 then CHR ''-'' # natDigits (nat (- i)) else natDigits (nat i))"

definition digitsValue :: "nat \<Rightarrow> string \<Rightarrow> nat" where
  "digitsValue base s = foldl (\<lambda>n c. n * base + digitVal c) 0 s"

text \<open>
  \<open>strconv.ParseUint(s, base, 64)\<close> as the program uses it, with the error dropped: 0 on a syntax
  error, the largest \<open>uint64\<close> on a value out of range.
\<close>

definition maxUint64 :: nat where
  "maxUint64 = 18446744073709551615"

definition ParseUint :: "string \<Rightarrow> nat \<Rightarrow> nat" where
  "ParseUint s base =
     (if s = [] \<or> list_ex (\<lambda>c. base \<le> digitVal c) s then 0
      else min (digitsValue base s) maxUint64)"

text \<open>\<open>strconv.Atoi\<close>: an optional sign and decimal digits, within the range of \<open>int\<close> (64 bits).\<close>

definition minInt64 :: int where
  "minInt64 = -9223372036854775808"

definition maxInt64 :: int where
  "maxInt64 = 9223372036854775807"

text \<open>What a 64-bit signed variable holds after an operation with the exact result \<open>i\<close>.\<close>

definition int64 :: "int \<Rightarrow> int" where
  "int64 i = signed_take_bit 63 i"

definition Atoi :: "string \<Rightarrow> int option" where
  "Atoi s =
     (let neg = prefix ''-'' s; d = (if neg \<or> prefix ''+'' s then tl s else s);
          v = (if neg then - int (digitsValue 10 d) else int (digitsValue 10 d))
      in if d = [] \<or> \<not> list_all isDigit d \<or> v < minInt64 \<or> maxInt64 < v then None else Some v)"

text \<open>Bytes that a literal cannot hold.\<close>

abbreviation nl :: char where "nl \<equiv> CHR 0x0A"
abbreviation tab :: char where "tab \<equiv> CHR 0x09"
abbreviation apos :: char where "apos \<equiv> CHR 0x27"
abbreviation dquote :: char where "dquote \<equiv> CHR 0x22"

text \<open>A value between single quotes, as the program writes XML attributes.\<close>

definition sq :: "string \<Rightarrow> string" where
  "sq v = apos # v @ [apos]"

subsection \<open>Facts about searching\<close>

lemma Cut_Nil_pat [simp]: "Cut s [] = Some ([], s)"
  by (cases s) auto

lemma Cut_here [simp]: "Cut (p @ b) p = Some ([], b)"
  by (cases p) auto

lemma Cut_SomeD: "Cut s p = Some (a, b) \<Longrightarrow> s = a @ p @ b"
proof (induction s p arbitrary: a b rule: Cut.induct)
  case (1 p)
  then show ?case by (auto split: if_splits)
next
  case (2 c s p)
  show ?case
  proof (cases "prefix p (c # s)")
    case True
    with "2.prems" show ?thesis by (auto elim: prefixE)
  next
    case False
    with "2.prems" obtain a' where "Cut s p = Some (a', b)" "a = c # a'"
      by auto
    with "2.IH" [OF False] show ?thesis by simp
  qed
qed

lemma Cut_eq_None_iff: "Cut s p = None \<longleftrightarrow> (\<forall>a b. s \<noteq> a @ p @ b)"
proof (induction s p rule: Cut.induct)
  case (1 p)
  then show ?case by auto
next
  case (2 c s p)
  show ?case
  proof (cases "prefix p (c # s)")
    case True
    then obtain b where "c # s = [] @ p @ b" by (auto elim: prefixE)
    moreover have "Cut (c # s) p \<noteq> None" using True by simp
    ultimately show ?thesis by blast
  next
    case False
    then have "(\<forall>a b. c # s \<noteq> a @ p @ b) \<longleftrightarrow> (\<forall>a b. s \<noteq> a @ p @ b)"
      by (auto simp: append_eq_Cons_conv Cons_eq_append_conv prefix_def)
    with False "2.IH" show ?thesis by simp
  qed
qed

lemma Contains_iff: "Contains s p \<longleftrightarrow> (\<exists>a b. s = a @ p @ b)"
  unfolding Contains_def Cut_eq_None_iff by blast

lemma Contains_appI: "Contains s p \<Longrightarrow> Contains (a @ s @ b) p"
  by (auto simp: Contains_iff) (metis append_assoc)

lemma Contains_append1: "Contains s p \<Longrightarrow> Contains (a @ s) p"
  using Contains_appI [of s p a "[]"] by simp

lemma Contains_append2: "Contains s p \<Longrightarrow> Contains (s @ b) p"
  using Contains_appI [of s p "[]" b] by simp

lemma Contains_self: "Contains (a @ p @ b) p"
  by (auto simp: Contains_iff)

lemma Cut_ContainsI: "Contains s p \<Longrightarrow> \<exists>a b. Cut s p = Some (a, b)"
  by (auto simp: Contains_def)

lemma Cut_NoneD: "Cut s p = None \<Longrightarrow> \<not> Contains s p"
  by (simp add: Contains_def)

text \<open>What follows the first occurrence does not matter for finding it.\<close>

lemma Cut_extend: "Cut s p = Some (a, b) \<Longrightarrow> Cut (a @ p @ b') p = Some (a, b')"
proof (induction s p arbitrary: a b rule: Cut.induct)
  case (1 p)
  then show ?case by (cases b') (auto split: if_splits)
next
  case (2 c s p)
  show ?case
  proof (cases "prefix p (c # s)")
    case True
    with "2.prems" have "a = []" by simp
    then show ?thesis by simp
  next
    case False
    with "2.prems" obtain a' where a': "Cut s p = Some (a', b)" "a = c # a'"
      by auto
    have "\<not> prefix p (c # a' @ p @ b')"
    proof
      assume pre: "prefix p (c # a' @ p @ b')"
      have "prefix (c # a' @ p) (c # s)"
        using Cut_SomeD [OF a'(1)] by (simp add: prefix_def)
      moreover have "prefix (c # a' @ p) (c # a' @ p @ b')"
        by (simp add: prefix_def)
      ultimately have "prefix p (c # s)"
        using pre by (metis Cons_eq_appendI length_append le_add2 prefix_length_prefix prefix_order.trans)
      with False show False ..
    qed
    with a' "2.IH" [OF False a'(1)] show ?thesis by simp
  qed
qed

lemma Cut_append: "Cut s p = Some (a, b) \<Longrightarrow> Cut (s @ t) p = Some (a, b @ t)"
  using Cut_extend [of s p a b "b @ t"] Cut_SomeD [of s p a b] by simp

text \<open>A search skips bytes that the pattern does not start with.\<close>

lemma Cut_skip:
  "p \<noteq> [] \<Longrightarrow> hd p \<notin> set a \<Longrightarrow>
    Cut (a @ s) p = map_option (\<lambda>(x, y). (a @ x, y)) (Cut s p)"
proof (induction a)
  case Nil
  then show ?case by (simp add: option.map_ident case_prod_eta option.map_ident_strong split_def)
next
  case (Cons c a)
  then have "\<not> prefix p (c # a @ s)"
    by (cases p) auto
  with Cons show ?case
    by (cases "Cut s p") auto
qed

lemma Cut_skip_Some:
  "Cut s p = Some (x, y) \<Longrightarrow> p \<noteq> [] \<Longrightarrow> hd p \<notin> set a \<Longrightarrow> Cut (a @ s) p = Some (a @ x, y)"
  by (simp add: Cut_skip)

lemma Cut_skip_here:
  "p \<noteq> [] \<Longrightarrow> hd p \<notin> set a \<Longrightarrow> Cut (a @ p @ b) p = Some (a, b)"
  using Cut_skip_Some [of "p @ b" p "[]" b a] by simp

lemma Cut_byte [simp]: "c \<notin> set a \<Longrightarrow> Cut (a @ c # b) [c] = Some (a, b)"
  using Cut_skip_here [of "[c]" a b] by simp

lemma byte_unique:
  assumes "(c :: char) \<notin> set a" "c \<notin> set a'"
  shows "a @ c # b = a' @ c # b' \<longleftrightarrow> a = a' \<and> b = b'"
proof
  assume eq: "a @ c # b = a' @ c # b'"
  have "Some (a, b) = Cut (a @ c # b) [c]"
    by (rule Cut_byte [OF assms(1), symmetric])
  also have "\<dots> = Cut (a' @ c # b') [c]"
    by (rule arg_cong [OF eq])
  also have "\<dots> = Some (a', b')"
    by (rule Cut_byte [OF assms(2)])
  finally show "a = a' \<and> b = b'" by simp
qed simp

lemma Cut_byte_notin: "Cut s [c] = Some (a, b) \<Longrightarrow> c \<notin> set a"
  by (induction s arbitrary: a) (auto split: if_splits)

lemma Cut_byte_Some_iff: "Cut s [c] = Some (a, b) \<longleftrightarrow> s = a @ c # b \<and> c \<notin> set a"
  using Cut_SomeD Cut_byte_notin by fastforce

lemma Cut_byte_None_iff: "Cut s [c] = None \<longleftrightarrow> c \<notin> set s"
  by (auto simp: Cut_eq_None_iff in_set_conv_decomp)

text \<open>The first occurrence of a longer pattern that starts at the first occurrence of a shorter one.\<close>

lemma Cut_longer: "Cut s p = Some (a, q @ b) \<Longrightarrow> Cut s (p @ q) = Some (a, b)"
proof (induction s arbitrary: a)
  case Nil
  then show ?case by (auto split: if_splits)
next
  case (Cons c s)
  show ?case
  proof (cases "prefix p (c # s)")
    case True
    then obtain t where t: "c # s = p @ t" by (auto elim: prefixE)
    with Cons.prems True have "a = []" "t = q @ b" by auto
    with t show ?thesis by (metis Cut_here append_assoc append_Nil)
  next
    case False
    then have "\<not> prefix (p @ q) (c # s)" by (metis append_prefixD)
    with False Cons show ?thesis by auto
  qed
qed

lemma Cut_length: "Cut s p = Some (a, b) \<Longrightarrow> length s = length a + length p + length b"
  by (drule Cut_SomeD) simp

lemma Cut_drop_front: "Cut (u @ v) p = Some (u @ w, z) \<Longrightarrow> Cut v p = Some (w, z)"
  by (induction u) (auto split: if_splits)

lemma Cut_before_None:
  assumes "Cut s p = Some (x @ y, z)" "p \<noteq> []"
  shows "Cut x p = None"
proof (rule ccontr)
  assume "Cut x p \<noteq> None"
  then obtain a b where ab: "Cut x p = Some (a, b)" by auto
  have s: "s = x @ y @ p @ z" using Cut_SomeD [OF assms(1)] by simp
  have "Cut s p = Some (a, b @ y @ p @ z)"
    using Cut_append [OF ab, of "y @ p @ z"] s by simp
  with assms Cut_SomeD [OF ab] show False by simp
qed

text \<open>A search crosses a byte that the pattern can only start with.\<close>

lemma Cut_boundary:
  assumes "c \<notin> set (tl p)" "p \<noteq> []" "Cut x p = None"
  shows "Cut (x @ c # s) p = map_option (\<lambda>(u, v). (x @ u, v)) (Cut (c # s) p)"
  using assms(3)
proof (induction x)
  case Nil
  then show ?case by (simp add: map_option.identity id_def case_prod_eta option.map_ident)
next
  case (Cons y x)
  have "\<not> prefix p (y # x @ c # s)"
  proof
    assume pre: "prefix p (y # x @ c # s)"
    have "\<not> prefix p (y # x)" using Cons.prems by (auto split: if_splits)
    with pre have "c \<in> set (tl p)"
      using assms(2) by (cases p) (auto simp: prefix_append prefix_Cons)
    with assms(1) show False ..
  qed
  with Cons show ?case
    by (cases "Cut (c # s) p") (auto split: if_splits)
qed

lemma CutLast_SomeD: "CutLast s p = Some (a, b) \<Longrightarrow> s = a @ p @ b"
proof (induction s arbitrary: a b)
  case Nil
  then show ?case by (auto split: if_splits)
next
  case (Cons c s)
  then show ?case
    by (auto split: option.splits if_splits prod.splits elim: prefixE)
qed

lemma CutLast_eq_None_iff: "CutLast s p = None \<longleftrightarrow> Cut s p = None"
proof (induction s)
  case Nil
  then show ?case by simp
next
  case (Cons c s)
  then show ?case by (auto split: option.splits)
qed

lemma CutLast_last: "p \<noteq> [] \<Longrightarrow> CutLast s p = Some (a, b) \<Longrightarrow> \<not> Contains b p"
proof (induction s arbitrary: a)
  case Nil
  then show ?case by simp
next
  case (Cons c s)
  show ?case
  proof (cases "CutLast s p")
    case (Some ab)
    with Cons show ?thesis by (cases ab) simp
  next
    case None
    with Cons.prems have "b = drop (length p) (c # s)" by (simp split: if_splits)
    with Cons.prems(1) have b: "b = drop (length p - 1) s" by (cases p) simp_all
    have "Cut s p = None" using None by (simp only: CutLast_eq_None_iff)
    then have n: "s \<noteq> x @ p @ y" for x y by (simp only: Cut_eq_None_iff not_False_eq_True)
    have "b \<noteq> x @ p @ y" for x y
      using n [of "take (length p - 1) s @ x" y] b by (metis append.assoc append_take_drop_id)
    then show ?thesis by (simp add: Contains_def Cut_eq_None_iff)
  qed
qed

lemma Contains_skip: "p \<noteq> [] \<Longrightarrow> hd p \<notin> set a \<Longrightarrow> Contains (a @ s) p \<longleftrightarrow> Contains s p"
  by (auto simp: Contains_def Cut_skip)

subsection \<open>Facts about numbers\<close>

lemma digitChar_table:
  "list_all (\<lambda>d. digitVal (digitChar d) = d \<and> isDigit (digitChar d)) [0..<10]"
  by code_simp

lemma digitVal_digitChar [simp]: "d < 10 \<Longrightarrow> digitVal (digitChar d) = d"
  and isDigit_digitChar [simp]: "d < 10 \<Longrightarrow> isDigit (digitChar d)"
  using digitChar_table by (simp_all add: list_all_iff)

lemma natDigits_isDigit: "list_all isDigit (natDigits n)"
proof (induction n rule: natDigits.induct)
  case (1 n)
  then show ?case by (subst natDigits.simps) auto
qed

lemma natDigits_not_Nil [simp]: "natDigits n \<noteq> []"
  by (subst natDigits.simps) simp

lemma digitsValue_snoc: "digitsValue base (s @ [c]) = digitsValue base s * base + digitVal c"
  by (simp add: digitsValue_def)

lemma digitsValue_natDigits [simp]: "digitsValue 10 (natDigits n) = n"
proof (induction n rule: natDigits.induct)
  case (1 n)
  show ?case
  proof (cases "n < 10")
    case True
    then show ?thesis by (subst natDigits.simps) (simp add: digitsValue_def)
  next
    case False
    then show ?thesis
      using 1 by (subst natDigits.simps) (simp add: digitsValue_snoc)
  qed
qed

lemma not_isDigit [simp]:
  "\<not> isDigit (CHR ''-'')" "\<not> isDigit (CHR ''+'')" "\<not> isDigit (CHR ''p'')" "\<not> isDigit (CHR ''a'')"
  "\<not> isDigit (CHR '' '')" "\<not> isDigit apos" "\<not> isDigit (CHR ''>'')" "\<not> isDigit (CHR ''<'')"
  "\<not> isDigit dquote" "\<not> isDigit (CHR ''l'')" "\<not> isDigit (CHR ''/'')"
  by (simp_all add: isDigit_def less_eq_char_def)

lemma natDigits_notin: "\<not> isDigit c \<Longrightarrow> c \<notin> set (natDigits n)"
  using natDigits_isDigit [of n] by (auto simp: list_all_iff)

lemma Itoa_pos: "0 < i \<Longrightarrow> Itoa i = natDigits (nat i)"
  by (simp add: Itoa_def)

lemma Atoi_natDigits: "int n \<le> maxInt64 \<Longrightarrow> Atoi (natDigits n) = Some (int n)"
proof -
  assume n: "int n \<le> maxInt64"
  have "\<not> prefix ''-'' (natDigits n)" "\<not> prefix ''+'' (natDigits n)"
    using natDigits_notin [of "CHR ''-''" n] natDigits_notin [of "CHR ''+''" n]
    by (auto simp: prefix_def)
  with n show ?thesis
    using natDigits_isDigit [of n] by (simp add: Atoi_def Let_def minInt64_def)
qed

lemma Atoi_Itoa_pos: "0 < i \<Longrightarrow> i \<le> maxInt64 \<Longrightarrow> Atoi (Itoa i) = Some i"
  using Atoi_natDigits [of "nat i"] by (simp add: Itoa_pos)

declare natDigits.simps [simp del]

end
