(* ===== verification/GoPath.thy ===== *)
theory GoPath
  imports GoStrings
begin

section \<open>Package path/filepath\<close>

text \<open>
  The lexical path functions the program calls, on slash-separated paths. \<open>Clean\<close> works on the
  list of path elements: empty and \<open>.\<close> elements are dropped, and \<open>..\<close> takes back the element
  before it, is dropped at the root and is kept at the front of a relative path.
\<close>

definition IsAbs :: "string \<Rightarrow> bool" where
  "IsAbs p \<longleftrightarrow> HasPrefix p ''/''"

text \<open>The elements seen so far are kept in reverse.\<close>

fun cleanElems :: "bool \<Rightarrow> string list \<Rightarrow> string list \<Rightarrow> string list" where
  "cleanElems rooted acc [] = rev acc"
| "cleanElems rooted acc (e # es) =
     (if e = [] \<or> e = ''.'' then cleanElems rooted acc es
      else if e = ''..'' then
        (case acc of
           [] \<Rightarrow> if rooted then cleanElems rooted [] es else cleanElems rooted [''..''] es
         | a # acc' \<Rightarrow> if a = ''..'' then cleanElems rooted (''..'' # acc) es
                       else cleanElems rooted acc' es)
      else cleanElems rooted (e # acc) es)"

definition Clean :: "string \<Rightarrow> string" where
  "Clean p =
     (if p = [] then ''.''
      else let es = cleanElems (IsAbs p) [] (Split p (CHR ''/''))
           in if IsAbs p then ''/'' @ Join es ''/''
              else if es = [] then ''.'' else Join es ''/'')"

text \<open>\<open>filepath.Join\<close> ignores empty elements.\<close>

definition JoinPath :: "string list \<Rightarrow> string" where
  "JoinPath ws =
     (let es = filter (\<lambda>w. w \<noteq> []) ws in if es = [] then [] else Clean (Join es ''/''))"

definition Base :: "string \<Rightarrow> string" where
  "Base p =
     (if p = [] then ''.''
      else let q = TrimRightFunc (\<lambda>c. c = CHR ''/'') p
           in if q = [] then ''/'' else last (Split q (CHR ''/'')))"

definition Dir :: "string \<Rightarrow> string" where
  "Dir p =
     (case CutLast p ''/'' of
        None \<Rightarrow> ''.''
      | Some (a, _) \<Rightarrow> Clean (a @ ''/''))"

subsection \<open>Elements of a path\<close>

lemma splitOn_not_Nil [simp]: "splitOn f s \<noteq> []"
  by (induction s) (auto split: list.splits)

lemma splitOn_append:
  "f c \<Longrightarrow> splitOn f (a @ c # b) = splitOn f a @ splitOn f b"
proof (induction a)
  case Nil
  then show ?case by simp
next
  case (Cons x a)
  then show ?case by (cases "splitOn f a") auto
qed

lemma splitOn_single: "\<forall>c \<in> set w. \<not> f c \<Longrightarrow> splitOn f w = [w]"
  by (induction w) auto

lemma splitOn_elems: "w \<in> set (splitOn f s) \<Longrightarrow> c \<in> set w \<Longrightarrow> \<not> f c"
proof (induction s arbitrary: w)
  case Nil
  then show ?case by simp
next
  case (Cons x s)
  then show ?case
    by (cases "splitOn f s") (fastforce split: if_splits)+
qed

lemma splitOn_set: "w \<in> set (splitOn f s) \<Longrightarrow> set w \<subseteq> set s"
proof (induction s arbitrary: w)
  case Nil
  then show ?case by simp
next
  case (Cons x s)
  then show ?case
    by (cases "splitOn f s") (fastforce split: if_splits)+
qed

lemma splitOn_sublist: "w \<in> set (splitOn f s) \<Longrightarrow> \<exists>a b. s = a @ w @ b"
proof (induction s arbitrary: w)
  case Nil
  then show ?case by simp
next
  case (Cons x s)
  obtain v vs where v: "splitOn f s = v # vs"
    by (cases "splitOn f s") auto
  show ?case
  proof (cases "f x")
    case True
    with Cons show ?thesis
      by (auto simp: Cons_eq_append_conv) (metis append_Cons)
  next
    case False
    from v have "\<exists>b. s = v @ b"
    proof (induction s arbitrary: v vs)
      case Nil
      then show ?case by simp
    next
      case (Cons y s)
      then show ?case
        by (cases "splitOn f s") (auto split: if_splits)
    qed
    with False Cons v show ?thesis
      by (auto simp: Cons_eq_append_conv) (metis append_Cons)+
  qed
qed

lemma Split_elems: "w \<in> set (Split s c) \<Longrightarrow> c \<notin> set w"
  unfolding Split_def using splitOn_elems by fastforce

text \<open>Without a \<open>..\<close> element, cleaning only drops the empty and the \<open>.\<close> elements.\<close>

lemma cleanElems_no_dotdot:
  "''..'' \<notin> set es \<Longrightarrow>
    cleanElems rooted acc es = rev acc @ filter (\<lambda>e. e \<noteq> [] \<and> e \<noteq> ''.'') es"
  by (induction es arbitrary: acc) auto

lemma Join_Cons: "Join (w # ws) sep = w @ (if ws = [] then [] else sep @ Join ws sep)"
  by (cases ws) auto

lemma no_dotdot_elem: "\<not> Contains p ''..'' \<Longrightarrow> ''..'' \<notin> set (Split p c)"
  using splitOn_sublist [of "''..''" "\<lambda>x. x = c" p] by (auto simp: Split_def Contains_iff)

definition pathElems :: "string \<Rightarrow> string list" where
  "pathElems p = filter (\<lambda>e. e \<noteq> [] \<and> e \<noteq> ''.'') (Split p (CHR ''/''))"

lemma Clean_abs:
  assumes "IsAbs p" "\<not> Contains p ''..''"
  shows "Clean p = ''/'' @ Join (pathElems p) ''/''"
  using assms
  by (cases p) (simp_all add: IsAbs_def Clean_def cleanElems_no_dotdot no_dotdot_elem pathElems_def Let_def)

lemma pathElems_elem: "e \<in> set (pathElems p) \<Longrightarrow> e \<noteq> [] \<and> CHR ''/'' \<notin> set e"
  by (auto simp: pathElems_def dest: Split_elems)

text \<open>
  A cleaned absolute path is at or below the directory \<open>/d\<close> exactly when its first element is
  \<open>d\<close>: the test by string prefix that the program makes is the test by path element.
\<close>

lemma below_iff_first_elem:
  assumes "\<forall>e \<in> set es. CHR ''/'' \<notin> set e" "CHR ''/'' \<notin> set d" "d \<noteq> []"
  shows "''/'' @ Join es ''/'' = ''/'' @ d \<or> HasPrefix (''/'' @ Join es ''/'') ((''/'' @ d) @ ''/'')
    \<longleftrightarrow> (\<exists>rest. es = d # rest)" (is "?l \<longleftrightarrow> ?r")
proof (cases es)
  case Nil
  with assms show ?thesis by auto
next
  case (Cons e rest)
  have e: "CHR ''/'' \<notin> set e" using Cons assms(1) by simp
  have "e = d" if ?l
  proof -
    from that consider "Join es ''/'' = d" | t where "Join es ''/'' = d @ CHR ''/'' # t"
      by (auto simp: prefix_def)
    then show ?thesis
    proof cases
      case 1
      with Cons assms(2) show ?thesis by (auto simp: Join_Cons split: if_splits)
    next
      case 2
      then have "rest \<noteq> []" using Cons e by (auto simp: Join_Cons split: if_splits)
      with 2 Cons have "e @ CHR ''/'' # Join rest ''/'' = d @ CHR ''/'' # t"
        by (simp add: Join_Cons)
      with e assms(2) show ?thesis
        by (metis Cut_byte option.inject prod.inject)
    qed
  qed
  moreover have ?l if "e = d"
    using that Cons by (cases rest) auto
  ultimately show ?thesis using Cons by auto
qed

lemma root_iff_no_elem:
  assumes "\<forall>e \<in> set es. e \<noteq> [] \<and> CHR ''/'' \<notin> set e"
  shows "''/'' @ Join es ''/'' = ''/'' \<or> HasPrefix (''/'' @ Join es ''/'') (''/'' @ ''/'') \<longleftrightarrow> es = []"
proof (cases es)
  case Nil
  then show ?thesis by simp
next
  case (Cons e rest)
  with assms obtain c t where "e = c # t" "c \<noteq> CHR ''/''" by (cases e) auto
  with Cons show ?thesis by (cases rest) auto
qed

end
