(* ===== verification/Host.thy ===== *)
theory Host
  imports GoPath
begin

section \<open>The host: files, external programs, JSON documents\<close>

text \<open>
  What the daemon shares with the rest of the machine. \<open>world\<close> holds the files the daemon reads and
  writes, the state \<open>'h\<close> of everything behind the external programs (libvirt, \<open>mount\<close>,
  \<open>qemu-img\<close>) and, as a ghost field, the trace of the programs it ran. \<open>env\<close> is what is not under
  \<open>src/\<close>: the external programs as a function of their arguments, the files they can read and their
  own state; which file operations the operating system refuses; what a failed write leaves behind;
  the random part of a temporary file's name; the text of \<open>/proc/mounts\<close>, which the kernel makes.

  A file holds either the rendering of a JSON value (\<open>Doc\<close>) or any other text (\<open>Text\<close>); the
  package \<open>encoding/json\<close> is modelled on the JSON values, between the program's structs and \<open>Doc\<close>.
\<close>

datatype json =
    JNull
  | JBool bool
  | JInt int
  | JFloat string
  | JStr string
  | JArr "json list"
  | JObj "(string \<times> json) list"

datatype content = Text string | Doc json

type_synonym fileset = "string \<Rightarrow> content option"

datatype osOp = OpRead | OpWrite | OpClose | OpMkdir | OpRename | OpRemove | OpCreate | OpChmod

datatype exec_result = ExecOK string | ExecFail string string string

record cmd =
  cProg :: string
  cArgs :: "string list"
  cSeen :: fileset

record 'h world =
  files :: fileset
  hyp :: 'h
  cmds :: "cmd list"

record 'h env =
  exec :: "string \<Rightarrow> string list \<Rightarrow> fileset \<Rightarrow> 'h \<Rightarrow> exec_result \<times> 'h"
  osFault :: "osOp \<Rightarrow> string \<Rightarrow> fileset \<Rightarrow> bool"
  osTorn :: "string \<Rightarrow> fileset \<Rightarrow> content option"
  tmpTag :: "fileset \<Rightarrow> string"
  procMounts :: "'h \<Rightarrow> string option"

subsection \<open>Package os\<close>

definition os_ReadFile :: "'h env \<Rightarrow> string \<Rightarrow> 'h world \<Rightarrow> content res" where
  "os_ReadFile env p w =
     (case files w p of
        None \<Rightarrow> Inl (OSNotExist p)
      | Some c \<Rightarrow> if osFault env OpRead p (files w) then Inl (OSError ''open'' p) else Inr c)"

text \<open>A failed write may leave the file torn, missing or as it was.\<close>

definition os_WriteFile :: "'h env \<Rightarrow> string \<Rightarrow> content \<Rightarrow> (unit, 'h world) act" where
  "os_WriteFile env p c w =
     (if osFault env OpWrite p (files w)
      then (Inl (OSError ''write'' p), w\<lparr>files := (files w)(p := osTorn env p (files w))\<rparr>)
      else (Inr (), w\<lparr>files := (files w)(p \<mapsto> c)\<rparr>))"

definition os_Rename :: "'h env \<Rightarrow> string \<Rightarrow> string \<Rightarrow> (unit, 'h world) act" where
  "os_Rename env old new w =
     (case files w old of
        None \<Rightarrow> (Inl (OSNotExist old), w)
      | Some c \<Rightarrow>
          if osFault env OpRename old (files w) then (Inl (OSError ''rename'' old), w)
          else (Inr (), w\<lparr>files := (files w)(old := None, new \<mapsto> c)\<rparr>))"

definition os_Remove :: "'h env \<Rightarrow> string \<Rightarrow> (unit, 'h world) act" where
  "os_Remove env p w =
     (if files w p = None then (Inl (OSNotExist p), w)
      else if osFault env OpRemove p (files w) then (Inl (OSError ''remove'' p), w)
      else (Inr (), w\<lparr>files := (files w)(p := None)\<rparr>))"

text \<open>Directories are not tracked: making one can fail and otherwise changes nothing here.\<close>

definition os_MkdirAll :: "'h env \<Rightarrow> string \<Rightarrow> 'h world \<Rightarrow> unit res" where
  "os_MkdirAll env p w =
     (if osFault env OpMkdir p (files w) then Inl (OSError ''mkdir'' p) else Inr ())"

text \<open>\<open>os.CreateTemp\<close> creates a new file only: a name that is taken is an error.\<close>

definition os_CreateTemp :: "'h env \<Rightarrow> string \<Rightarrow> string \<Rightarrow> string \<Rightarrow> (string, 'h world) act" where
  "os_CreateTemp env dir pre suf w =
     (let name = dir @ ''/'' @ pre @ tmpTag env (files w) @ suf
      in if files w name \<noteq> None \<or> osFault env OpCreate name (files w)
         then (Inl (OSError ''createtemp'' name), w)
         else (Inr name, w\<lparr>files := (files w)(name \<mapsto> Text [])\<rparr>))"

definition os_Chmod :: "'h env \<Rightarrow> string \<Rightarrow> 'h world \<Rightarrow> unit res" where
  "os_Chmod env p w =
     (if files w p = None then Inl (OSNotExist p)
      else if osFault env OpChmod p (files w) then Inl (OSError ''chmod'' p) else Inr ())"

text \<open>\<open>os.Stat\<close> without an error.\<close>

definition os_Stat :: "'h env \<Rightarrow> string \<Rightarrow> 'h world \<Rightarrow> bool" where
  "os_Stat env p w \<longleftrightarrow> files w p \<noteq> None \<and> \<not> osFault env OpRead p (files w)"

text \<open>Running a program: the trace records it with the files it could see.\<close>

definition os_exec :: "'h env \<Rightarrow> string \<Rightarrow> string list \<Rightarrow> 'h world \<Rightarrow> exec_result \<times> 'h world" where
  "os_exec env prog args w =
     (case exec env prog args (files w) (hyp w) of
        (r, h) \<Rightarrow> (r, w\<lparr>hyp := h, cmds := cmds w @ [\<lparr>cProg = prog, cArgs = args, cSeen = files w\<rparr>]\<rparr>))"

subsection \<open>Package encoding/json\<close>

text \<open>
  Unmarshalling into a struct goes through the members of the object in their order; a name selects
  a field whatever its case; \<open>null\<close> leaves the field as it is; a value of the wrong type is an error;
  a name without a field is ignored.
\<close>

definition asStr :: "json \<Rightarrow> string \<Rightarrow> string res" where
  "asStr j old = (case j of JStr s \<Rightarrow> Inr s | JNull \<Rightarrow> Inr old | _ \<Rightarrow> Inl (JsonError ''string''))"

definition asBool :: "json \<Rightarrow> bool \<Rightarrow> bool res" where
  "asBool j old = (case j of JBool b \<Rightarrow> Inr b | JNull \<Rightarrow> Inr old | _ \<Rightarrow> Inl (JsonError ''bool''))"

definition asInt :: "json \<Rightarrow> int \<Rightarrow> int res" where
  "asInt j old =
     (case j of
        JInt i \<Rightarrow> if minInt64 \<le> i \<and> i \<le> maxInt64 then Inr i else Inl (JsonError ''int'')
      | JNull \<Rightarrow> Inr old
      | _ \<Rightarrow> Inl (JsonError ''int''))"

text \<open>A field of a struct \<open>'e\<close>: its JSON name and how a value is stored in it.\<close>

type_synonym 'e field = "string \<times> (json \<Rightarrow> 'e \<Rightarrow> 'e res)"

definition strField :: "('e \<Rightarrow> string) \<Rightarrow> ((string \<Rightarrow> string) \<Rightarrow> 'e \<Rightarrow> 'e) \<Rightarrow> json \<Rightarrow> 'e \<Rightarrow> 'e res" where
  "strField get upd j e = map_sum id (\<lambda>v. upd (\<lambda>_. v) e) (asStr j (get e))"

definition boolField :: "('e \<Rightarrow> bool) \<Rightarrow> ((bool \<Rightarrow> bool) \<Rightarrow> 'e \<Rightarrow> 'e) \<Rightarrow> json \<Rightarrow> 'e \<Rightarrow> 'e res" where
  "boolField get upd j e = map_sum id (\<lambda>v. upd (\<lambda>_. v) e) (asBool j (get e))"

definition intField :: "('e \<Rightarrow> int) \<Rightarrow> ((int \<Rightarrow> int) \<Rightarrow> 'e \<Rightarrow> 'e) \<Rightarrow> json \<Rightarrow> 'e \<Rightarrow> 'e res" where
  "intField get upd j e = map_sum id (\<lambda>v. upd (\<lambda>_. v) e) (asInt j (get e))"

fun setField :: "'e field list \<Rightarrow> string \<Rightarrow> json \<Rightarrow> 'e \<Rightarrow> 'e res" where
  "setField [] k j e = Inr e"
| "setField ((n, f) # fs) k j e = (if EqualFold n k then f j e else setField fs k j e)"

fun setFields :: "'e field list \<Rightarrow> (string \<times> json) list \<Rightarrow> 'e \<Rightarrow> 'e res" where
  "setFields fs [] e = Inr e"
| "setFields fs ((k, j) # ms) e =
     (case setField fs k j e of Inl x \<Rightarrow> Inl x | Inr e' \<Rightarrow> setFields fs ms e')"

definition decodeStruct :: "'e field list \<Rightarrow> 'e \<Rightarrow> json \<Rightarrow> 'e res" where
  "decodeStruct fs zero j =
     (case j of
        JObj ms \<Rightarrow> setFields fs ms zero
      | JNull \<Rightarrow> Inr zero
      | _ \<Rightarrow> Inl (JsonError ''object''))"

fun decodeAll :: "(json \<Rightarrow> 'e res) \<Rightarrow> json list \<Rightarrow> 'e list res" where
  "decodeAll dec [] = Inr []"
| "decodeAll dec (j # js) =
     (case dec j of
        Inl x \<Rightarrow> Inl x
      | Inr e \<Rightarrow> (case decodeAll dec js of Inl x \<Rightarrow> Inl x | Inr es \<Rightarrow> Inr (e # es)))"

definition decodeArray :: "(json \<Rightarrow> 'e res) \<Rightarrow> json \<Rightarrow> 'e list res" where
  "decodeArray dec j =
     (case j of JArr js \<Rightarrow> decodeAll dec js | JNull \<Rightarrow> Inr [] | _ \<Rightarrow> Inl (JsonError ''array''))"

text \<open>A member with \<open>omitempty\<close> is left out when it is the empty value.\<close>

definition omitStr :: "string \<Rightarrow> string \<Rightarrow> (string \<times> json) list" where
  "omitStr k v = (if v = [] then [] else [(k, JStr v)])"

definition omitInt :: "string \<Rightarrow> int \<Rightarrow> (string \<times> json) list" where
  "omitInt k v = (if v = 0 then [] else [(k, JInt v)])"

lemma decodeAll_map: "(\<And>e. e \<in> set es \<Longrightarrow> dec (enc e) = Inr e) \<Longrightarrow> decodeAll dec (map enc es) = Inr es"
  by (induction es) auto

lemma setFields_append:
  "setFields fs (ms @ ns) e = (case setFields fs ms e of Inl x \<Rightarrow> Inl x | Inr e' \<Rightarrow> setFields fs ns e')"
  by (induction ms arbitrary: e) (auto split: sum.splits)

subsection \<open>Frames\<close>

text \<open>Two worlds agree on the files outside the temporary ones the daemon makes.\<close>

definition isTmp :: "string \<Rightarrow> bool" where
  "isTmp p \<longleftrightarrow> HasPrefix p ''/tmp/zvmx-''"

definition sameFiles :: "'h world \<Rightarrow> 'h world \<Rightarrow> bool" where
  "sameFiles w w' \<longleftrightarrow> (\<forall>p. \<not> isTmp p \<longrightarrow> files w' p = files w p)"

lemma sameFiles_refl [simp, intro]: "sameFiles w w"
  by (simp add: sameFiles_def)

lemma sameFiles_trans [trans]: "sameFiles a b \<Longrightarrow> sameFiles b c \<Longrightarrow> sameFiles a c"
  by (simp add: sameFiles_def)

lemma files_os_exec [frame_simps]: "files (snd (os_exec env prog args w)) = files w"
  by (simp add: os_exec_def split: prod.splits)

text \<open>The argument lists of the programs run between two worlds, read off the trace.\<close>

definition ranSince :: "'h world \<Rightarrow> 'h world \<Rightarrow> string list list" where
  "ranSince w w' = map cArgs (drop (length (cmds w)) (cmds w'))"

lemma ranSince_self [simp]: "ranSince w w = []"
  by (simp add: ranSince_def)

lemma ranSince_step:
  "cmds w1 = cmds w @ [x] \<Longrightarrow> cmds w2 = cmds w1 @ ys \<Longrightarrow> ranSince w w2 = cArgs x # ranSince w1 w2"
  by (simp add: ranSince_def)

lemma cmds_os_exec: "cmds (snd (os_exec env p args w)) = cmds w @ [\<lparr>cProg = p, cArgs = args, cSeen = files w\<rparr>]"
  by (simp add: os_exec_def split: prod.split)

end
