(* ===== verification/Url.thy ===== *)
theory Url
  imports GoStrings
begin

section \<open>Parsing the origin of a request\<close>

text \<open>
  \<open>url.Parse\<close> of the Go release in \<open>go.mod\<close>, as far as the root handler uses it: the host of the parsed URL,
  or an error. Every check that can end in an error is here, those of the scheme, the user, the
  host, the port, the path and the fragment, because the handler refuses a request whose origin does not parse.
\<close>

definition ctlByte :: "char \<Rightarrow> bool" where
  "ctlByte c \<longleftrightarrow> of_char c < (32::nat) \<or> of_char c = (127::nat)"

definition unhexPair :: "char \<Rightarrow> char \<Rightarrow> nat" where
  "unhexPair a b = 16 * digitVal a + digitVal b"

text \<open>
  \<open>unescape\<close>: \<open>bare\<close> are the bytes that may stand as they are, \<open>escaped\<close> the ones that may be written in hex.
\<close>

fun unescape :: "(char \<Rightarrow> bool) \<Rightarrow> (nat \<Rightarrow> bool) \<Rightarrow> string \<Rightarrow> string option" where
  "unescape bare escaped [] = Some []"
| "unescape bare escaped (c # s) =
     (if c = CHR ''%'' then
        (case s of
           a # b # r \<Rightarrow>
             if isHexDigit a \<and> isHexDigit b \<and> escaped (unhexPair a b)
             then map_option ((#) (char_of (unhexPair a b))) (unescape bare escaped r)
             else None
         | _ \<Rightarrow> None)
      else if bare c then map_option ((#) c) (unescape bare escaped s)
      else None)"

definition unescapeAny :: "string \<Rightarrow> string option" where
  "unescapeAny = unescape (\<lambda>_. True) (\<lambda>_. True)"

text \<open>The bytes of a host that need no escape (\<open>shouldEscape\<close> for a host), and the rules for a host and a zone.\<close>

definition hostLiteral :: "char \<Rightarrow> bool" where
  "hostLiteral c \<longleftrightarrow> isAlnum c \<or> c \<in> set ''!$&()*+,;=:[]<>-_.~'' \<or> c = apos \<or> c = dquote"

definition hostBare :: "char \<Rightarrow> bool" where
  "hostBare c \<longleftrightarrow> of_char c \<ge> (128::nat) \<or> hostLiteral c"

definition unescapeHost :: "string \<Rightarrow> string option" where
  "unescapeHost = unescape hostBare (\<lambda>v. v \<ge> 128 \<or> v = 37)"

definition unescapeZone :: "string \<Rightarrow> string option" where
  "unescapeZone = unescape hostBare (\<lambda>v. v = 37 \<or> v = 32 \<or> hostLiteral (char_of v))"

definition validOptionalPort :: "string \<Rightarrow> bool" where
  "validOptionalPort port =
     (case port of [] \<Rightarrow> True | c # ds \<Rightarrow> c = CHR '':'' \<and> list_all isDigit ds)"

definition parseHost :: "string \<Rightarrow> string option" where
  "parseHost host =
     (if HasPrefix host ''['' then
        (case CutLast host '']'' of
           None \<Rightarrow> None
         | Some (inner, colonPort) \<Rightarrow>
             if \<not> validOptionalPort colonPort then None
             else
               (case Cut inner ''%25'' of
                  None \<Rightarrow> unescapeHost host
                | Some (before, zone) \<Rightarrow>
                    (case (unescapeHost before, unescapeZone (''%25'' @ zone), unescapeHost ('']'' @ colonPort)) of
                       (Some x, Some y, Some z) \<Rightarrow> Some (x @ y @ z)
                     | _ \<Rightarrow> None)))
      else
        (case CutLast host '':'' of
           None \<Rightarrow> unescapeHost host
         | Some (_, port) \<Rightarrow> if list_all isDigit port then unescapeHost host else None))"

definition validUserinfo :: "string \<Rightarrow> bool" where
  "validUserinfo s \<longleftrightarrow> list_all (\<lambda>c. isAlnum c \<or> c \<in> set ''-._:~!$&()*+,;=%@'' \<or> c = apos) s"

definition userOK :: "string \<Rightarrow> bool" where
  "userOK u \<longleftrightarrow>
     validUserinfo u \<and>
     (case Cut u '':'' of
        None \<Rightarrow> unescapeAny u \<noteq> None
      | Some (name, pass) \<Rightarrow> unescapeAny name \<noteq> None \<and> unescapeAny pass \<noteq> None)"

definition parseAuthority :: "string \<Rightarrow> string option" where
  "parseAuthority auth =
     (case CutLast auth ''@'' of
        None \<Rightarrow> parseHost auth
      | Some (user, host) \<Rightarrow> if userOK user then parseHost host else None)"

text \<open>\<open>getScheme\<close>: the scheme (empty if there is none) and the rest; a colon at the start is an error.\<close>

fun schemeEnd :: "string \<Rightarrow> string \<Rightarrow> (string \<times> string) option" where
  "schemeEnd acc [] = None"
| "schemeEnd acc (c # s) =
     (if isAlnum c \<and> \<not> isDigit c then schemeEnd (acc @ [c]) s
      else if isDigit c \<or> c \<in> set ''+-.'' then (if acc = [] then None else schemeEnd (acc @ [c]) s)
      else if c = CHR '':'' then Some (acc, s)
      else None)"

definition getScheme :: "string \<Rightarrow> (string \<times> string) option" where
  "getScheme raw =
     (if HasPrefix raw '':'' then None
      else (case schemeEnd [] raw of None \<Rightarrow> Some ([], raw) | Some r \<Rightarrow> Some r))"

text \<open>The text before the first separator, and after it (empty if there is none).\<close>

definition cutAt :: "string \<Rightarrow> string \<Rightarrow> string \<times> string" where
  "cutAt s sep = (case Cut s sep of None \<Rightarrow> (s, []) | Some r \<Rightarrow> r)"

definition parseURL :: "string \<Rightarrow> string option" where
  "parseURL raw =
     (if list_ex ctlByte raw then None
      else if raw = ''*'' then Some []
      else
        (case getScheme raw of
           None \<Rightarrow> None
         | Some (scheme, rest) \<Rightarrow>
             (let rest = fst (cutAt rest ''?'') in
              if \<not> HasPrefix rest ''/'' \<and> scheme \<noteq> [] then Some []
              else if \<not> HasPrefix rest ''/'' \<and> Contains (fst (cutAt rest ''/'')) '':'' then None
              else if (scheme \<noteq> [] \<or> \<not> HasPrefix rest ''///'') \<and> HasPrefix rest ''//'' then
                (let auth = takeWhile (\<lambda>c. c \<noteq> CHR ''/'') (drop 2 rest);
                     path = dropWhile (\<lambda>c. c \<noteq> CHR ''/'') (drop 2 rest)
                 in if unescapeAny path = None then None else parseAuthority auth)
              else if unescapeAny rest = None then None
              else Some [])))"

text \<open>The host of an origin, or nothing if it does not parse.\<close>

definition url_Host :: "string \<Rightarrow> string option" where
  "url_Host raw =
     (case cutAt raw ''#'' of
        (u, frag) \<Rightarrow> if unescapeAny frag = None then None else parseURL u)"

subsection \<open>A host name with a port\<close>

definition nameHost :: "string \<Rightarrow> bool" where
  "nameHost h \<longleftrightarrow> list_all (\<lambda>c. isAlnum c \<or> c \<in> set ''-._'') h"

definition hostPort :: "string \<Rightarrow> bool" where
  "hostPort h \<longleftrightarrow> (\<exists>n port. h = n @ port \<and> nameHost n \<and> validOptionalPort port)"

lemma unescape_bare: "(\<And>c. c \<in> set s \<Longrightarrow> c \<noteq> CHR ''%'' \<and> bare c) \<Longrightarrow> unescape bare escaped s = Some s"
  by (induction s) auto

lemma cutAt_byte: "c \<notin> set s \<Longrightarrow> cutAt s [c] = (s, [])"
  using Cut_byte_None_iff [of s c] by (simp add: cutAt_def)

text \<open>The bytes of such a host: none of them has a meaning in a URL, except the colon of the port.\<close>

definition plainByte :: "char \<Rightarrow> bool" where
  "plainByte c \<longleftrightarrow> isAlnum c \<or> c \<in> set ''-._:''"

lemma plainByte_other:
  "plainByte c \<Longrightarrow> \<not> ctlByte c" "plainByte c \<Longrightarrow> hostBare c" "\<not> plainByte CHR ''%''" "\<not> plainByte CHR ''#''"
  "\<not> plainByte CHR ''?''" "\<not> plainByte CHR ''/''" "\<not> plainByte CHR ''@''" "\<not> plainByte CHR ''[''"
  by (auto simp: plainByte_def ctlByte_def hostBare_def hostLiteral_def isAlnum_def isDigit_def less_eq_char_def)

lemma hostPort_plain:
  assumes "hostPort h" "c \<in> set h"
  shows "plainByte c"
proof -
  obtain n port where h: "h = n @ port" "nameHost n" "validOptionalPort port"
    using assms(1) unfolding hostPort_def by blast
  then show ?thesis using assms(2)
    by (auto simp: nameHost_def validOptionalPort_def plainByte_def isAlnum_def list_all_iff split: list.splits)
qed

lemma CutLast_colon:
  assumes "hostPort h" "CutLast h '':'' = Some (a, p)"
  shows "list_all isDigit p"
proof -
  obtain n port where h: "h = n @ port" "nameHost n" "validOptionalPort port"
    using assms(1) unfolding hostPort_def by blast
  have n: "CHR '':'' \<notin> set n"
    using h(2) by (auto simp: nameHost_def list_all_iff isAlnum_def isDigit_def less_eq_char_def)
  have split: "h = a @ CHR '':'' # p" using CutLast_SomeD [OF assms(2)] by simp
  have d: "CHR '':'' \<notin> set ds" if "list_all isDigit ds" for ds
    using that by (auto simp: list_all_iff isDigit_def less_eq_char_def)
  show ?thesis
  proof (cases port)
    case Nil
    with h(1) n split show ?thesis by auto
  next
    case (Cons c ds)
    with h(3) have c: "c = CHR '':''" and ds: "list_all isDigit ds" by (simp_all add: validOptionalPort_def)
    have "a @ CHR '':'' # p = n @ CHR '':'' # ds" using h(1) split Cons c by simp
    then have "p = ds" using n d [OF ds] by (metis append_Cons_eq_iff)
    with ds show ?thesis by simp
  qed
qed

lemma parseHost_hostPort:
  assumes "hostPort h"
  shows "parseHost h = Some h"
proof -
  have "unescapeHost h = Some h"
    unfolding unescapeHost_def
    by (rule unescape_bare) (metis hostPort_plain [OF assms] plainByte_other(2,3))
  moreover have "\<not> HasPrefix h ''[''"
    using hostPort_plain [OF assms] plainByte_other(8) by (auto simp: prefix_def)
  ultimately show ?thesis
    using CutLast_colon [OF assms] by (auto simp: parseHost_def split: option.split)
qed

lemma parseAuthority_hostPort: "hostPort h \<Longrightarrow> parseAuthority h = Some h"
proof -
  assume h: "hostPort h"
  have "CHR ''@'' \<notin> set h" using hostPort_plain [OF h] plainByte_other(7) by blast
  then have "CutLast h ''@'' = None" by (simp add: CutLast_eq_None_iff Cut_byte_None_iff)
  then show ?thesis by (simp add: parseAuthority_def parseHost_hostPort [OF h])
qed

lemma getScheme_web: "getScheme (''http:'' @ r) = Some (''http'', r)" "getScheme (''https:'' @ r) = Some (''https'', r)"
  by (simp_all add: getScheme_def isAlnum_def isDigit_def less_eq_char_def)

lemma parseURL_web:
  assumes "hostPort h" "scheme \<noteq> []" "getScheme (scheme @ '':'' @ r) = Some (scheme, r)" "r = ''//'' @ h"
    "list_all (\<lambda>c. \<not> ctlByte c) scheme"
  shows "parseURL (scheme @ '':'' @ r) = Some h"
proof -
  have sep: "c \<notin> set h" if "\<not> plainByte c" for c using hostPort_plain [OF assms(1)] that by blast
  have "\<not> list_ex ctlByte (scheme @ '':'' @ r)"
    using assms(4,5) plainByte_other(1) hostPort_plain [OF assms(1)]
    by (auto simp: list_ex_iff list_all_iff ctlByte_def)
  moreover have "scheme @ '':'' @ r \<noteq> ''*''" using assms(2) by (cases scheme) auto
  moreover have "cutAt r ''?'' = (r, [])"
    by (rule cutAt_byte) (use assms(4) sep plainByte_other(5) in simp)
  moreover have "takeWhile (\<lambda>c. c \<noteq> CHR ''/'') h = h" "dropWhile (\<lambda>c. c \<noteq> CHR ''/'') h = []"
    using sep [OF plainByte_other(6)] by (auto simp: takeWhile_eq_all_conv dropWhile_eq_Nil_conv)
  ultimately show ?thesis
    using assms(2-4) by (simp add: parseURL_def Let_def parseAuthority_hostPort [OF assms(1)] unescapeAny_def
        del: takeWhile_eq_all_conv dropWhile_eq_Nil_conv)
qed

lemma url_Host_web:
  assumes "hostPort h"
  shows "url_Host (''http://'' @ h) = Some h" "url_Host (''https://'' @ h) = Some h"
proof -
  have c: "list_all (\<lambda>c. \<not> ctlByte c) ''http''" "list_all (\<lambda>c. \<not> ctlByte c) ''https''" by code_simp+
  have "CHR ''#'' \<notin> set h" using hostPort_plain [OF assms] plainByte_other(4) by blast
  then have "cutAt (''http://'' @ h) ''#'' = (''http://'' @ h, [])" "cutAt (''https://'' @ h) ''#'' = (''https://'' @ h, [])"
    by (simp_all add: cutAt_byte)
  then show "url_Host (''http://'' @ h) = Some h" "url_Host (''https://'' @ h) = Some h"
    using parseURL_web [OF assms, of "''http''" "''//'' @ h"] parseURL_web [OF assms, of "''https''" "''//'' @ h"]
      getScheme_web [of "''//'' @ h"] c
    by (simp_all add: url_Host_def unescapeAny_def)
qed

end
