(* ===== verification/Http.thy ===== *)
theory Http
  imports Host GoPath Url
begin

section \<open>HTTP requests, responses and handlers\<close>

text \<open>
  What the handlers use of \<open>net/http\<close>. The body of a request is the JSON value it holds or the error that
  reading it gives. A response is a status and a body; \<open>PText pre e\<close> in a body is the text
  \<open>pre\<close> followed by the text of the error \<open>e\<close>.

  A handler is written in a monad whose left results are the responses of early returns
  (\<open>writeErr\<close> followed by \<open>return\<close>), so that a definition has one step per statement of the code.
\<close>

datatype payload =
    PJ json
  | PText string error
  | PObj "(string \<times> payload) list"
  | PArr "payload list"

type_synonym response = "nat \<times> payload"

record request =
  rqMethod :: string
  rqPath :: string
  rqQuery :: "string \<Rightarrow> string"
  rqBody :: "json res"
  rqOrigin :: string
  rqHost :: string

definition writeErr :: "nat \<Rightarrow> string \<Rightarrow> response" where
  "writeErr code msg = (code, PObj [(''error'', PJ (JStr msg))])"

definition writeErrOf :: "nat \<Rightarrow> string \<Rightarrow> error \<Rightarrow> response" where
  "writeErrOf code pre e = (code, PObj [(''error'', PText pre e)])"

text \<open>The dashes of some messages, and \<open>strconv.Quote\<close> on printable ASCII text.\<close>

definition enDash :: string where
  "enDash = [CHR 0xE2, CHR 0x80, CHR 0x93]"

definition emDash :: string where
  "emDash = [CHR 0xE2, CHR 0x80, CHR 0x94]"

definition Quote :: "string \<Rightarrow> string" where
  "Quote s =
     [dquote] @ concat (map (\<lambda>c. if c = dquote \<or> c = CHR 0x5C then [CHR 0x5C, c] else [c]) s) @ [dquote]"

definition okFlag :: "string \<Rightarrow> response" where
  "okFlag k = (200, PObj [(k, PJ (JBool True))])"

definition dataOf :: "payload list \<Rightarrow> response" where
  "dataOf xs = (200, PObj [(''data'', PArr xs)])"

definition methodNotAllowed :: response where
  "methodNotAllowed = writeErr 405 ''method not allowed''"

abbreviation jstr :: "string \<Rightarrow> payload" where "jstr s \<equiv> PJ (JStr s)"
abbreviation jbool :: "bool \<Rightarrow> payload" where "jbool b \<equiv> PJ (JBool b)"
abbreviation jint :: "int \<Rightarrow> payload" where "jint i \<equiv> PJ (JInt i)"

subsection \<open>The monad of the handlers\<close>

type_synonym ('a, 's) hact = "'s \<Rightarrow> (response + 'a) \<times> 's"

definition retH :: "'a \<Rightarrow> ('a, 's) hact" where
  "retH a s = (Inr a, s)"

definition bindH :: "('a, 's) hact \<Rightarrow> ('a \<Rightarrow> ('b, 's) hact) \<Rightarrow> ('b, 's) hact" where
  "bindH m k s = (case m s of (Inl r, s') \<Rightarrow> (Inl r, s') | (Inr a, s') \<Rightarrow> k a s')"

definition respond :: "response \<Rightarrow> ('a, 's) hact" where
  "respond r s = (Inl r, s)"

text \<open>\<open>if b { respond; return }\<close>\<close>

definition rejectIf :: "bool \<Rightarrow> response \<Rightarrow> (unit, 's) hact" where
  "rejectIf b r = (if b then respond r else retH ())"

definition getsH :: "('s \<Rightarrow> 'a) \<Rightarrow> ('a, 's) hact" where
  "getsH f s = (Inr (f s), s)"

text \<open>\<open>if err != nil { writeErr(w, code, pre + err.Error()); return }\<close>\<close>

definition orFail :: "nat \<Rightarrow> string \<Rightarrow> 'a res \<Rightarrow> ('a, 's) hact" where
  "orFail code pre r = (case r of Inl e \<Rightarrow> respond (writeErrOf code pre e) | Inr a \<Rightarrow> retH a)"

definition runH :: "(response, 's) hact \<Rightarrow> 's \<Rightarrow> response \<times> 's" where
  "runH h s = (case h s of (Inl r, s') \<Rightarrow> (r, s') | (Inr r, s') \<Rightarrow> (r, s'))"

text \<open>A loop whose body cannot return from the handler.\<close>

fun forH :: "('a \<Rightarrow> ('b, 's) hact) \<Rightarrow> 'a list \<Rightarrow> ('b list, 's) hact" where
  "forH f [] = retH []"
| "forH f (x # xs) = bindH (f x) (\<lambda>y. bindH (forH f xs) (\<lambda>ys. retH (y # ys)))"

lemma bindH_simps [simp]:
  "bindH (retH a) k = k a" "bindH (respond r) k = respond r"
  "bindH (rejectIf True r) ku = respond r" "bindH (rejectIf False r) ku = ku ()"
  "bindH (getsH f) kg s = kg (f s) s"
  "bindH (orFail c p (Inr b)) kb = kb b" "bindH (orFail c p (Inl e)) kb = respond (writeErrOf c p e)"
  by (auto simp: fun_eq_iff bindH_def retH_def respond_def rejectIf_def getsH_def orFail_def)

lemma runH_simps [simp]: "runH (retH r) s = (r, s)" "runH (respond r) s = (r, s)"
  by (simp_all add: runH_def retH_def respond_def)

text \<open>What every run of a handler keeps, between the states before and after.\<close>

definition keepsH :: "('s \<Rightarrow> 's \<Rightarrow> bool) \<Rightarrow> ('a, 's) hact \<Rightarrow> bool" where
  "keepsH R m \<longleftrightarrow> (\<forall>s. R s (snd (m s)))"

context frame
begin

lemma keepsH_ret: "keepsH R (retH a)"
  by (simp add: keepsH_def retH_def R_refl)

lemma keepsH_respond: "keepsH R (respond r)"
  by (simp add: keepsH_def respond_def R_refl)

lemma keepsH_rejectIf: "keepsH R (rejectIf b r)"
  by (simp add: rejectIf_def keepsH_ret keepsH_respond)

lemma keepsH_gets: "keepsH R (getsH f)"
  by (simp add: keepsH_def getsH_def R_refl)

lemma keepsH_orFail: "keepsH R (orFail c p r)"
  by (cases r) (simp_all add: orFail_def keepsH_ret keepsH_respond)

lemma keepsH_if: "(b \<Longrightarrow> keepsH R m) \<Longrightarrow> (\<not> b \<Longrightarrow> keepsH R n) \<Longrightarrow> keepsH R (if b then m else n)"
  by simp

lemma keepsH_bind: "keepsH R m \<Longrightarrow> (\<And>a. keepsH R (k a)) \<Longrightarrow> keepsH R (bindH m k)"
  unfolding keepsH_def bindH_def
  by (auto split: prod.splits sum.splits) (metis R_trans snd_conv)+

text \<open>After a guard the rest of the handler runs only if the guard let it.\<close>

lemma keepsH_guard: "(\<not> b \<Longrightarrow> keepsH R (k ())) \<Longrightarrow> keepsH R (bindH (rejectIf b r) k)"
  by (cases b) (simp_all add: keepsH_respond)

lemma keepsH_forH: "(\<And>x. x \<in> set xs \<Longrightarrow> keepsH R (f x)) \<Longrightarrow> keepsH R (forH f xs)"
  by (induction xs) (auto intro!: keepsH_bind keepsH_ret)

lemma keepsH_run: "keepsH R h \<Longrightarrow> R s (snd (runH h s))"
  unfolding keepsH_def runH_def by (metis (no_types, lifting) case_prod_beta old.sum.exhaust
      prod.collapse snd_conv sum.case)

lemmas keepsH_intros = keepsH_guard keepsH_bind keepsH_ret keepsH_respond keepsH_rejectIf keepsH_gets keepsH_orFail

end

subsection \<open>Decoding a body\<close>

definition decodeBody :: "'e field list \<Rightarrow> 'e \<Rightarrow> request \<Rightarrow> 'e res" where
  "decodeBody fs zero rq = (case rqBody rq of Inl e \<Rightarrow> Inl e | Inr j \<Rightarrow> decodeStruct fs zero j)"

text \<open>
  What the target holds when the error of the decoder is ignored: the members that have the
  right type.
\<close>

definition decodeBest :: "'e field list \<Rightarrow> 'e \<Rightarrow> request \<Rightarrow> 'e" where
  "decodeBest fs zero rq =
     (case rqBody rq of
        Inr (JObj ms) \<Rightarrow>
          fold (\<lambda>(k, j) e. case setField fs k j e of Inl _ \<Rightarrow> e | Inr e' \<Rightarrow> e') ms zero
      | _ \<Rightarrow> zero)"

subsection \<open>Paths\<close>

text \<open>\<open>strings.Split(strings.TrimSuffix(tail, "/"), "/")\<close>\<close>

definition pathParts :: "string \<Rightarrow> string list" where
  "pathParts tail = Split (TrimSuffix tail ''/'') (CHR ''/'')"

text \<open>The path \<open>ServeMux\<close> redirects to: cleaned, with a trailing slash kept.\<close>

definition cleanPath :: "string \<Rightarrow> string" where
  "cleanPath p =
     (if p = [] then ''/''
      else
        (let q = (if HasPrefix p ''/'' then p else ''/'' @ p); np = Clean q
         in if HasSuffix q ''/'' \<and> np \<noteq> ''/'' then np @ ''/'' else np))"

end
