(* ===== verification/Stores.thy ===== *)
theory Stores
  imports Host
begin

section \<open>The JSON-file stores\<close>

text \<open>
  The stores of the packages \<open>usb\<close>, \<open>pci\<close>, \<open>vnc\<close>, \<open>tpm\<close>, \<open>autostart\<close>, \<open>schedule\<close> and \<open>mounts\<close>
  have the same \<open>load\<close> and \<open>saveLocked\<close>: a map from string keys to entries, held in memory and
  written as a JSON array to a temporary file that is then renamed over the store's file. The
  functions here are that shared code, with what differs as arguments: the key of an entry, its JSON
  form and the decoder. Each package's own definitions instantiate them. A mutating method changes
  the map first and saves then, and returns the store also when saving fails.

  The locale \<open>json_store\<close> is the interface of an entry type: its decoder reads back what its encoder
  wrote. Its lemmas hold for every store of the program, each of which interprets it.
\<close>

record 'e store =
  Path :: string
  sdata :: "'e gmap"

definition unmarshal :: "(json \<Rightarrow> 'a res) \<Rightarrow> content \<Rightarrow> 'a res" where
  "unmarshal dec c = (case c of Text _ \<Rightarrow> Inl (JsonError ''syntax'') | Doc j \<Rightarrow> dec j)"

definition storeLoad ::
  "(json \<Rightarrow> 'e res) \<Rightarrow> ('e \<Rightarrow> string) \<Rightarrow> string \<Rightarrow> 'h env \<Rightarrow> 'h world \<Rightarrow> 'e store \<Rightarrow> 'e store res" where
  "storeLoad dec key errmsg env w s =
     (case os_ReadFile env (Path s) w of
        Inl (OSNotExist _) \<Rightarrow> Inr s
      | Inl e \<Rightarrow> Inl e
      | Inr b \<Rightarrow>
          if b = Text [] then Inr s
          else (case unmarshal (decodeArray dec) b of
                  Inl e \<Rightarrow> Inl (Wrapf errmsg [] e)
                | Inr arr \<Rightarrow> Inr (s\<lparr>sdata := gput_all key arr (sdata s)\<rparr>)))"

definition storeOpen ::
  "(json \<Rightarrow> 'e res) \<Rightarrow> ('e \<Rightarrow> string) \<Rightarrow> string \<Rightarrow> 'h env \<Rightarrow> 'h world \<Rightarrow> string \<Rightarrow> 'e store res" where
  "storeOpen dec key errmsg env w path = storeLoad dec key errmsg env w \<lparr>Path = path, sdata = []\<rparr>"

definition tmpPath :: "string \<Rightarrow> string" where
  "tmpPath p = p @ ''.tmp''"

text \<open>
  How a document is published: the file system calls, in their order, each of which ends the
  saving when it fails.
\<close>

datatype pubStep = MkdirStep string | WriteStep string json | RenameStep string string

definition publishSteps :: "string \<Rightarrow> json \<Rightarrow> pubStep list" where
  "publishSteps p j = [MkdirStep (Dir p), WriteStep (tmpPath p) j, RenameStep (tmpPath p) p]"

fun doStep :: "'h env \<Rightarrow> pubStep \<Rightarrow> (unit, 'h world) act" where
  "doStep env (MkdirStep d) w = (os_MkdirAll env d w, w)"
| "doStep env (WriteStep q j) w = os_WriteFile env q (Doc j) w"
| "doStep env (RenameStep q p) w = os_Rename env q p w"

fun runSteps :: "'h env \<Rightarrow> pubStep list \<Rightarrow> (unit, 'h world) act" where
  "runSteps env [] w = (Inr (), w)"
| "runSteps env (x # xs) w =
     (case doStep env x w of (Inl e, w) \<Rightarrow> (Inl e, w) | (Inr _, w) \<Rightarrow> runSteps env xs w)"

definition publish :: "'h env \<Rightarrow> string \<Rightarrow> json \<Rightarrow> (unit, 'h world) act" where
  "publish env p j w = runSteps env (publishSteps p j) w"

text \<open>
  The file systems that a crash can leave while the steps run: between any two calls, and in the middle of a write,
  when the file that is written holds \<open>torn\<close>, any bytes at all, or is missing.
\<close>

fun midStep :: "content option \<Rightarrow> pubStep \<Rightarrow> 'h world \<Rightarrow> 'h world list" where
  "midStep torn (WriteStep q j) w = [w\<lparr>files := (files w)(q := torn)\<rparr>]"
| "midStep torn _ w = []"

fun crashPoints :: "'h env \<Rightarrow> content option \<Rightarrow> pubStep list \<Rightarrow> 'h world \<Rightarrow> 'h world list" where
  "crashPoints env torn [] w = [w]"
| "crashPoints env torn (x # xs) w =
     w # midStep torn x w @
     (case doStep env x w of (Inl _, w) \<Rightarrow> [w] | (Inr _, w) \<Rightarrow> crashPoints env torn xs w)"

definition publishTrace :: "'h env \<Rightarrow> content option \<Rightarrow> string \<Rightarrow> json \<Rightarrow> 'h world \<Rightarrow> 'h world list" where
  "publishTrace env torn p j w = crashPoints env torn (publishSteps p j) w"

type_synonym 'e order = "(string \<times> 'e) list \<Rightarrow> (string \<times> 'e) list"

definition storeSave :: "('e \<Rightarrow> json) \<Rightarrow> 'e order \<Rightarrow> 'h env \<Rightarrow> 'e store \<Rightarrow> (unit, 'h world) act" where
  "storeSave enc ord env s w = publish env (Path s) (JArr (map (enc \<circ> snd) (ord (sdata s)))) w"

definition storeAll :: "'e order \<Rightarrow> 'e store \<Rightarrow> 'e list" where
  "storeAll ord s = map snd (ord (sdata s))"

definition storePut ::
  "('e \<Rightarrow> json) \<Rightarrow> ('e \<Rightarrow> string) \<Rightarrow> 'e order \<Rightarrow> 'h env \<Rightarrow> 'e \<Rightarrow> 'e store \<Rightarrow> 'h world
    \<Rightarrow> unit res \<times> 'e store \<times> 'h world" where
  "storePut enc key ord env e s w =
     (let s = s\<lparr>sdata := gput (key e) e (sdata s)\<rparr>
      in case storeSave enc ord env s w of (r, w) \<Rightarrow> (r, s, w))"

definition storeDel ::
  "('e \<Rightarrow> json) \<Rightarrow> 'e order \<Rightarrow> 'h env \<Rightarrow> string \<Rightarrow> 'e store \<Rightarrow> 'h world
    \<Rightarrow> unit res \<times> 'e store \<times> 'h world" where
  "storeDel enc ord env k s w =
     (let s = s\<lparr>sdata := gdel k (sdata s)\<rparr>
      in case storeSave enc ord env s w of (r, w) \<Rightarrow> (r, s, w))"

subsection \<open>Publishing is atomic\<close>

lemma tmpPath_neq [simp]: "tmpPath p \<noteq> p" "p \<noteq> tmpPath p"
  by (simp_all add: tmpPath_def)

lemma publish_eq:
  "publish env p j w =
     (case os_MkdirAll env (Dir p) w of
        Inl e \<Rightarrow> (Inl e, w)
      | Inr _ \<Rightarrow>
          (case os_WriteFile env (tmpPath p) (Doc j) w of
             (Inl e, w) \<Rightarrow> (Inl e, w)
           | (Inr _, w) \<Rightarrow> os_Rename env (tmpPath p) p w))"
  by (auto simp: publish_def publishSteps_def split: sum.split prod.split)

text \<open>What saving leaves when it is not interrupted is the last of these file systems.\<close>

lemma crashPoints_last: "last (crashPoints env torn xs w) = snd (runSteps env xs w)"
proof (induction xs arbitrary: w)
  case (Cons x xs)
  have "crashPoints env torn xs v \<noteq> []" for v by (cases xs) simp_all
  with Cons show ?case by (simp split: prod.split sum.split)
qed simp

lemma publish_Inr:
  assumes "publish env p j w = (Inr (), w')"
  shows "files w' p = Some (Doc j)" "hyp w' = hyp w" "cmds w' = cmds w"
  using assms
  by (auto simp: publish_eq os_MkdirAll_def os_WriteFile_def os_Rename_def
      split: if_splits option.splits sum.splits)

lemma publish_Inl:
  assumes "publish env p j w = (Inl e, w')"
  shows "files w' p = files w p"
  using assms
  by (auto simp: publish_eq os_MkdirAll_def os_WriteFile_def os_Rename_def
      split: if_splits option.splits sum.splits)

lemma publish_frame [frame_simps]:
  "hyp (snd (publish env p j w)) = hyp w" "cmds (snd (publish env p j w)) = cmds w"
  "q \<noteq> p \<Longrightarrow> q \<noteq> tmpPath p \<Longrightarrow> files (snd (publish env p j w)) q = files w q"
  by (auto simp: publish_eq os_MkdirAll_def os_WriteFile_def os_Rename_def
      split: if_splits option.splits sum.splits)

lemma publish_file:
  "files (snd (publish env p j w)) p = (if is_ok (fst (publish env p j w)) then Some (Doc j) else files w p)"
  by (cases "publish env p j w"; cases "fst (publish env p j w)")
    (auto dest: publish_Inr publish_Inl)

lemma publishTrace_file:
  "v \<in> set (publishTrace env torn p j w) \<Longrightarrow> files v p = files w p \<or> files v p = Some (Doc j)"
  by (auto simp: publishTrace_def publishSteps_def os_MkdirAll_def os_WriteFile_def os_Rename_def
      split: if_splits sum.splits prod.splits option.splits)

lemma publishTrace_done: "snd (publish env p j w) \<in> set (publishTrace env torn p j w)"
proof -
  have "crashPoints env torn (publishSteps p j) w \<noteq> []" by (simp add: publishSteps_def)
  then show ?thesis
    unfolding publish_def publishTrace_def crashPoints_last [of env torn "publishSteps p j" w, symmetric] by (rule last_in_set)
qed

lemma storePut_simps [store_simps]:
  "sdata (fst (snd (storePut enc key ord env e s w))) = gput (key e) e (sdata s)"
  "Path (fst (snd (storePut enc key ord env e s w))) = Path s"
  "hyp (snd (snd (storePut enc key ord env e s w))) = hyp w"
  "cmds (snd (snd (storePut enc key ord env e s w))) = cmds w"
  by (simp_all add: storePut_def storeSave_def Let_def frame_simps split: prod.splits)
    (metis publish_frame snd_conv)+

lemma storeDel_simps [store_simps]:
  "sdata (fst (snd (storeDel enc ord env k s w))) = gdel k (sdata s)"
  "Path (fst (snd (storeDel enc ord env k s w))) = Path s"
  "hyp (snd (snd (storeDel enc ord env k s w))) = hyp w"
  "cmds (snd (snd (storeDel enc ord env k s w))) = cmds w"
  by (simp_all add: storeDel_def storeSave_def Let_def frame_simps split: prod.splits)
    (metis publish_frame snd_conv)+

lemma set_storeAll: "is_order ord \<Longrightarrow> set (storeAll ord s) = snd ` set (sdata s)"
  by (simp add: storeAll_def)

subsection \<open>The interface of an entry type\<close>

text \<open>\<open>wf\<close> is what Go's types say of an entry: its integers are 64-bit ones.\<close>

locale json_store =
  fixes key :: "'e \<Rightarrow> string" and enc :: "'e \<Rightarrow> json" and dec :: "json \<Rightarrow> 'e res"
    and wf :: "'e \<Rightarrow> bool"
  assumes dec_enc: "wf e \<Longrightarrow> dec (enc e) = Inr e"
begin

definition wfStore :: "'e store \<Rightarrow> bool" where
  "wfStore s \<longleftrightarrow> keyed key (sdata s) \<and> (\<forall>(k, e) \<in> set (sdata s). wf e)"

lemma wfStore_put: "wfStore s \<Longrightarrow> wf e \<Longrightarrow> wfStore (s\<lparr>sdata := gput (key e) e (sdata s)\<rparr>)"
  using set_gput [of "key e" e "sdata s"] by (auto simp: wfStore_def)

lemma wfStore_del: "wfStore s \<Longrightarrow> wfStore (s\<lparr>sdata := gdel k (sdata s)\<rparr>)"
  using set_gdel [of k "sdata s"] by (auto simp: wfStore_def)

lemma open_after_save:
  assumes wfs: "wfStore s" and ord: "is_order ord"
    and saved: "storeSave enc ord env s w = (Inr (), w')"
    and readable: "\<not> osFault env OpRead (Path s) (files w')"
  shows "\<exists>s'. storeOpen dec key msg env w' (Path s) = Inr s' \<and> Path s' = Path s
    \<and> (\<forall>k. gget k (sdata s') = gget k (sdata s))"
proof -
  let ?es = "map snd (ord (sdata s))"
  have "files w' (Path s) = Some (Doc (JArr (map enc ?es)))"
    using publish_Inr(1) [OF saved [unfolded storeSave_def]] by (simp add: comp_def)
  moreover have "decodeAll dec (map enc ?es) = Inr ?es"
    using wfs ord by (intro decodeAll_map) (auto simp: wfStore_def dec_enc)
  ultimately have "storeOpen dec key msg env w' (Path s) =
      Inr \<lparr>Path = Path s, sdata = gput_all key ?es []\<rparr>"
    using readable by (simp add: storeOpen_def storeLoad_def os_ReadFile_def unmarshal_def decodeArray_def)
  with wfs ord show ?thesis
    by (simp add: wfStore_def gget_reload)
qed

text \<open>A mutating call that reports success is what the next start of the daemon sees.\<close>

lemma open_after_put:
  assumes "wfStore s" "wf e" "is_order ord"
    and put: "storePut enc key ord env e s w = (Inr (), s1, w1)"
    and readable: "\<not> osFault env OpRead (Path s) (files w1)"
  shows "\<exists>s'. storeOpen dec key msg env w1 (Path s) = Inr s'
    \<and> (\<forall>k. gget k (sdata s') = (if k = key e then Some e else gget k (sdata s)))"
proof -
  let ?s = "s\<lparr>sdata := gput (key e) e (sdata s)\<rparr>"
  have "storeSave enc ord env ?s w = (Inr (), w1)"
    using put by (simp add: storePut_def Let_def split: prod.splits)
  from open_after_save [OF wfStore_put [OF assms(1,2)] assms(3) this, where msg = msg] readable
  show ?thesis by (auto split del: if_split)
qed

lemma open_after_del:
  assumes "wfStore s" "is_order ord"
    and del: "storeDel enc ord env k s w = (Inr (), s1, w1)"
    and readable: "\<not> osFault env OpRead (Path s) (files w1)"
  shows "\<exists>s'. storeOpen dec key msg env w1 (Path s) = Inr s'
    \<and> (\<forall>k'. gget k' (sdata s') = (if k' = k then None else gget k' (sdata s)))"
proof -
  let ?s = "s\<lparr>sdata := gdel k (sdata s)\<rparr>"
  have "storeSave enc ord env ?s w = (Inr (), w1)"
    using del by (simp add: storeDel_def Let_def split: prod.splits)
  from open_after_save [OF wfStore_del [OF assms(1)] assms(2) this, where msg = msg] readable
  show ?thesis by (auto split del: if_split)
qed

text \<open>A crash while a store is saved leaves a file that opens as the old or as the new store.\<close>

lemma open_after_crash:
  assumes wfs: "wfStore s" and ord: "is_order ord"
    and readable: "\<And>fs. \<not> osFault env OpRead (Path s) fs"
    and v: "v \<in> set (publishTrace env torn (Path s) (JArr (map (enc \<circ> snd) (ord (sdata s)))) w)"
  shows "storeOpen dec key msg env v (Path s) = storeOpen dec key msg env w (Path s)
    \<or> (\<exists>s'. storeOpen dec key msg env v (Path s) = Inr s' \<and> (\<forall>k. gget k (sdata s') = gget k (sdata s)))"
proof -
  let ?es = "map snd (ord (sdata s))"
  let ?j = "JArr (map (enc \<circ> snd) (ord (sdata s)))"
  have dec: "decodeAll dec (map enc ?es) = Inr ?es"
    using wfs ord by (intro decodeAll_map) (auto simp: wfStore_def dec_enc)
  consider (old) "files v (Path s) = files w (Path s)" | (new) "files v (Path s) = Some (Doc ?j)"
    using publishTrace_file [OF v] by blast
  then show ?thesis
  proof cases
    case old
    then have "os_ReadFile env (Path s) v = os_ReadFile env (Path s) w"
      by (simp add: os_ReadFile_def readable split: option.splits)
    then show ?thesis by (simp add: storeOpen_def storeLoad_def)
  next
    case new
    with dec have "storeOpen dec key msg env v (Path s) = Inr \<lparr>Path = Path s, sdata = gput_all key ?es []\<rparr>"
      using readable
      by (simp add: storeOpen_def storeLoad_def os_ReadFile_def unmarshal_def decodeArray_def)
    with wfs ord show ?thesis by (simp add: wfStore_def gget_reload)
  qed
qed

end

end
