(* ===== verification/Validate.thy ===== *)
theory Validate
  imports GoPath
begin

section \<open>Input validation\<close>

text \<open>
  The predicates that guard what a request may pass on to \<open>virsh\<close>, to \<open>mount\<close> and to the file
  system: VM, snapshot and network names, USB and PCI addresses, MAC addresses, console passwords,
  target directories (\<open>internal/handlers/handlers.go\<close>, \<open>internal/vnc/vnc.go\<close>,
  \<open>internal/pci/pci.go\<close>, \<open>internal/usb/usb.go\<close>, \<open>internal/virsh/virsh.go\<close>), with what an accepted
  input is known to satisfy. The loops over runes are loops over bytes: every byte of a character
  beyond ASCII fails the same test as the rune does.
\<close>

definition validNameChar :: "char \<Rightarrow> bool" where
  "validNameChar r \<longleftrightarrow> isAlnum r \<or> r = CHR ''_'' \<or> r = CHR ''.'' \<or> r = CHR ''-'' \<or> r = CHR ''+''"

definition validName :: "string \<Rightarrow> bool" where
  "validName s =
     (if s = [] \<or> hd s = CHR ''-'' then False
      else if s = ''.'' \<or> s = ''..'' then False
      else list_all validNameChar s)"

definition validSnapshotName :: "string \<Rightarrow> bool" where
  "validSnapshotName s =
     (if s = [] \<or> hd s = CHR ''-'' then False
      else if s \<noteq> TrimSpace s then False
      else if Contains s ''  '' then False
      else if s = ''.'' \<or> s = ''..'' \<or> Contains s ''..'' then False
      else list_all (\<lambda>r. validNameChar r \<or> r = CHR '' '') s)"

definition validHexID :: "string \<Rightarrow> bool" where
  "validHexID s = (if length s \<noteq> 4 then False else list_all isHexDigit s)"

definition forbiddenDirs :: "string list" where
  "forbiddenDirs = [''/'', ''/proc'', ''/sys'', ''/dev'', ''/run'', ''/var'', ''/usr'', ''/etc'', ''/boot'', ''/tmp'']"

definition atOrBelow :: "string \<Rightarrow> string \<Rightarrow> bool" where
  "atOrBelow clean f \<longleftrightarrow> clean = f \<or> HasPrefix clean (f @ ''/'')"

definition forbiddenSnapshotDir :: "string \<Rightarrow> bool" where
  "forbiddenSnapshotDir p = list_ex (atOrBelow (Clean p)) forbiddenDirs"

definition validMAC :: "string \<Rightarrow> bool" where
  "validMAC s =
     (if length s \<noteq> 17 then False
      else list_all (\<lambda>(i, r). if (i + 1) mod 3 = 0 then r = CHR '':'' else isHexDigit r)
             (enumerate 0 s))"

definition validNICModel :: "string \<Rightarrow> bool" where
  "validNICModel m \<longleftrightarrow> m \<in> {''virtio'', ''e1000'', ''e1000e'', ''rtl8139''}"

definition domStateName :: "string \<Rightarrow> string" where
  "domStateName code =
     (if code = ''1'' then ''running''
      else if code = ''3'' then ''paused''
      else if code = ''4'' then ''shutdown''
      else if code = ''5'' then ''shut off''
      else if code = ''6'' then ''crashed''
      else if code = ''7'' then ''suspended''
      else ''unknown'')"

definition atou :: "string \<Rightarrow> nat" where
  "atou s = ParseUint (TrimSpace s) 10"

definition ValidPassword :: "string \<Rightarrow> bool" where
  "ValidPassword pw =
     (if length pw < 1 \<or> 8 < length pw then False
      else list_all (\<lambda>r. \<not> (r < CHR '' '' \<or> CHR 0x7E < r) \<and>
                         r \<notin> {apos, dquote, CHR ''<'', CHR ''>'', CHR ''&''}) pw)"

definition isHex :: "string \<Rightarrow> bool" where
  "isHex s \<longleftrightarrow> list_all isHexDigit s \<and> s \<noteq> []"

definition ValidAddress :: "string \<Rightarrow> bool" where
  "ValidAddress s =
     (case Cut s '':'' of
        None \<Rightarrow> False
      | Some (dm, rest) \<Rightarrow>
          if length dm \<noteq> 4 \<or> \<not> isHex dm then False
          else (case Cut rest '':'' of
                  None \<Rightarrow> False
                | Some (bus, sf) \<Rightarrow>
                    if length bus \<noteq> 2 \<or> \<not> isHex bus then False
                    else (case Cut sf ''.'' of
                            None \<Rightarrow> False
                          | Some (slot, fn) \<Rightarrow>
                              if length slot \<noteq> 2 \<or> \<not> isHex slot then False
                              else length fn = 1 \<and> CHR ''0'' \<le> hd fn \<and> hd fn \<le> CHR ''7'')))"

definition blockedVendors :: "string list" where
  "blockedVendors = [''1d6b'']"

definition IsRootHub :: "string \<Rightarrow> bool" where
  "IsRootHub vendorID \<longleftrightarrow> ToLower vendorID \<in> set blockedVendors"

definition isPassable :: "string \<Rightarrow> bool" where
  "isPassable class = (if class = [] then False else \<not> HasPrefix (ToLower class) ''06'')"

definition stemChar :: "char \<Rightarrow> bool" where
  "stemChar r \<longleftrightarrow> isAlnum r \<or> r = CHR ''.'' \<or> r = CHR ''-'' \<or> r = CHR ''_''"

fun fileStemLoop :: "bool \<Rightarrow> string \<Rightarrow> string" where
  "fileStemLoop lastUnderscore [] = []"
| "fileStemLoop lastUnderscore (r # rs) =
     (if stemChar r then r # fileStemLoop False rs
      else if lastUnderscore then fileStemLoop True rs
      else CHR ''_'' # fileStemLoop True rs)"

definition fileStem :: "string \<Rightarrow> string" where
  "fileStem name =
     (let s = Trim (fileStemLoop False name) ''_.'' in if s = [] then ''snap'' else s)"

subsection \<open>What an accepted input satisfies\<close>

lemma not_validNameChar [simp]:
  "\<not> validNameChar (CHR ''/'')" "\<not> validNameChar (CHR '' '')" "\<not> validNameChar nl"
  "\<not> validNameChar (CHR 0x09)" "\<not> validNameChar (CHR '':'')" "\<not> validNameChar apos"
  by (simp_all add: validNameChar_def isAlnum_def isDigit_def less_eq_char_def)

lemma validName_shape [valid_dests]:
  assumes "validName s"
  shows "s \<noteq> []" "hd s \<noteq> CHR ''-''" "s \<noteq> ''.''" "s \<noteq> ''..''" "list_all validNameChar s"
  using assms by (auto simp: validName_def split: if_splits)

lemma validName_notin [valid_dests]:
  assumes "validName s" "\<not> validNameChar c"
  shows "c \<notin> set s"
  using validName_shape(5) [OF assms(1)] assms(2) by (auto simp: list_all_iff)

lemma ValidPassword_shape [valid_dests]:
  assumes "ValidPassword pw"
  shows "pw \<noteq> []" "length pw \<le> 8" "apos \<notin> set pw" "dquote \<notin> set pw"
    "CHR ''<'' \<notin> set pw" "CHR ''>'' \<notin> set pw" "CHR ''&'' \<notin> set pw"
  using assms by (auto simp: ValidPassword_def list_all_iff split: if_splits)

lemma Split_plain: "c \<notin> set s \<Longrightarrow> Split s c = [s]"
  unfolding Split_def by (rule splitOn_single) auto

lemma Split_at: "Split (a @ c # b) c = Split a c @ Split b c"
  unfolding Split_def by (rule splitOn_append) simp

text \<open>A valid name is exactly one element of any path it is appended to.\<close>

lemma pathElems_append_valid:
  assumes "validName vm"
  shows "pathElems (p @ CHR ''/'' # vm) = pathElems p @ [vm]"
  using validName_shape [OF assms] validName_notin [OF assms, of "CHR ''/''"]
  by (simp add: pathElems_def Split_at Split_plain)

lemma ValidAddress_iff:
  "ValidAddress s \<longleftrightarrow>
    (\<exists>dm bus slot fn. s = dm @ CHR '':'' # bus @ CHR '':'' # slot @ CHR ''.'' # fn
      \<and> length dm = 4 \<and> isHex dm \<and> length bus = 2 \<and> isHex bus \<and> length slot = 2 \<and> isHex slot
      \<and> length fn = 1 \<and> CHR ''0'' \<le> hd fn \<and> hd fn \<le> CHR ''7'')" (is "_ \<longleftrightarrow> ?r")
proof
  assume "ValidAddress s"
  then show ?r
    by (auto simp: ValidAddress_def Cut_byte_Some_iff split: option.splits if_splits) blast
next
  have hex: "\<not> isHexDigit (CHR '':'')" "\<not> isHexDigit (CHR ''.'')"
    by (simp_all add: isHexDigit_def isLowerHex_def isDigit_def less_eq_char_def)
  assume ?r
  then obtain dm bus slot fn where
    s: "s = dm @ CHR '':'' # bus @ CHR '':'' # slot @ CHR ''.'' # fn"
    and ok: "length dm = 4" "isHex dm" "length bus = 2" "isHex bus" "length slot = 2" "isHex slot"
      "length fn = 1" "CHR ''0'' \<le> hd fn" "hd fn \<le> CHR ''7''"
    by blast
  have "CHR '':'' \<notin> set dm" "CHR '':'' \<notin> set bus" "CHR ''.'' \<notin> set slot"
    using ok hex by (auto simp: isHex_def list_all_iff)
  with s ok show "ValidAddress s"
    by (simp add: ValidAddress_def)
qed

subsection \<open>File stems\<close>

lemma dropWhile_last: "dropWhile f s \<noteq> [] \<Longrightarrow> \<not> f (hd (dropWhile f s))"
  by (rule hd_dropWhile)

lemma set_TrimFunc: "set (TrimFunc f s) \<subseteq> set s"
  unfolding TrimFunc_def TrimRightFunc_def TrimLeftFunc_def
  by (auto dest!: set_dropWhileD)

lemma TrimRightFunc_last: "TrimRightFunc f s \<noteq> [] \<Longrightarrow> \<not> f (last (TrimRightFunc f s))"
  unfolding TrimRightFunc_def by (simp add: last_rev dropWhile_last)

lemma TrimRightFunc_prefix: "\<exists>t. s = TrimRightFunc f s @ t \<and> list_all f t"
proof -
  have "s = rev (dropWhile f (rev s)) @ rev (takeWhile f (rev s))"
    by (metis rev_append rev_rev_ident takeWhile_dropWhile_id)
  moreover have "list_all f (rev (takeWhile f (rev s)))"
    by (auto simp: list_all_iff dest: set_takeWhileD)
  ultimately show ?thesis unfolding TrimRightFunc_def by blast
qed

lemma TrimFunc_hd: "TrimFunc f s \<noteq> [] \<Longrightarrow> \<not> f (hd (TrimFunc f s))"
proof -
  assume ne: "TrimFunc f s \<noteq> []"
  obtain t where "dropWhile f s = TrimFunc f s @ t"
    using TrimRightFunc_prefix [of "dropWhile f s" f] by (auto simp: TrimFunc_def TrimLeftFunc_def)
  with ne have "hd (TrimFunc f s) = hd (dropWhile f s)" "dropWhile f s \<noteq> []" by auto
  then show ?thesis using dropWhile_last [of f s] by simp
qed

lemma TrimFunc_last: "TrimFunc f s \<noteq> [] \<Longrightarrow> \<not> f (last (TrimFunc f s))"
  unfolding TrimFunc_def by (rule TrimRightFunc_last)

lemma stemChar_underscore [simp]: "stemChar (CHR ''_'')"
  by (simp add: stemChar_def)

lemma fileStemLoop_chars: "list_all stemChar (fileStemLoop b name)"
  by (induction b name rule: fileStemLoop.induct) auto

lemma fileStemLoop_id: "list_all stemChar s \<Longrightarrow> fileStemLoop b s = s"
  by (induction s arbitrary: b) auto

lemma dropWhile_hd_id: "s = [] \<or> \<not> f (hd s) \<Longrightarrow> dropWhile f s = s"
  by (cases s) auto

lemma TrimFunc_id: "s = [] \<or> (\<not> f (hd s) \<and> \<not> f (last s)) \<Longrightarrow> TrimFunc f s = s"
  by (auto simp: TrimFunc_def TrimRightFunc_def TrimLeftFunc_def dropWhile_hd_id hd_rev)

lemma fileStem_shape:
  "fileStem name \<noteq> []" "list_all stemChar (fileStem name)"
  "hd (fileStem name) \<notin> set ''_.''" "last (fileStem name) \<notin> set ''_.''"
proof -
  let ?s = "Trim (fileStemLoop False name) ''_.''"
  have "list_all stemChar ?s"
    using fileStemLoop_chars [of False name] set_TrimFunc [of _ "fileStemLoop False name"]
    by (auto simp: list_all_iff Trim_def)
  moreover have "list_all stemChar ''snap''"
    by (simp add: stemChar_def isAlnum_def less_eq_char_def)
  ultimately show "fileStem name \<noteq> []" "list_all stemChar (fileStem name)"
    by (simp_all add: fileStem_def Let_def)
  show "hd (fileStem name) \<notin> set ''_.''" "last (fileStem name) \<notin> set ''_.''"
    using TrimFunc_hd [of "\<lambda>c. c \<in> set ''_.''" "fileStemLoop False name"]
      TrimFunc_last [of "\<lambda>c. c \<in> set ''_.''" "fileStemLoop False name"]
    by (simp_all add: fileStem_def Let_def Trim_def)
qed

lemma fileStem_idem: "fileStem (fileStem name) = fileStem name"
  using fileStem_shape [of name]
  by (simp add: fileStem_def [of "fileStem name"] fileStemLoop_id Trim_def TrimFunc_id Let_def)

end
