(* ===== verification/VncXml.thy ===== *)
theory VncXml
  imports GoStrings
begin

section \<open>String surgery on the VNC console (internal/virsh/vnc.go)\<close>

text \<open>
  The functions of \<open>internal/virsh/vnc.go\<close> that read and edit the \<open>graphics\<close> element of a domain
  document. Where the code works with offsets into the document, the definitions work with the
  pieces the offsets delimit: \<open>vncOpenTag\<close> returns the text before the tag, the tag and the text
  after it, so that the document is their concatenation.
\<close>

definition graphicsHead :: string where
  "graphicsHead = ''<graphics''"

definition isVncTag :: "string \<Rightarrow> bool" where
  "isVncTag t \<longleftrightarrow>
     Contains t (''type='' @ sq ''vnc'') \<or> Contains t (''type='' @ [dquote] @ ''vnc'' @ [dquote])"

text \<open>The loop of \<open>vncOpenTag\<close>: \<open>pre\<close> is \<open>domXML[:off]\<close>, \<open>s\<close> is \<open>domXML[off:]\<close>.\<close>

function vncOpenTagFrom :: "string \<Rightarrow> string \<Rightarrow> (string \<times> string \<times> string) option" where
  "vncOpenTagFrom pre s =
     (case Cut s graphicsHead of
        None \<Rightarrow> None
      | Some (a, r) \<Rightarrow>
          (case Cut r ''>'' of
             None \<Rightarrow> None
           | Some (x, post) \<Rightarrow>
               (let t = graphicsHead @ x @ ''>''
                in if isVncTag t then Some (pre @ a, t, post)
                   else vncOpenTagFrom (pre @ a @ t) post)))"
  by pat_completeness auto
termination
  by (relation "measure (\<lambda>(pre, s). length s)") (auto simp: graphicsHead_def dest!: Cut_length)

declare vncOpenTagFrom.simps [simp del]

definition vncOpenTag :: "string \<Rightarrow> (string \<times> string \<times> string) option" where
  "vncOpenTag domXML = vncOpenTagFrom [] domXML"

text \<open>One round of the loop over the two quote characters in \<open>tagAttr\<close> and \<open>tagDropAttr\<close>.\<close>

definition tagAttrQ :: "char \<Rightarrow> string \<Rightarrow> string \<Rightarrow> string option" where
  "tagAttrQ q tag attr =
     (case Cut tag (attr @ ''='' @ [q]) of
        None \<Rightarrow> None
      | Some (_, rest) \<Rightarrow> map_option fst (Cut rest [q]))"

definition tagAttr :: "string \<Rightarrow> string \<Rightarrow> string" where
  "tagAttr tag attr =
     (case tagAttrQ apos tag attr of
        Some v \<Rightarrow> v
      | None \<Rightarrow> (case tagAttrQ dquote tag attr of Some v \<Rightarrow> v | None \<Rightarrow> []))"

definition tagDropAttrQ :: "char \<Rightarrow> string \<Rightarrow> string \<Rightarrow> string option" where
  "tagDropAttrQ q tag attr =
     (case Cut tag ('' '' @ attr @ ''='' @ [q]) of
        None \<Rightarrow> None
      | Some (a, rest) \<Rightarrow> map_option (\<lambda>(_, b). a @ b) (Cut rest [q]))"

definition tagDropAttr :: "string \<Rightarrow> string \<Rightarrow> string" where
  "tagDropAttr tag attr =
     (case tagDropAttrQ apos tag attr of
        Some t \<Rightarrow> t
      | None \<Rightarrow> (case tagDropAttrQ dquote tag attr of Some t \<Rightarrow> t | None \<Rightarrow> tag))"

definition vncListenChild :: "string \<Rightarrow> string \<Rightarrow> string" where
  "vncListenChild tag post =
     (if HasSuffix (TrimSpace tag) ''/>'' then []
      else (case Cut post ''</graphics>'' of
              None \<Rightarrow> []
            | Some (body, _) \<Rightarrow>
                (case Cut body ''<listen'' of
                   None \<Rightarrow> []
                 | Some (_, r) \<Rightarrow>
                     (case Cut r ''>'' of
                        None \<Rightarrow> []
                      | Some (x, _) \<Rightarrow> ''<listen'' @ x @ ''>''))))"

definition vncGraphicsInfo :: "string \<Rightarrow> bool \<times> bool \<times> string" where
  "vncGraphicsInfo domXML =
     (case vncOpenTag domXML of
        None \<Rightarrow> (False, False, [])
      | Some (_, tag, post) \<Rightarrow>
          (let listen = tagAttr tag ''listen'';
               child = vncListenChild tag post;
               listen' = (if child \<noteq> [] \<and> tagAttr child ''address'' \<noteq> []
                          then tagAttr child ''address'' else listen)
           in (True, tagAttr tag ''passwd'' \<noteq> [], listen')))"

definition vncGraphicsPort :: "string \<Rightarrow> int \<times> bool" where
  "vncGraphicsPort domXML =
     (case vncOpenTag domXML of
        None \<Rightarrow> (0, False)
      | Some (_, tag, _) \<Rightarrow>
          (let autoport = (tagAttr tag ''autoport'' \<noteq> ''no'')
           in case Atoi (tagAttr tag ''port'') of
                Some p \<Rightarrow> (if 0 < p then p else 0, autoport)
              | None \<Rightarrow> (0, autoport)))"

definition noVncError :: error where
  "noVncError = Errorf ''domain has no VNC graphics device'' []"

definition listenAttrs :: "string \<Rightarrow> int \<Rightarrow> string" where
  "listenAttrs listen port =
     '' listen='' @ sq listen @
     (if 0 < port then '' port='' @ sq (Itoa port) @ '' autoport='' @ sq ''no''
      else '' autoport='' @ sq ''yes'')"

definition listenElement :: "string \<Rightarrow> string" where
  "listenElement listen = ''<listen type='' @ sq ''address'' @ '' address='' @ sq listen @ ''/>''"

definition setGraphicsListenXML :: "string \<Rightarrow> string \<Rightarrow> int \<Rightarrow> string res" where
  "setGraphicsListenXML domXML listen port =
     (case vncOpenTag domXML of
        None \<Rightarrow> Inl noVncError
      | Some (pre, tag, post) \<Rightarrow>
          (let newTag = tagDropAttr (tagDropAttr (tagDropAttr tag ''listen'') ''port'') ''autoport'';
               newTag = graphicsHead @ listenAttrs listen port @ drop (length graphicsHead) newTag;
               out = pre @ newTag @ post
           in case vncOpenTag out of
                None \<Rightarrow> Inr out
              | Some (pre2, tag2, post2) \<Rightarrow>
                  (let child = vncListenChild tag2 post2
                   in if child = [] then Inr out
                      else (case Cut post2 child of
                              None \<Rightarrow> Inr out
                            | Some (a, b) \<Rightarrow>
                                Inr (pre2 @ tag2 @ a @ listenElement listen @ b)))))"

definition setGraphicsPasswordXML :: "string \<Rightarrow> string \<Rightarrow> string res" where
  "setGraphicsPasswordXML domXML pw =
     (case vncOpenTag domXML of
        None \<Rightarrow> Inl noVncError
      | Some (pre, tag, post) \<Rightarrow>
          (let newTag = tagDropAttr tag ''passwd'';
               newTag = (if pw \<noteq> []
                         then graphicsHead @ '' passwd='' @ sq pw @ drop (length graphicsHead) newTag
                         else newTag)
           in Inr (pre @ newTag @ post)))"

end
