(* ===== verification/TpmXml.thy ===== *)
theory TpmXml
  imports VncXml
begin

section \<open>The TPM device and the firmware in a domain document (internal/virsh/tpm.go)\<close>

text \<open>
  The regular expressions of \<open>internal/virsh/tpm.go\<close> are matchers here: each consumes what its
  expression consumes, with the same preferences (a greedy run of blanks, the self-closing
  alternative before the other one, the nearest closing tag, a greedy run of white space). None of
  them needs to take back a choice: a blank run is followed by a byte that is not blank, and what
  comes last always matches. \<open>tpmFind\<close> is the leftmost match, \<open>tpmRemoveAll\<close> is
  \<open>ReplaceAllString\<close> with the empty string.
\<close>

definition isBlank :: "char \<Rightarrow> bool" where
  "isBlank c \<longleftrightarrow> c = CHR '' '' \<or> c = tab"

definition reSpace :: "char \<Rightarrow> bool" where
  "reSpace c \<longleftrightarrow> c \<in> {tab, nl, CHR 0x0C, CHR 0x0D, CHR '' ''}"

definition reWord :: "char \<Rightarrow> bool" where
  "reWord c \<longleftrightarrow> isAlnum c \<or> c = CHR ''_''"

text \<open>What is left after the element whose text after \<open><tpm\<close> is \<open>r\<close>.\<close>

definition tpmElementRest :: "string \<Rightarrow> string option" where
  "tpmElementRest r =
     (if r \<noteq> [] \<and> reWord (hd r) then None
      else (case Cut r ''>'' of
              Some (x, y) \<Rightarrow>
                (if HasSuffix x ''/'' then Some y else map_option snd (Cut r ''</tpm>''))
            | None \<Rightarrow> map_option snd (Cut r ''</tpm>'')))"

text \<open>\<open>tpmDeviceRe\<close> at the start of a text: the rest after the match.\<close>

definition tpmMatch :: "string \<Rightarrow> string option" where
  "tpmMatch s =
     (let s1 = dropWhile isBlank s
      in if HasPrefix s1 ''<tpm''
         then map_option (dropWhile reSpace) (tpmElementRest (drop 4 s1)) else None)"

text \<open>The leftmost match: the text before it, the match and the text after it.\<close>

fun tpmFind :: "string \<Rightarrow> (string \<times> string \<times> string) option" where
  "tpmFind [] = None"
| "tpmFind (c # s) =
     (case tpmMatch (c # s) of
        Some rest \<Rightarrow> Some ([], take (length (c # s) - length rest) (c # s), rest)
      | None \<Rightarrow> map_option (\<lambda>(b, m, a). (c # b, m, a)) (tpmFind s))"

lemma tpmElementRest_length: "tpmElementRest r = Some y \<Longrightarrow> length y < length r"
  by (auto simp: tpmElementRest_def split: if_splits option.splits dest!: Cut_length)

lemma dropWhile_length: "length (dropWhile f s) \<le> length s"
  by (rule length_dropWhile_le)

lemma tpmMatch_length: "tpmMatch s = Some rest \<Longrightarrow> length rest < length s"
proof -
  assume m: "tpmMatch s = Some rest"
  then obtain y where "tpmElementRest (drop 4 (dropWhile isBlank s)) = Some y"
    "rest = dropWhile reSpace y"
    by (auto simp: tpmMatch_def Let_def split: if_splits)
  then show ?thesis
    using tpmElementRest_length [of "drop 4 (dropWhile isBlank s)" y] dropWhile_length [of reSpace y]
      dropWhile_length [of isBlank s] by simp
qed

lemma tpmFind_length: "tpmFind s = Some (b, m, a) \<Longrightarrow> length a < length s"
proof (induction s arbitrary: b)
  case Nil
  then show ?case by simp
next
  case (Cons c s)
  then show ?case
    by (auto split: option.splits dest: tpmMatch_length intro: less_SucI)
qed

function tpmRemoveAll :: "string \<Rightarrow> string" where
  "tpmRemoveAll s =
     (case tpmFind s of None \<Rightarrow> s | Some (b, m, a) \<Rightarrow> b @ tpmRemoveAll a)"
  by pat_completeness auto
termination
  by (relation "measure length") (auto dest: tpmFind_length)

declare tpmRemoveAll.simps [simp del]

definition tpmDevice :: string where
  "tpmDevice =
     ''    <tpm model='' @ sq ''tpm-crb'' @ ''>'' @ [nl] @
     ''      <backend type='' @ sq ''emulator'' @ '' version='' @ sq ''2.0'' @ ''/>'' @ [nl] @
     ''    </tpm>'' @ [nl]"

definition tpmInfoXML :: "string \<Rightarrow> bool \<times> string \<times> string" where
  "tpmInfoXML domXML =
     (case tpmFind domXML of
        None \<Rightarrow> (False, [], [])
      | Some (_, m, _) \<Rightarrow>
          (let openTag = (case Cut m ''>'' of Some (x, _) \<Rightarrow> x @ ''>'' | None \<Rightarrow> m);
               version = (case Cut m ''<backend'' of
                            None \<Rightarrow> []
                          | Some (_, r) \<Rightarrow>
                              (case Cut r ''>'' of
                                 None \<Rightarrow> []
                               | Some (x, _) \<Rightarrow> tagAttr (''<backend'' @ x @ ''>'') ''version''))
           in (True, tagAttr openTag ''model'', version)))"

definition setTPMXML :: "string \<Rightarrow> bool \<Rightarrow> string res" where
  "setTPMXML domXML enabled =
     (let present = fst (tpmInfoXML domXML)
      in if enabled \<and> present then Inr domXML
         else if enabled then
           (case CutLast domXML ''</devices>'' of
              None \<Rightarrow> Inl (Errorf ''domain XML has no <devices> section'' [])
            | Some (a, b) \<Rightarrow> Inr (a @ tpmDevice @ ''</devices>'' @ b))
         else if present then Inr (tpmRemoveAll domXML)
         else Inr domXML)"

subsection \<open>Firmware\<close>

text \<open>\<open>firmwareFeatureRe\<close> at the start of a text: the two groups and the rest.\<close>

definition afterSpace1 :: "string \<Rightarrow> string option" where
  "afterSpace1 s = (if s \<noteq> [] \<and> reSpace (hd s) then Some (dropWhile reSpace s) else None)"

definition afterLit :: "string \<Rightarrow> string \<Rightarrow> string option" where
  "afterLit l s = (if HasPrefix s l then Some (drop (length l) s) else None)"

definition nameChar :: "char \<Rightarrow> bool" where
  "nameChar c \<longleftrightarrow> (CHR ''a'' \<le> c \<and> c \<le> CHR ''z'') \<or> c = CHR ''-''"

text \<open>The groups: the value of \<open>enabled\<close> and the one of \<open>name\<close>.\<close>

definition featureEnabled :: "string \<Rightarrow> (string \<times> string) option" where
  "featureEnabled s =
     (if HasPrefix s ''yes'' then Some (''yes'', drop 3 s)
      else if HasPrefix s ''no'' then Some (''no'', drop 2 s) else None)"

definition featureName :: "string \<Rightarrow> (string \<times> string) option" where
  "featureName s =
     (if takeWhile nameChar s = [] then None
      else Some (takeWhile nameChar s, dropWhile nameChar s))"

definition featureBody :: "string \<Rightarrow> ((string \<times> string) \<times> string) option" where
  "featureBody s =
     Option.bind (afterSpace1 s) (\<lambda>s.
     Option.bind (afterLit (''enabled='' @ [apos]) s) (\<lambda>s.
     Option.bind (featureEnabled s) (\<lambda>(en, s).
     Option.bind (afterLit [apos] s) (\<lambda>s.
     Option.bind (afterSpace1 s) (\<lambda>s.
     Option.bind (afterLit (''name='' @ [apos]) s) (\<lambda>s.
     Option.bind (featureName s) (\<lambda>(name, s).
     Option.bind (afterLit [apos] s) (\<lambda>s.
     map_option (\<lambda>s. ((en, name), s)) (afterLit ''/>'' (dropWhile reSpace s))))))))))"

definition featureMatch :: "string \<Rightarrow> ((string \<times> string) \<times> string) option" where
  "featureMatch s = Option.bind (afterLit ''<feature'' s) featureBody"

lemma afterLit_length: "afterLit l s = Some t \<Longrightarrow> length s = length l + length t"
  by (auto simp: afterLit_def prefix_def split: if_splits)

lemma afterLit_le: "afterLit l s = Some t \<Longrightarrow> length t \<le> length s"
  by (simp add: afterLit_length)

lemma afterSpace1_le: "afterSpace1 s = Some t \<Longrightarrow> length t \<le> length s"
  by (auto simp: afterSpace1_def length_dropWhile_le split: if_splits)

lemma featureEnabled_le: "featureEnabled s = Some (en, t) \<Longrightarrow> length t \<le> length s"
  by (auto simp: featureEnabled_def split: if_splits)

lemma featureName_le: "featureName s = Some (n, t) \<Longrightarrow> length t \<le> length s"
  by (auto simp: featureName_def length_dropWhile_le split: if_splits)

lemma bind_string_le:
  assumes "Option.bind (f s) k = Some (g, t)" "\<And>u. f s = Some u \<Longrightarrow> length u \<le> length s"
    "\<And>u. k u = Some (g, t) \<Longrightarrow> length t \<le> length u"
  shows "length t \<le> length s"
  using assms by (cases "f s") (auto intro: le_trans)

lemma bind_pair_le:
  assumes "Option.bind (f s) (\<lambda>(x, u). k x u) = Some (g, t)"
    "\<And>x u. f s = Some (x, u) \<Longrightarrow> length u \<le> length s"
    "\<And>x u. k x u = Some (g, t) \<Longrightarrow> length t \<le> length u"
  shows "length t \<le> length s"
  using assms by (cases "f s") (auto dest!: assms(3) intro: le_trans)

lemma featureEnd_le:
  "map_option (\<lambda>s. (y, s)) (afterLit l (dropWhile reSpace u)) = Some (g, t) \<Longrightarrow> length t \<le> length u"
  using afterLit_le [of l "dropWhile reSpace u" t] length_dropWhile_le [of reSpace u] by auto

lemma featureBody_le: "featureBody s = Some (g, t) \<Longrightarrow> length t \<le> length s"
  unfolding featureBody_def
  by (erule bind_string_le, erule afterSpace1_le, erule bind_string_le, erule afterLit_le,
      erule bind_pair_le, erule featureEnabled_le, erule bind_string_le, erule afterLit_le,
      erule bind_string_le, erule afterSpace1_le, erule bind_string_le, erule afterLit_le,
      erule bind_pair_le, erule featureName_le, erule bind_string_le, erule afterLit_le,
      erule featureEnd_le)

lemma featureMatch_length: "featureMatch s = Some (g, t) \<Longrightarrow> length t < length s"
  by (auto simp: featureMatch_def bind_eq_Some_conv dest!: featureBody_le afterLit_length)

function findFeatures :: "string \<Rightarrow> (string \<times> string) list" where
  "findFeatures s =
     (if s = [] then []
      else case featureMatch s of
             Some (g, rest) \<Rightarrow> g # findFeatures rest
           | None \<Rightarrow> findFeatures (tl s))"
  by pat_completeness auto
termination
  by (relation "measure length") (auto dest: featureMatch_length)

declare findFeatures.simps [simp del]

record Firmware =
  Loader :: string
  SecureBoot :: bool
  EnrolledKeys :: bool

definition applyFeature :: "string \<times> string \<Rightarrow> Firmware \<Rightarrow> Firmware" where
  "applyFeature m fw =
     (if snd m = ''secure-boot'' then fw\<lparr>SecureBoot := (fst m = ''yes'')\<rparr>
      else if snd m = ''enrolled-keys'' then fw\<lparr>EnrolledKeys := (fst m = ''yes'')\<rparr>
      else fw)"

definition firmwareOf :: "string \<Rightarrow> Firmware" where
  "firmwareOf out =
     (let fw = fold applyFeature (findFeatures out)
                 \<lparr>Loader = [], SecureBoot = False, EnrolledKeys = False\<rparr>
      in case Cut out ''<loader'' of
           None \<Rightarrow> fw
         | Some (_, r) \<Rightarrow>
             (case Cut (''<loader'' @ r) ''</loader>'' of
                None \<Rightarrow> fw
              | Some (tag, _) \<Rightarrow>
                  (case Cut tag ''>'' of
                     None \<Rightarrow> fw
                   | Some (_, path) \<Rightarrow>
                       (let fw = fw\<lparr>Loader := TrimSpace path\<rparr>
                        in if \<not> SecureBoot fw \<and> Contains (Loader fw) ''secure-code''
                           then fw\<lparr>SecureBoot := True\<rparr> else fw))))"

end
