(* ===== verification/Xml.thy ===== *)
theory Xml
  imports GoStrings
begin

section \<open>The XML the daemon reads (package encoding/xml)\<close>

text \<open>
  \<open>xml.Unmarshal\<close> as far as \<open>internal/virsh\<close> relies on it: a tree of elements with their attributes,
  by local name; comments, processing instructions, directives and CDATA sections are skipped, and
  so is character data, after a check of its entities. The parser stops at the end of the root element, as the decoder does.
  Directives with nested brackets and character sets other than UTF-8 are not modelled.
\<close>

datatype xmlElem = Elem string "(string \<times> string) list" "xmlElem list"

definition isNameByte :: "char \<Rightarrow> bool" where
  "isNameByte c \<longleftrightarrow> isAlnum c \<or> c \<in> set ''_:.-'' \<or> 128 \<le> of_char c + (0::nat)"

definition isNameStart :: "char \<Rightarrow> bool" where
  "isNameStart c \<longleftrightarrow> isNameByte c \<and> \<not> isDigit c \<and> c \<noteq> CHR ''.'' \<and> c \<noteq> CHR ''-''"

text \<open>A name with a prefix is looked up by what follows the colon.\<close>

definition localName :: "string \<Rightarrow> string" where
  "localName n =
     (case Cut n '':'' of
        Some (p, l) \<Rightarrow> (if p \<noteq> [] \<and> l \<noteq> [] then l else n)
      | None \<Rightarrow> n)"

text \<open>\<open>utf8\<close> encodes the code point of a numeric character reference.\<close>

definition utf8 :: "nat \<Rightarrow> string" where
  "utf8 n =
     (if n < 0x80 then [char_of n]
      else if n < 0x800 then [char_of (0xC0 + n div 64), char_of (0x80 + n mod 64)]
      else if n < 0x10000 then
        [char_of (0xE0 + n div 4096), char_of (0x80 + n div 64 mod 64), char_of (0x80 + n mod 64)]
      else [char_of (0xF0 + n div 262144), char_of (0x80 + n div 4096 mod 64),
            char_of (0x80 + n div 64 mod 64), char_of (0x80 + n mod 64)])"

definition entity :: "string \<Rightarrow> string option" where
  "entity e =
     (if e = ''lt'' then Some ''<''
      else if e = ''gt'' then Some ''>''
      else if e = ''amp'' then Some ''&''
      else if e = ''apos'' then Some [apos]
      else if e = ''quot'' then Some [dquote]
      else if HasPrefix e ''#x'' \<and> 2 < length e \<and> list_all isHexDigit (drop 2 e) then
        (let n = digitsValue 16 (drop 2 e) in if n \<le> 0x10FFFF then Some (utf8 n) else None)
      else if HasPrefix e ''#'' \<and> 1 < length e \<and> list_all isDigit (drop 1 e) then
        (let n = digitsValue 10 (drop 1 e) in if n \<le> 0x10FFFF then Some (utf8 n) else None)
      else None)"

function unescape :: "string \<Rightarrow> string option" where
  "unescape s =
     (case s of
        [] \<Rightarrow> Some []
      | c # r \<Rightarrow>
          if c \<noteq> CHR ''&'' then map_option (Cons c) (unescape r)
          else (case Cut r '';'' of
                  None \<Rightarrow> None
                | Some (e, t) \<Rightarrow>
                    (case entity e of
                       None \<Rightarrow> None
                     | Some x \<Rightarrow> map_option (append x) (unescape t))))"
  by pat_completeness auto
termination
  by (relation "measure length") (auto dest: Cut_length)

declare unescape.simps [simp del]

definition skipSpace :: "string \<Rightarrow> string" where
  "skipSpace s = dropWhile (\<lambda>c. c = CHR '' '' \<or> c = nl \<or> c = tab \<or> c = CHR 0x0D) s"

lemma length_skipSpace: "length (skipSpace s) \<le> length s"
  by (simp add: skipSpace_def length_dropWhile_le)

text \<open>A name and what follows it.\<close>

definition takeName :: "string \<Rightarrow> (string \<times> string) option" where
  "takeName s =
     (case s of
        [] \<Rightarrow> None
      | c # _ \<Rightarrow> if isNameStart c then Some (takeWhile isNameByte s, dropWhile isNameByte s) else None)"

lemma takeName_length: "takeName s = Some (n, r) \<Longrightarrow> length r < length s"
  by (auto simp: takeName_def isNameStart_def split: list.splits if_splits)
    (metis isNameStart_def le_imp_less_Suc length_dropWhile_le)

text \<open>\<open>name = "value"\<close>, with either quote; the value is unescaped and has no bare \<open><\<close>.\<close>

definition takeAttr :: "string \<Rightarrow> ((string \<times> string) \<times> string) option" where
  "takeAttr s =
     (case takeName s of
        None \<Rightarrow> None
      | Some (n, r) \<Rightarrow>
          (case skipSpace r of
             [] \<Rightarrow> None
           | e # r \<Rightarrow>
               if e \<noteq> CHR ''='' then None
               else (case skipSpace r of
                       [] \<Rightarrow> None
                     | q # r \<Rightarrow>
                         if q \<noteq> apos \<and> q \<noteq> dquote then None
                         else (case Cut r [q] of
                                 None \<Rightarrow> None
                               | Some (v, t) \<Rightarrow>
                                   if CHR ''<'' \<in> set v then None
                                   else map_option (\<lambda>v. ((localName n, v), t)) (unescape v)))))"

lemma takeAttr_length:
  assumes "takeAttr s = Some (a, r)"
  shows "length r < length s"
proof -
  from assms obtain n r1 e r2 q r3 v
    where r1: "takeName s = Some (n, r1)" and r2: "skipSpace r1 = e # r2"
      and r3: "skipSpace r2 = q # r3" and v: "Cut r3 [q] = Some (v, r)"
    by (auto simp: takeAttr_def split: option.splits list.splits if_splits)
  show ?thesis
    using takeName_length [OF r1] length_skipSpace [of r1] length_skipSpace [of r2]
      Cut_length [OF v] r2 r3 by simp
qed

text \<open>The attributes of a start tag, whether it closes itself, and what follows the tag.\<close>

function takeAttrs :: "string \<Rightarrow> ((string \<times> string) list \<times> bool \<times> string) option" where
  "takeAttrs s =
     (let s = skipSpace s
      in if HasPrefix s ''/>'' then Some ([], True, drop 2 s)
         else if HasPrefix s ''>'' then Some ([], False, drop 1 s)
         else (case takeAttr s of
                 None \<Rightarrow> None
               | Some (a, r) \<Rightarrow> map_option (\<lambda>(as, c, t). (a # as, c, t)) (takeAttrs r)))"
  by pat_completeness auto
termination
proof (relation "measure length", goal_cases)
  case (2 s s' x a r)
  then show ?case
    using takeAttr_length [of s' a r] length_skipSpace [of s] by simp
qed simp

declare takeAttrs.simps [simp del]

lemma takeAttrs_length: "takeAttrs s = Some (as, c, t) \<Longrightarrow> length t < length s"
proof (induction s arbitrary: as c t rule: takeAttrs.induct)
  case (1 s)
  let ?s = "skipSpace s"
  consider (a) "HasPrefix ?s ''/>''" | (b) "\<not> HasPrefix ?s ''/>''" "HasPrefix ?s ''>''"
    | (c) "\<not> HasPrefix ?s ''/>''" "\<not> HasPrefix ?s ''>''" by blast
  then show ?case
  proof cases
    case c
    with 1(2) obtain a r as'
      where a: "takeAttr ?s = Some (a, r)" and r: "takeAttrs r = Some (as', c, t)"
      by (subst (asm) takeAttrs.simps) (auto simp: Let_def split: option.splits)
    have "length t < length r"
      by (rule "1.IH" [OF refl c a refl r])
    with takeAttr_length [OF a] length_skipSpace [of s] show ?thesis by simp
  qed (use 1(2) length_skipSpace [of s] in
      \<open>(subst (asm) takeAttrs.simps, auto simp: Let_def prefix_def)+\<close>)
qed

text \<open>
  The tokens of a document are read with the stack of the open elements, each with the
  children seen so far, in reverse.
\<close>

type_synonym openElem = "string \<times> (string \<times> string) list \<times> xmlElem list"

definition closeElem :: "openElem \<Rightarrow> xmlElem" where
  "closeElem x = (case x of (n, as, cs) \<Rightarrow> Elem (localName n) as (rev cs))"

definition addChild :: "xmlElem \<Rightarrow> openElem list \<Rightarrow> openElem list" where
  "addChild e st = (case st of [] \<Rightarrow> [] | (n, as, cs) # st \<Rightarrow> (n, as, e # cs) # st)"

text \<open>Skipping to the end of a comment, a CDATA section, a directive or an instruction.\<close>

definition skipMarkup :: "string \<Rightarrow> string option" where
  "skipMarkup r =
     (if HasPrefix r ''!--'' then
        (case Cut (drop 3 r) ''-->'' of
           Some (c, t) \<Rightarrow> if Contains c ''--'' then None else Some t
         | None \<Rightarrow> None)
      else if HasPrefix r ''![CDATA['' then map_option snd (Cut (drop 8 r) '']]>'')
      else if HasPrefix r ''!'' then map_option snd (Cut (drop 1 r) ''>'')
      else map_option snd (Cut (drop 1 r) ''?>''))"

lemma skipMarkup_length: "skipMarkup r = Some t \<Longrightarrow> length t < length r + 1"
  by (auto simp: skipMarkup_def split: if_splits option.splits dest!: Cut_length)

function xmlLoop :: "openElem list \<Rightarrow> string \<Rightarrow> xmlElem option" where
  "xmlLoop st s =
     (case Cut s ''<'' of
        None \<Rightarrow> None
      | Some (txt, r) \<Rightarrow>
          if unescape txt = None then None
          else if HasPrefix r ''!'' \<or> HasPrefix r ''?'' then
            (case skipMarkup r of None \<Rightarrow> None | Some t \<Rightarrow> xmlLoop st t)
          else if HasPrefix r ''/'' then
            (case takeName (drop 1 r) of
               None \<Rightarrow> None
             | Some (n, t) \<Rightarrow>
                 (case (skipSpace t, st) of
                    (c # t, e # st) \<Rightarrow>
                      if c \<noteq> CHR ''>'' \<or> fst e \<noteq> n then None
                      else if st = [] then Some (closeElem e)
                      else xmlLoop (addChild (closeElem e) st) t
                  | _ \<Rightarrow> None))
          else
            (case takeName r of
               None \<Rightarrow> None
             | Some (n, t) \<Rightarrow>
                 (case takeAttrs t of
                    None \<Rightarrow> None
                  | Some (as, selfclose, t) \<Rightarrow>
                      if \<not> selfclose then xmlLoop ((n, as, []) # st) t
                      else if st = [] then Some (Elem (localName n) as [])
                      else xmlLoop (addChild (Elem (localName n) as []) st) t)))"
  by pat_completeness auto
termination
proof (relation "measure (\<lambda>(st, s). length s)", goal_cases)
  case (2 st s x tx r t)
  then show ?case using skipMarkup_length [of r t] Cut_length [of s "''<''" tx r] by simp
next
  case (3 st s x tx r y n t z u c v e st')
  then have "skipSpace t = c # v" by simp
  then have "length (skipSpace t) = Suc (length v)" by (metis length_Cons)
  with 3 show ?case
    using takeName_length [of "drop 1 r" n t] length_skipSpace [of t] Cut_length [of s "''<''" tx r]
    by simp
next
  case (4 st s x tx r y n t z aa w sc v)
  then show ?case
    using takeName_length [of r n t] takeAttrs_length [of t aa sc v] Cut_length [of s "''<''" tx r]
    by simp
next
  case (5 st s x tx r y n t z aa w sc v)
  then show ?case
    using takeName_length [of r n t] takeAttrs_length [of t aa sc v] Cut_length [of s "''<''" tx r]
    by simp
qed simp

declare xmlLoop.simps [simp del]

definition parseXML :: "string \<Rightarrow> xmlElem option" where
  "parseXML s = xmlLoop [] s"

subsection \<open>Struct fields by tag\<close>

definition xchildren :: "string \<Rightarrow> xmlElem \<Rightarrow> xmlElem list" where
  "xchildren n e = (case e of Elem _ _ cs \<Rightarrow> filter (\<lambda>c. case c of Elem m _ _ \<Rightarrow> m = n) cs)"

text \<open>The elements a tag \<open>a>b\<close> (or nested structs) selects, in document order.\<close>

fun xpath :: "string list \<Rightarrow> xmlElem \<Rightarrow> xmlElem list" where
  "xpath [] e = [e]"
| "xpath (n # ns) e = concat (map (xpath ns) (xchildren n e))"

definition xattrs :: "string \<Rightarrow> xmlElem \<Rightarrow> string list" where
  "xattrs n e = (case e of Elem _ as _ \<Rightarrow> map snd (filter (\<lambda>(m, _). m = n) as))"

text \<open>A field set several times keeps the last value, one never set is empty.\<close>

definition xattr :: "string list \<Rightarrow> string \<Rightarrow> xmlElem \<Rightarrow> string" where
  "xattr path n e =
     (let vs = concat (map (xattrs n) (xpath path e)) in if vs = [] then [] else last vs)"

end
