(* ===== verification/Virsh.thy ===== *)
theory Virsh
  imports Host Validate VncXml TpmXml Xml
begin

section \<open>The virsh client (internal/virsh)\<close>

text \<open>
  Every method of \<open>virsh.Client\<close>. A method runs \<open>virsh\<close> through \<open>Client_run\<close>, so its effect
  on the world is that of the external program and, for the methods that hand a document to \<open>virsh\<close>, a temporary
  file written before and removed after. Methods are state-passing calls (\<open>act\<close>) on the world.
\<close>

record Client =
  Bin :: string
  Timeout :: int

definition virsh_New :: "string \<Rightarrow> Client" where
  "virsh_New binPath =
     \<lparr>Bin = (if binPath = [] then ''/usr/bin/virsh'' else binPath), Timeout = 10 * 10 ^ 9\<rparr>"

text \<open>A run that the timeout ends is one of the failures of \<open>exec\<close>.\<close>

definition Client_run :: "'h env \<Rightarrow> Client \<Rightarrow> string list \<Rightarrow> (string, 'h world) act" where
  "Client_run env c args w =
     (case os_exec env (Bin c) args w of
        (ExecOK out, w) \<Rightarrow> (Inr out, w)
      | (ExecFail out err ex, w) \<Rightarrow> (Inl (ExecError args ex (TrimSpace err)), w))"

text \<open>The text of the error \<open>Client_run\<close> returns; no other error reaches its one caller.\<close>

definition execErrText :: "error \<Rightarrow> string" where
  "execErrText e =
     (case e of
        ExecError args ex err \<Rightarrow>
          ''virsh ['' @ Join args '' '' @ '']: '' @ ex @ '' (stderr: '' @ err @ '')''
      | _ \<Rightarrow> [])"

definition runCmd :: "'h env \<Rightarrow> Client \<Rightarrow> string list \<Rightarrow> (unit, 'h world) act" where
  "runCmd env c args = bindAct (Client_run env c args) (\<lambda>_. retAct ())"

subsection \<open>Domains and their power state\<close>

definition nonEmptyLines :: "string \<Rightarrow> string list" where
  "nonEmptyLines out = filter (\<lambda>l. l \<noteq> []) (map TrimSpace (Split out nl))"

definition virsh_ListDomains :: "'h env \<Rightarrow> Client \<Rightarrow> (string list, 'h world) act" where
  "virsh_ListDomains env c =
     bindAct (Client_run env c [''list'', ''--all'', ''--name'']) (\<lambda>out. retAct (nonEmptyLines out))"

definition autostartLine :: "string \<Rightarrow> bool option" where
  "autostartLine out =
     map_option (\<lambda>l. Contains l ''enable'') (find (\<lambda>l. HasPrefix l ''Autostart:'') (Split out nl))"

definition virsh_IsAutostart :: "'h env \<Rightarrow> Client \<Rightarrow> string \<Rightarrow> (bool, 'h world) act" where
  "virsh_IsAutostart env c name =
     bindAct (Client_run env c [''dominfo'', name]) (\<lambda>out.
       case autostartLine out of
         Some b \<Rightarrow> retAct b
       | None \<Rightarrow> failAct (Errorf ''could not parse Autostart for %s'' [name]))"

definition virsh_SetAutostart :: "'h env \<Rightarrow> Client \<Rightarrow> string \<Rightarrow> bool \<Rightarrow> (unit, 'h world) act" where
  "virsh_SetAutostart env c name enable =
     runCmd env c ([''autostart'', name] @ (if enable then [] else [''--disable'']))"

definition virsh_State :: "'h env \<Rightarrow> Client \<Rightarrow> string \<Rightarrow> (string, 'h world) act" where
  "virsh_State env c name =
     bindAct (Client_run env c [''domstate'', name]) (\<lambda>out. retAct (TrimSpace out))"

definition virsh_Start :: "'h env \<Rightarrow> Client \<Rightarrow> string \<Rightarrow> (unit, 'h world) act" where
  "virsh_Start env c name = runCmd env c [''start'', name]"

definition virsh_Shutdown :: "'h env \<Rightarrow> Client \<Rightarrow> string \<Rightarrow> (unit, 'h world) act" where
  "virsh_Shutdown env c name = runCmd env c [''shutdown'', name]"

definition virsh_Reboot :: "'h env \<Rightarrow> Client \<Rightarrow> string \<Rightarrow> (unit, 'h world) act" where
  "virsh_Reboot env c name = runCmd env c [''reboot'', name]"

definition virsh_Destroy :: "'h env \<Rightarrow> Client \<Rightarrow> string \<Rightarrow> (unit, 'h world) act" where
  "virsh_Destroy env c name = runCmd env c [''destroy'', name]"

definition virsh_Suspend :: "'h env \<Rightarrow> Client \<Rightarrow> string \<Rightarrow> (unit, 'h world) act" where
  "virsh_Suspend env c name = runCmd env c [''suspend'', name]"

definition virsh_Resume :: "'h env \<Rightarrow> Client \<Rightarrow> string \<Rightarrow> (unit, 'h world) act" where
  "virsh_Resume env c name = runCmd env c [''resume'', name]"

definition virsh_SetMemStatsPeriod :: "'h env \<Rightarrow> Client \<Rightarrow> string \<Rightarrow> int \<Rightarrow> (unit, 'h world) act" where
  "virsh_SetMemStatsPeriod env c domain seconds =
     runCmd env c [''dommemstat'', domain, ''--period'', Itoa seconds, ''--live'']"

definition virsh_DumpXML :: "'h env \<Rightarrow> Client \<Rightarrow> string \<Rightarrow> (string, 'h world) act" where
  "virsh_DumpXML env c name = Client_run env c [''dumpxml'', name]"

subsection \<open>The tables virsh prints\<close>

text \<open>The loop of \<open>regexpSplitMulti\<close>: the column read so far and the blanks since its last byte.\<close>

fun splitMulti :: "string \<Rightarrow> nat \<Rightarrow> string \<Rightarrow> string list" where
  "splitMulti cur spaces [] = (if cur \<noteq> [] then [cur] else [])"
| "splitMulti cur spaces (r # s) =
     (if r = CHR '' '' \<or> r = tab then
        (if 2 \<le> spaces + 1 \<and> cur \<noteq> [] then cur # splitMulti [] (spaces + 1) s
         else splitMulti cur (spaces + 1) s)
      else splitMulti ((if 0 < spaces \<and> cur \<noteq> [] then cur @ '' '' else cur) @ [r]) 0 s)"

definition regexpSplitMulti :: "string \<Rightarrow> string list" where
  "regexpSplitMulti s = splitMulti [] 0 s"

definition splitColumns :: "string \<Rightarrow> string list" where
  "splitColumns line = map TrimSpace (regexpSplitMulti line)"

definition isSepLine :: "string \<Rightarrow> bool" where
  "isSepLine line \<longleftrightarrow> HasPrefix (TrimSpace line) ''---''"

text \<open>The loop over the lines with its flag \<open>sep\<close>: the lines after the first separator, other
  separators dropped.\<close>

fun tableRows :: "bool \<Rightarrow> string list \<Rightarrow> string list" where
  "tableRows sep [] = []"
| "tableRows sep (l # ls) =
     (if isSepLine l then tableRows True ls
      else if \<not> sep then tableRows sep ls
      else l # tableRows sep ls)"

record Snapshot =
  snName :: string
  snCreatedAt :: string
  snState :: string
  snParent :: string
  snDescription :: string
  snCurrent :: bool

definition snapshotRow :: "string \<Rightarrow> Snapshot list" where
  "snapshotRow line =
     (let fields = splitColumns line
      in if length fields < 3 \<or> fields ! 0 = [] then []
         else [\<lparr>snName = fields ! 0, snCreatedAt = fields ! 1, snState = fields ! 2,
                snParent = (if 4 \<le> length fields then fields ! 3 else []),
                snDescription = [], snCurrent = False\<rparr>])"

definition parseSnapshots :: "string \<Rightarrow> Snapshot list" where
  "parseSnapshots out = concat (map snapshotRow (tableRows False (Split out nl)))"

definition virsh_CurrentSnapshot :: "'h env \<Rightarrow> Client \<Rightarrow> string \<Rightarrow> (string, 'h world) act" where
  "virsh_CurrentSnapshot env c domain =
     tryAct (Client_run env c [''snapshot-current'', domain, ''--name'']) (\<lambda>r.
       case r of
         Inl e \<Rightarrow> if Contains (execErrText e) ''has no current snapshot'' then retAct [] else failAct e
       | Inr out \<Rightarrow> retAct (TrimSpace out))"

definition markCurrent :: "string res \<Rightarrow> Snapshot list \<Rightarrow> Snapshot list" where
  "markCurrent r snaps =
     (case r of
        Inl _ \<Rightarrow> snaps
      | Inr cur \<Rightarrow>
          if cur = [] then snaps
          else map (\<lambda>s. if snName s = cur then s\<lparr>snCurrent := True\<rparr> else s) snaps)"

definition virsh_ListSnapshots :: "'h env \<Rightarrow> Client \<Rightarrow> string \<Rightarrow> (Snapshot list, 'h world) act" where
  "virsh_ListSnapshots env c domain =
     bindAct (Client_run env c [''snapshot-list'', domain, ''--parent'']) (\<lambda>out.
       tryAct (virsh_CurrentSnapshot env c domain) (\<lambda>r. retAct (markCurrent r (parseSnapshots out))))"

record Disk =
  dkType :: string
  dkDevice :: string
  dkTarget :: string
  dkSource :: string

definition diskRow :: "string \<Rightarrow> Disk list" where
  "diskRow line =
     (let fields = splitColumns line
      in if length fields < 4 \<or> fields ! 2 = [] then []
         else if fields ! 3 = ''-'' then []
         else [\<lparr>dkType = fields ! 0, dkDevice = fields ! 1, dkTarget = fields ! 2,
                dkSource = fields ! 3\<rparr>])"

definition parseDisks :: "string \<Rightarrow> Disk list" where
  "parseDisks out = concat (map diskRow (tableRows False (Split out nl)))"

definition virsh_DomainDisks :: "'h env \<Rightarrow> Client \<Rightarrow> string \<Rightarrow> (Disk list, 'h world) act" where
  "virsh_DomainDisks env c domain =
     bindAct (Client_run env c [''domblklist'', ''--details'', domain]) (\<lambda>out. retAct (parseDisks out))"

record Network =
  netName :: string
  netActive :: bool

definition networkRow :: "string \<Rightarrow> Network list" where
  "networkRow line =
     (let f = splitColumns line
      in if length f < 2 \<or> f ! 0 = [] then []
         else [\<lparr>netName = f ! 0, netActive = (f ! 1 = ''active'')\<rparr>])"

definition parseNetworks :: "string \<Rightarrow> Network list" where
  "parseNetworks out = concat (map networkRow (tableRows False (Split out nl)))"

definition virsh_NetworkList :: "'h env \<Rightarrow> Client \<Rightarrow> (Network list, 'h world) act" where
  "virsh_NetworkList env c =
     bindAct (Client_run env c [''net-list'', ''--all'']) (\<lambda>out. retAct (parseNetworks out))"

definition statsLine :: "string \<Rightarrow> string gmap \<Rightarrow> string gmap" where
  "statsLine line m =
     (case Cut (TrimSpace line) ''='' of
        None \<Rightarrow> m
      | Some (k, v) \<Rightarrow> gput (TrimSpace k) (TrimSpace v) m)"

definition parseStats :: "string \<Rightarrow> string gmap" where
  "parseStats out = fold statsLine (Split out nl) []"

definition virsh_DomainStats :: "'h env \<Rightarrow> Client \<Rightarrow> string \<Rightarrow> (string gmap, 'h world) act" where
  "virsh_DomainStats env c domain =
     bindAct (Client_run env c [''domstats'', domain]) (\<lambda>out. retAct (parseStats out))"

subsection \<open>Snapshots\<close>

definition isRemovable :: "Disk \<Rightarrow> bool" where
  "isRemovable d \<longleftrightarrow> dkDevice d = ''cdrom'' \<or> dkDevice d = ''floppy''"

definition overlayPath :: "string \<Rightarrow> string \<Rightarrow> nat \<Rightarrow> Disk \<Rightarrow> string" where
  "overlayPath externalDir stem i d =
     TrimRight externalDir ''/'' @ ''/'' @ stem @ ''-'' @ dkTarget d @ ''-'' @ natDigits i @ ''.qcow2''"

fun diskSpecs :: "string \<Rightarrow> string \<Rightarrow> nat \<Rightarrow> Disk list \<Rightarrow> string list" where
  "diskSpecs externalDir stem i [] = []"
| "diskSpecs externalDir stem i (d # ds) =
     [''--diskspec'',
      dkTarget d @
        (if isRemovable d then '',snapshot=no''
         else '',snapshot=external,file='' @ overlayPath externalDir stem i d)]
     @ diskSpecs externalDir stem (i + 1) ds"

definition memSpec :: "string \<Rightarrow> string \<Rightarrow> string res \<Rightarrow> string list" where
  "memSpec externalDir stem state =
     (if state = Inr ''running'' \<or> state = Inr ''paused''
      then [''--memspec'',
            ''file='' @ TrimRight externalDir ''/'' @ ''/'' @ stem @ ''-memory.save'' @ '',snapshot=external'']
      else [])"

definition virsh_CreateSnapshot ::
  "'h env \<Rightarrow> Client \<Rightarrow> string \<Rightarrow> string \<Rightarrow> string \<Rightarrow> bool \<Rightarrow> string \<Rightarrow> (unit, 'h world) act" where
  "virsh_CreateSnapshot env c domain name description external externalDir =
     (let args = [''snapshot-create-as'', domain, name] @
            (if description \<noteq> [] then [''--description'', description] else [])
      in if \<not> external then runCmd env c args
         else if externalDir = [] then failAct (Errorf ''externalDir required for external snapshot'' [])
         else bindAct (virsh_DomainDisks env c domain) (\<lambda>disks.
              tryAct (virsh_State env c domain) (\<lambda>state.
                runCmd env c (args @ diskSpecs externalDir (fileStem name) 0 disks
                  @ memSpec externalDir (fileStem name) state @ [''--atomic'']))))"

definition virsh_RevertSnapshot ::
  "'h env \<Rightarrow> Client \<Rightarrow> string \<Rightarrow> string \<Rightarrow> bool \<Rightarrow> (unit, 'h world) act" where
  "virsh_RevertSnapshot env c domain snapshot force =
     runCmd env c ([''snapshot-revert'', domain, snapshot] @ (if force then [''--force''] else []))"

definition virsh_DeleteSnapshot ::
  "'h env \<Rightarrow> Client \<Rightarrow> string \<Rightarrow> string \<Rightarrow> bool \<Rightarrow> (unit, 'h world) act" where
  "virsh_DeleteSnapshot env c domain snapshot withChildren =
     runCmd env c ([''snapshot-delete'', domain, snapshot] @ (if withChildren then [''--children''] else []))"

subsection \<open>What a domain document declares\<close>

definition virsh_HasUEFI :: "'h env \<Rightarrow> Client \<Rightarrow> string \<Rightarrow> (bool, 'h world) act" where
  "virsh_HasUEFI env c domain =
     bindAct (virsh_DumpXML env c domain) (\<lambda>xml. retAct (Contains xml ''<loader'' \<and> Contains xml ''pflash''))"

text \<open>\<open>open\<close> and \<open>close\<close> of the code are the lengths of what precedes the two tags.\<close>

definition titleOf :: "string \<Rightarrow> string" where
  "titleOf xml =
     (case (Cut xml ''<title>'', Cut xml ''</title>'') of
        (Some (a, _), Some (b, _)) \<Rightarrow>
          if length b \<le> length a then []
          else TrimSpace (drop (length a + length ''<title>'') b)
      | _ \<Rightarrow> [])"

definition virsh_Title :: "'h env \<Rightarrow> Client \<Rightarrow> string \<Rightarrow> (string, 'h world) act" where
  "virsh_Title env c domain = bindAct (virsh_DumpXML env c domain) (\<lambda>xml. retAct (titleOf xml))"

definition hostdevs :: "string \<Rightarrow> xmlElem \<Rightarrow> xmlElem list" where
  "hostdevs type doc = filter (\<lambda>h. xattr [] ''type'' h = type) (xpath [''devices'', ''hostdev''] doc)"

definition hasUSBHostdev :: "string \<Rightarrow> string \<Rightarrow> string \<Rightarrow> bool" where
  "hasUSBHostdev domainXML vendorID productID =
     (case parseXML domainXML of
        None \<Rightarrow> False
      | Some doc \<Rightarrow>
          list_ex (\<lambda>h. ToLower (xattr [''source'', ''vendor''] ''id'' h) = ''0x'' @ ToLower vendorID \<and>
                       ToLower (xattr [''source'', ''product''] ''id'' h) = ''0x'' @ ToLower productID)
            (hostdevs ''usb'' doc))"

definition virsh_HasUSBHostdev ::
  "'h env \<Rightarrow> Client \<Rightarrow> string \<Rightarrow> string \<Rightarrow> string \<Rightarrow> (bool, 'h world) act" where
  "virsh_HasUSBHostdev env c domain vendorID productID =
     bindAct (Client_run env c [''dumpxml'', ''--inactive'', domain]) (\<lambda>out.
       retAct (hasUSBHostdev out vendorID productID))"

definition parseHexU :: "string \<Rightarrow> nat" where
  "parseHexU s = ParseUint (TrimPrefix (ToLower (TrimSpace s)) ''0x'') 16"

definition parsePCIAddr :: "string \<Rightarrow> (nat \<times> nat \<times> nat \<times> nat) option" where
  "parsePCIAddr addr =
     (case Cut addr '':'' of None \<Rightarrow> None | Some (d, rest) \<Rightarrow>
     (case Cut rest '':'' of None \<Rightarrow> None | Some (b, sf) \<Rightarrow>
     (case Cut sf ''.'' of None \<Rightarrow> None | Some (s, f) \<Rightarrow>
        Some (parseHexU d, parseHexU b, parseHexU s, parseHexU f))))"

definition hostdevAddr :: "xmlElem \<Rightarrow> nat \<times> nat \<times> nat \<times> nat" where
  "hostdevAddr h =
     (let a = (\<lambda>n. parseHexU (xattr [''source'', ''address''] n h))
      in (a ''domain'', a ''bus'', a ''slot'', a ''function''))"

definition hasPCIHostdev :: "string \<Rightarrow> string \<Rightarrow> bool" where
  "hasPCIHostdev domainXML address =
     (case parsePCIAddr address of
        None \<Rightarrow> False
      | Some w \<Rightarrow>
          (case parseXML domainXML of
             None \<Rightarrow> False
           | Some doc \<Rightarrow> list_ex (\<lambda>h. hostdevAddr h = w) (hostdevs ''pci'' doc)))"

definition virsh_HasPCIHostdev ::
  "'h env \<Rightarrow> Client \<Rightarrow> string \<Rightarrow> string \<Rightarrow> (bool, 'h world) act" where
  "virsh_HasPCIHostdev env c domain address =
     bindAct (Client_run env c [''dumpxml'', ''--inactive'', domain]) (\<lambda>out.
       retAct (hasPCIHostdev out address))"

record Interface =
  ifMAC :: string
  ifType :: string
  ifSource :: string
  ifModel :: string

definition interfaceOf :: "xmlElem \<Rightarrow> Interface" where
  "interfaceOf i =
     (let src = xattr [''source''] ''network'' i;
          src = (if src = [] then xattr [''source''] ''bridge'' i else src);
          src = (if src = [] then xattr [''source''] ''dev'' i else src)
      in \<lparr>ifMAC = xattr [''mac''] ''address'' i, ifType = xattr [] ''type'' i, ifSource = src,
          ifModel = xattr [''model''] ''type'' i\<rparr>)"

definition virsh_DomainInterfaces :: "'h env \<Rightarrow> Client \<Rightarrow> string \<Rightarrow> (Interface list, 'h world) act" where
  "virsh_DomainInterfaces env c domain =
     bindAct (Client_run env c [''dumpxml'', ''--inactive'', domain]) (\<lambda>out.
       case parseXML out of
         None \<Rightarrow> failAct (Errorf ''XML syntax error'' [])
       | Some doc \<Rightarrow> retAct (map interfaceOf (xpath [''devices'', ''interface''] doc)))"

subsection \<open>Handing a document to virsh\<close>

text \<open>
  \<open>os.CreateTemp\<close> with an empty directory uses \<open>/tmp\<close> (the daemon's \<open>TMPDIR\<close> is unset). A
  failed \<open>Close\<close> leaves the file behind, as the callers return before they defer the removal.
\<close>

definition writeTempXML :: "'h env \<Rightarrow> string \<Rightarrow> (string, 'h world) act" where
  "writeTempXML env content =
     bindAct (os_CreateTemp env ''/tmp'' ''zvmx-'' ''.xml'') (\<lambda>name w.
       case os_WriteFile env name (Text content) w of
         (Inl e, w) \<Rightarrow> (Inl e, snd (os_Remove env name w))
       | (Inr _, w) \<Rightarrow>
           if osFault env OpClose name (files w) then (Inl (OSError ''close'' name), w) else (Inr name, w))"

definition removeTemp :: "'h env \<Rightarrow> string \<Rightarrow> 'h world \<Rightarrow> 'h world" where
  "removeTemp env path w = snd (os_Remove env path w)"

text \<open>The shape of the four callers: write, \<open>defer removeTemp(tmp)\<close>, run.\<close>

definition withTempXML :: "'h env \<Rightarrow> string \<Rightarrow> (string \<Rightarrow> ('a, 'h world) act) \<Rightarrow> ('a, 'h world) act" where
  "withTempXML env content k =
     bindAct (writeTempXML env content) (\<lambda>tmp w. case k tmp w of (r, w) \<Rightarrow> (r, removeTemp env tmp w))"

definition virsh_AttachDeviceConfig ::
  "'h env \<Rightarrow> Client \<Rightarrow> string \<Rightarrow> string \<Rightarrow> (unit, 'h world) act" where
  "virsh_AttachDeviceConfig env c domain xmlSnippet =
     withTempXML env xmlSnippet (\<lambda>tmp. runCmd env c [''attach-device'', domain, tmp, ''--config''])"

definition liveConfigFlags :: "string res \<Rightarrow> bool \<Rightarrow> string list" where
  "liveConfigFlags state persistent =
     (if state = Inr ''running'' then [''--live''] else []) @ (if persistent then [''--config''] else [])"

definition virsh_AttachDeviceXML ::
  "'h env \<Rightarrow> Client \<Rightarrow> string \<Rightarrow> string \<Rightarrow> bool \<Rightarrow> (unit, 'h world) act" where
  "virsh_AttachDeviceXML env c domain xmlSnippet persistent =
     withTempXML env xmlSnippet (\<lambda>tmp.
       tryAct (virsh_State env c domain) (\<lambda>state.
         runCmd env c ([''attach-device'', domain, tmp] @ liveConfigFlags state persistent)))"

definition virsh_DetachDeviceXML ::
  "'h env \<Rightarrow> Client \<Rightarrow> string \<Rightarrow> string \<Rightarrow> bool \<Rightarrow> (unit, 'h world) act" where
  "virsh_DetachDeviceXML env c domain xmlSnippet persistent =
     withTempXML env xmlSnippet (\<lambda>tmp.
       tryAct (virsh_State env c domain) (\<lambda>state.
         runCmd env c ([''detach-device'', domain, tmp] @ liveConfigFlags state persistent)))"

definition wrapErr :: "string \<Rightarrow> ('a, 'w) act \<Rightarrow> ('a, 'w) act" where
  "wrapErr msg m = tryAct m (\<lambda>r. case r of Inl e \<Rightarrow> failAct (Wrapf msg [] e) | Inr a \<Rightarrow> retAct a)"

definition virsh_SwitchInterface ::
  "'h env \<Rightarrow> Client \<Rightarrow> string \<Rightarrow> string \<Rightarrow> string \<Rightarrow> string \<Rightarrow> string \<Rightarrow> (unit, 'h world) act" where
  "virsh_SwitchInterface env c domain oldType mac network model =
     bindAct (wrapErr ''detach old NIC: %w''
       (runCmd env c [''detach-interface'', domain, oldType, ''--mac'', mac, ''--config''])) (\<lambda>_.
     wrapErr ''attach new NIC: %w''
       (runCmd env c ([''attach-interface'', domain, ''network'', network, ''--mac'', mac, ''--config'']
         @ (if model \<noteq> [] then [''--model'', model] else []))))"

subsection \<open>The VNC console\<close>

definition dumpInactive :: "'h env \<Rightarrow> Client \<Rightarrow> string \<Rightarrow> (string, 'h world) act" where
  "dumpInactive env c domain = Client_run env c [''dumpxml'', ''--inactive'', ''--security-info'', domain]"

definition dumpLive :: "'h env \<Rightarrow> Client \<Rightarrow> string \<Rightarrow> (string, 'h world) act" where
  "dumpLive env c domain = Client_run env c [''dumpxml'', ''--security-info'', domain]"

definition virsh_VNCInfo :: "'h env \<Rightarrow> Client \<Rightarrow> string \<Rightarrow> (bool \<times> bool \<times> string, 'h world) act" where
  "virsh_VNCInfo env c domain =
     bindAct (dumpInactive env c domain) (\<lambda>out. retAct (vncGraphicsInfo out))"

definition virsh_VNCHasPassword :: "'h env \<Rightarrow> Client \<Rightarrow> string \<Rightarrow> (bool, 'h world) act" where
  "virsh_VNCHasPassword env c domain =
     bindAct (virsh_VNCInfo env c domain) (\<lambda>(present, hasPw, _). retAct (\<not> present \<or> hasPw))"

text \<open>The methods that report on the running domain read its live document only when it runs.\<close>

definition whenRunning :: "'h env \<Rightarrow> Client \<Rightarrow> string \<Rightarrow> 'a \<Rightarrow> (string \<Rightarrow> 'a) \<Rightarrow> ('a, 'h world) act" where
  "whenRunning env c domain off onXML =
     bindAct (virsh_State env c domain) (\<lambda>state.
       if state \<noteq> ''running'' then retAct off
       else bindAct (dumpLive env c domain) (\<lambda>out. retAct (onXML out)))"

definition virsh_VNCLiveInfo :: "'h env \<Rightarrow> Client \<Rightarrow> string \<Rightarrow> (bool \<times> bool, 'h world) act" where
  "virsh_VNCLiveInfo env c domain =
     whenRunning env c domain (False, False) (\<lambda>out.
       case vncGraphicsInfo out of (present, hasPw, _) \<Rightarrow> (True, \<not> present \<or> hasPw))"

definition virsh_VNCListenInfo :: "'h env \<Rightarrow> Client \<Rightarrow> string \<Rightarrow> (string \<times> int \<times> bool, 'h world) act" where
  "virsh_VNCListenInfo env c domain =
     bindAct (dumpInactive env c domain) (\<lambda>out.
       case vncGraphicsInfo out of (present, _, listen) \<Rightarrow>
         if \<not> present then retAct ([], 0, False)
         else (case vncGraphicsPort out of (port, autoport) \<Rightarrow> retAct (listen, port, autoport)))"

definition virsh_VNCLiveListen :: "'h env \<Rightarrow> Client \<Rightarrow> string \<Rightarrow> (bool \<times> string \<times> int, 'h world) act" where
  "virsh_VNCLiveListen env c domain =
     whenRunning env c domain (False, [], 0) (\<lambda>out.
       case vncGraphicsInfo out of (present, _, listen) \<Rightarrow>
         if \<not> present then (True, [], 0) else (True, listen, fst (vncGraphicsPort out)))"

text \<open>\<open>SetVNCListen\<close>, \<open>SetVNCPassword\<close> and \<open>SetTPM\<close>: dump, edit, \<open>virsh define\<close>.\<close>

definition redefine :: "'h env \<Rightarrow> Client \<Rightarrow> string \<Rightarrow> (string \<Rightarrow> string res) \<Rightarrow> (unit, 'h world) act" where
  "redefine env c domain edit =
     bindAct (dumpInactive env c domain) (\<lambda>out.
       case edit out of
         Inl e \<Rightarrow> failAct e
       | Inr modified \<Rightarrow> withTempXML env modified (\<lambda>tmp. runCmd env c [''define'', tmp]))"

definition virsh_SetVNCListen ::
  "'h env \<Rightarrow> Client \<Rightarrow> string \<Rightarrow> string \<Rightarrow> int \<Rightarrow> (unit, 'h world) act" where
  "virsh_SetVNCListen env c domain listen port =
     redefine env c domain (\<lambda>out. setGraphicsListenXML out listen port)"

definition virsh_SetVNCPassword :: "'h env \<Rightarrow> Client \<Rightarrow> string \<Rightarrow> string \<Rightarrow> (unit, 'h world) act" where
  "virsh_SetVNCPassword env c domain pw =
     redefine env c domain (\<lambda>out. setGraphicsPasswordXML out pw)"

subsection \<open>The TPM and the firmware\<close>

definition virsh_TPMInfo :: "'h env \<Rightarrow> Client \<Rightarrow> string \<Rightarrow> (bool \<times> string \<times> string, 'h world) act" where
  "virsh_TPMInfo env c domain =
     bindAct (dumpInactive env c domain) (\<lambda>out. retAct (tpmInfoXML out))"

definition virsh_TPMLiveInfo :: "'h env \<Rightarrow> Client \<Rightarrow> string \<Rightarrow> (bool \<times> bool, 'h world) act" where
  "virsh_TPMLiveInfo env c domain =
     whenRunning env c domain (False, False) (\<lambda>out. (True, fst (tpmInfoXML out)))"

definition virsh_SetTPM :: "'h env \<Rightarrow> Client \<Rightarrow> string \<Rightarrow> bool \<Rightarrow> (unit, 'h world) act" where
  "virsh_SetTPM env c domain enabled = redefine env c domain (\<lambda>out. setTPMXML out enabled)"

definition virsh_FirmwareInfo :: "'h env \<Rightarrow> Client \<Rightarrow> string \<Rightarrow> (Firmware, 'h world) act" where
  "virsh_FirmwareInfo env c domain =
     bindAct (dumpInactive env c domain) (\<lambda>out. retAct (firmwareOf out))"

end
