(* ===== verification/VirshProofs.thy ===== *)
theory VirshProofs
  imports Virsh
begin

section \<open>What every virsh method keeps\<close>

text \<open>
  \<open>virsh_frame\<close> is the interface between the methods and a relation \<open>R\<close> on worlds: if \<open>R\<close> holds
  of every run of \<open>virsh\<close> with arguments in \<open>ok\<close>, and of the handling of a temporary document, it
  holds of every method. Two relations interpret it: no file outside the temporary ones changes
  (\<open>files_frame\<close>), and every program that is run is \<open>virsh\<close> with arguments that smuggle in no option (\<open>args_frame\<close>).
\<close>

locale virsh_frame = frame R for R :: "'h world \<Rightarrow> 'h world \<Rightarrow> bool" +
  fixes env :: "'h env" and c :: Client and ok :: "string list \<Rightarrow> bool"
  assumes run: "ok args \<Longrightarrow> keeps R (Client_run env c args)"
    and temp: "(\<And>tmp. isTmp tmp \<Longrightarrow> keeps R (k tmp)) \<Longrightarrow> keeps R (withTempXML env content (k :: string \<Rightarrow> (unit, 'h world) act))"
begin

lemma keeps_runCmd: "ok args \<Longrightarrow> keeps R (runCmd env c args)"
  by (simp add: runCmd_def keeps_intros run)

lemma keeps_ListDomains: "ok [''list'', ''--all'', ''--name''] \<Longrightarrow> keeps R (virsh_ListDomains env c)"
  by (simp add: virsh_ListDomains_def keeps_intros run)

lemma keeps_IsAutostart: "ok [''dominfo'', name] \<Longrightarrow> keeps R (virsh_IsAutostart env c name)"
  by (auto simp: virsh_IsAutostart_def intro!: keeps_intros run split: option.splits)

lemma keeps_SetAutostart:
  "ok [''autostart'', name] \<Longrightarrow> ok [''autostart'', name, ''--disable''] \<Longrightarrow>
   keeps R (virsh_SetAutostart env c name enable)"
  by (simp add: virsh_SetAutostart_def keeps_runCmd)

lemma keeps_State: "ok [''domstate'', name] \<Longrightarrow> keeps R (virsh_State env c name)"
  by (simp add: virsh_State_def keeps_intros run)

lemma keeps_power:
  "ok [''start'', name] \<Longrightarrow> keeps R (virsh_Start env c name)"
  "ok [''shutdown'', name] \<Longrightarrow> keeps R (virsh_Shutdown env c name)"
  "ok [''reboot'', name] \<Longrightarrow> keeps R (virsh_Reboot env c name)"
  "ok [''destroy'', name] \<Longrightarrow> keeps R (virsh_Destroy env c name)"
  "ok [''suspend'', name] \<Longrightarrow> keeps R (virsh_Suspend env c name)"
  "ok [''resume'', name] \<Longrightarrow> keeps R (virsh_Resume env c name)"
  by (simp_all add: virsh_Start_def virsh_Shutdown_def virsh_Reboot_def virsh_Destroy_def
      virsh_Suspend_def virsh_Resume_def keeps_runCmd)

lemma keeps_SetMemStatsPeriod:
  "ok [''dommemstat'', d, ''--period'', Itoa s, ''--live''] \<Longrightarrow> keeps R (virsh_SetMemStatsPeriod env c d s)"
  by (simp add: virsh_SetMemStatsPeriod_def keeps_runCmd)

lemma keeps_DumpXML: "ok [''dumpxml'', name] \<Longrightarrow> keeps R (virsh_DumpXML env c name)"
  by (simp add: virsh_DumpXML_def run)

lemma keeps_document:
  "ok [''dumpxml'', name] \<Longrightarrow> keeps R (virsh_HasUEFI env c name)"
  "ok [''dumpxml'', name] \<Longrightarrow> keeps R (virsh_Title env c name)"
  by (simp_all add: virsh_HasUEFI_def virsh_Title_def keeps_intros keeps_DumpXML)

lemma keeps_CurrentSnapshot:
  "ok [''snapshot-current'', d, ''--name''] \<Longrightarrow> keeps R (virsh_CurrentSnapshot env c d)"
  by (auto simp: virsh_CurrentSnapshot_def intro!: keeps_intros run split: sum.splits)

lemma keeps_ListSnapshots:
  "ok [''snapshot-list'', d, ''--parent''] \<Longrightarrow> ok [''snapshot-current'', d, ''--name''] \<Longrightarrow>
   keeps R (virsh_ListSnapshots env c d)"
  by (auto simp: virsh_ListSnapshots_def intro!: keeps_intros run keeps_CurrentSnapshot)

lemma keeps_DomainDisks: "ok [''domblklist'', ''--details'', d] \<Longrightarrow> keeps R (virsh_DomainDisks env c d)"
  by (simp add: virsh_DomainDisks_def keeps_intros run)

lemma keeps_NetworkList: "ok [''net-list'', ''--all''] \<Longrightarrow> keeps R (virsh_NetworkList env c)"
  by (simp add: virsh_NetworkList_def keeps_intros run)

lemma keeps_DomainStats: "ok [''domstats'', d] \<Longrightarrow> keeps R (virsh_DomainStats env c d)"
  by (simp add: virsh_DomainStats_def keeps_intros run)

lemma keeps_CreateSnapshot:
  assumes "ok [''domstate'', d]" "ok [''domblklist'', ''--details'', d]"
    and "ok ([''snapshot-create-as'', d, n] @ (if desc \<noteq> [] then [''--description'', desc] else []))"
    and "\<And>disks state. ok ([''snapshot-create-as'', d, n] @
           (if desc \<noteq> [] then [''--description'', desc] else [])
           @ diskSpecs dir (fileStem n) 0 disks @ memSpec dir (fileStem n) state @ [''--atomic''])"
  shows "keeps R (virsh_CreateSnapshot env c d n desc external dir)"
  unfolding virsh_CreateSnapshot_def Let_def
  by (intro keeps_intros keeps_runCmd keeps_DomainDisks keeps_State) (use assms in simp_all)

lemma keeps_RevertSnapshot:
  "ok [''snapshot-revert'', d, s] \<Longrightarrow> ok [''snapshot-revert'', d, s, ''--force''] \<Longrightarrow>
   keeps R (virsh_RevertSnapshot env c d s f)"
  by (simp add: virsh_RevertSnapshot_def keeps_runCmd)

lemma keeps_DeleteSnapshot:
  "ok [''snapshot-delete'', d, s] \<Longrightarrow> ok [''snapshot-delete'', d, s, ''--children''] \<Longrightarrow>
   keeps R (virsh_DeleteSnapshot env c d s wc)"
  by (simp add: virsh_DeleteSnapshot_def keeps_runCmd)

lemma keeps_hostdevs:
  "ok [''dumpxml'', ''--inactive'', d] \<Longrightarrow> keeps R (virsh_HasUSBHostdev env c d v p)"
  "ok [''dumpxml'', ''--inactive'', d] \<Longrightarrow> keeps R (virsh_HasPCIHostdev env c d a)"
  by (simp_all add: virsh_HasUSBHostdev_def virsh_HasPCIHostdev_def keeps_intros run)

lemma keeps_DomainInterfaces:
  "ok [''dumpxml'', ''--inactive'', d] \<Longrightarrow> keeps R (virsh_DomainInterfaces env c d)"
  by (auto simp: virsh_DomainInterfaces_def intro!: keeps_intros run split: option.splits)

lemma keeps_AttachDeviceConfig:
  "(\<And>t. isTmp t \<Longrightarrow> ok [''attach-device'', d, t, ''--config'']) \<Longrightarrow>
   keeps R (virsh_AttachDeviceConfig env c d x)"
  by (simp add: virsh_AttachDeviceConfig_def temp keeps_runCmd)

lemma keeps_AttachDetach:
  assumes "ok [''domstate'', d]"
  shows "(\<And>t s. isTmp t \<Longrightarrow> ok ([''attach-device'', d, t] @ liveConfigFlags s b)) \<Longrightarrow>
      keeps R (virsh_AttachDeviceXML env c d x b)"
    and "(\<And>t s. isTmp t \<Longrightarrow> ok ([''detach-device'', d, t] @ liveConfigFlags s b)) \<Longrightarrow>
      keeps R (virsh_DetachDeviceXML env c d x b)"
  unfolding virsh_AttachDeviceXML_def virsh_DetachDeviceXML_def
  by (intro temp keeps_intros keeps_State keeps_runCmd assms; simp)+

lemma keeps_wrapErr: "keeps R m \<Longrightarrow> keeps R (wrapErr msg m)"
  by (auto simp: wrapErr_def intro!: keeps_intros split: sum.splits)

lemma keeps_SwitchInterface:
  assumes "ok [''detach-interface'', d, t, ''--mac'', mac, ''--config'']"
    and "ok ([''attach-interface'', d, ''network'', net, ''--mac'', mac, ''--config'']
          @ (if model \<noteq> [] then [''--model'', model] else []))"
  shows "keeps R (virsh_SwitchInterface env c d t mac net model)"
  unfolding virsh_SwitchInterface_def
  by (intro keeps_intros keeps_wrapErr keeps_runCmd assms)

lemma keeps_dumps:
  "ok [''dumpxml'', ''--inactive'', ''--security-info'', d] \<Longrightarrow> keeps R (dumpInactive env c d)"
  "ok [''dumpxml'', ''--security-info'', d] \<Longrightarrow> keeps R (dumpLive env c d)"
  by (simp_all add: dumpInactive_def dumpLive_def run)

lemma keeps_readInactive:
  assumes "ok [''dumpxml'', ''--inactive'', ''--security-info'', d]"
  shows "keeps R (virsh_VNCInfo env c d)" "keeps R (virsh_VNCHasPassword env c d)"
    "keeps R (virsh_VNCListenInfo env c d)" "keeps R (virsh_TPMInfo env c d)"
    "keeps R (virsh_FirmwareInfo env c d)"
  using assms
  by (auto simp: virsh_VNCInfo_def virsh_VNCHasPassword_def virsh_VNCListenInfo_def virsh_TPMInfo_def
      virsh_FirmwareInfo_def intro!: keeps_intros keeps_dumps split: prod.splits)

lemma keeps_whenRunning:
  "ok [''domstate'', d] \<Longrightarrow> ok [''dumpxml'', ''--security-info'', d] \<Longrightarrow>
   keeps R (whenRunning env c d off onXML)"
  unfolding whenRunning_def by (intro keeps_intros keeps_State keeps_dumps)

lemma keeps_readLive:
  assumes "ok [''domstate'', d]" "ok [''dumpxml'', ''--security-info'', d]"
  shows "keeps R (virsh_VNCLiveInfo env c d)" "keeps R (virsh_VNCLiveListen env c d)"
    "keeps R (virsh_TPMLiveInfo env c d)"
  unfolding virsh_VNCLiveInfo_def virsh_VNCLiveListen_def virsh_TPMLiveInfo_def
  by (intro keeps_whenRunning assms)+

lemma keeps_redefine:
  assumes "ok [''dumpxml'', ''--inactive'', ''--security-info'', d]" "\<And>t. isTmp t \<Longrightarrow> ok [''define'', t]"
  shows "keeps R (redefine env c d edit)"
proof -
  have "keeps R (case edit out of
         Inl e \<Rightarrow> failAct e
       | Inr modified \<Rightarrow> withTempXML env modified (\<lambda>tmp. runCmd env c [''define'', tmp]))" for out
    by (cases "edit out") (simp_all add: keeps_fail temp keeps_runCmd assms)
  then show ?thesis
    unfolding redefine_def by (intro keeps_intros keeps_dumps assms)
qed

lemma keeps_edits:
  assumes "ok [''dumpxml'', ''--inactive'', ''--security-info'', d]" "\<And>t. isTmp t \<Longrightarrow> ok [''define'', t]"
  shows "keeps R (virsh_SetVNCListen env c d l p)" "keeps R (virsh_SetVNCPassword env c d pw)"
    "keeps R (virsh_SetTPM env c d b)"
  unfolding virsh_SetVNCListen_def virsh_SetVNCPassword_def virsh_SetTPM_def
  by (intro keeps_redefine assms; simp)+

end

subsection \<open>Temporary documents\<close>

lemma os_ops_frame [frame_simps]:
  "hyp (snd (os_Remove env p w)) = hyp w" "cmds (snd (os_Remove env p w)) = cmds w"
  "hyp (snd (os_WriteFile env p x w)) = hyp w" "cmds (snd (os_WriteFile env p x w)) = cmds w"
  "hyp (snd (os_CreateTemp env d pre suf w)) = hyp w" "cmds (snd (os_CreateTemp env d pre suf w)) = cmds w"
  by (auto simp: os_Remove_def os_WriteFile_def os_CreateTemp_def Let_def)

lemma sameFiles_os [intro]:
  "isTmp p \<Longrightarrow> sameFiles w (snd (os_Remove env p w))"
  "isTmp p \<Longrightarrow> sameFiles w (snd (os_WriteFile env p x w))"
  by (auto simp: sameFiles_def os_Remove_def os_WriteFile_def)

lemma isTmp_CreateTemp:
  assumes "os_CreateTemp env ''/tmp'' ''zvmx-'' ''.xml'' w = (Inr n, w')"
  shows "isTmp n"
  using assms by (auto simp: os_CreateTemp_def isTmp_def Let_def prefix_def split: if_splits)

lemma sameFiles_CreateTemp: "sameFiles w (snd (os_CreateTemp env ''/tmp'' ''zvmx-'' ''.xml'' w))"
  by (auto simp: sameFiles_def os_CreateTemp_def isTmp_def Let_def prefix_def)

lemma writeTempXML_effect:
  assumes "writeTempXML env x w = (r, w')"
  shows "sameFiles w w'" "hyp w' = hyp w" "cmds w' = cmds w"
    "r = Inr n \<Longrightarrow> isTmp n \<and> files w' n = Some (Text x)"
proof -
  obtain r1 w1 where c: "os_CreateTemp env ''/tmp'' ''zvmx-'' ''.xml'' w = (r1, w1)"
    by fastforce
  have sc: "sameFiles w w1" "hyp w1 = hyp w" "cmds w1 = cmds w"
    using sameFiles_CreateTemp [of w env] os_ops_frame(5,6) [of env "''/tmp''" "''zvmx-''" "''.xml''" w] c
    by simp_all
  have "sameFiles w w' \<and> hyp w' = hyp w \<and> cmds w' = cmds w
    \<and> (r = Inr n \<longrightarrow> isTmp n \<and> files w' n = Some (Text x))"
  proof (cases r1)
    case Inl
    with assms c sc show ?thesis by (auto simp: writeTempXML_def bindAct_def)
  next
    case (Inr m)
    with c have m: "isTmp m" by (simp add: isTmp_CreateTemp)
    obtain r2 w2 where wr: "os_WriteFile env m (Text x) w1 = (r2, w2)" by fastforce
    have sw: "sameFiles w w2" "hyp w2 = hyp w" "cmds w2 = cmds w"
      using sameFiles_trans [OF sc(1) sameFiles_os(2) [OF m, of w1 env "Text x"]]
        os_ops_frame(3,4) [of env m "Text x" w1] sc wr by simp_all
    have rm: "sameFiles w (snd (os_Remove env m w2))"
      using sameFiles_trans [OF sw(1) sameFiles_os(1) [OF m]] .
    have f: "r2 = Inr u \<Longrightarrow> files w2 m = Some (Text x)" for u
      using wr by (auto simp: os_WriteFile_def split: if_splits)
    from assms c wr Inr sw rm f m show ?thesis
      by (auto simp: writeTempXML_def bindAct_def frame_simps split: sum.splits if_splits)
  qed
  then show "sameFiles w w'" "hyp w' = hyp w" "cmds w' = cmds w"
    "r = Inr n \<Longrightarrow> isTmp n \<and> files w' n = Some (Text x)" by blast+
qed

lemma withTempXML_rule:
  assumes refl: "\<And>w. R w w" and trans: "\<And>a b c. R a b \<Longrightarrow> R b c \<Longrightarrow> R a c"
    and tmp: "\<And>w w'. sameFiles w w' \<Longrightarrow> hyp w' = hyp w \<Longrightarrow> cmds w' = cmds w \<Longrightarrow> R w w'"
    and k: "\<And>t. isTmp t \<Longrightarrow> keeps R (k t)"
  shows "keeps R (withTempXML env x k)"
  unfolding keeps_def
proof
  fix w
  obtain r w1 where wt: "writeTempXML env x w = (r, w1)" by fastforce
  have R1: "R w w1"
    by (rule tmp) (fact writeTempXML_effect [OF wt])+
  show "R w (snd (withTempXML env x k w))"
  proof (cases r)
    case Inl
    with wt R1 show ?thesis by (simp add: withTempXML_def bindAct_def)
  next
    case (Inr t)
    with writeTempXML_effect(4) [OF wt] have t: "isTmp t" by simp
    obtain r2 w2 where k2: "k t w1 = (r2, w2)" by fastforce
    have "R w1 w2" using keepsD [OF k [OF t], of w1] k2 by simp
    moreover have "R w2 (snd (os_Remove env t w2))"
      by (rule tmp) (auto simp: frame_simps t)
    ultimately have "R w (snd (os_Remove env t w2))" using R1 trans by blast
    with wt Inr k2 show ?thesis by (simp add: withTempXML_def bindAct_def removeTemp_def)
  qed
qed

subsection \<open>No method touches a file of the daemon\<close>

lemma sameFiles_Client_run: "keeps sameFiles (Client_run env c args)"
  using files_os_exec [of env "Bin c" args]
  by (auto simp: keeps_def Client_run_def sameFiles_def split: prod.splits exec_result.splits)
    (metis snd_conv)+

interpretation files_frame: virsh_frame sameFiles env c "\<lambda>_. True" for env c
proof unfold_locales
  show "keeps sameFiles (withTempXML env content k)"
    if "\<And>tmp. isTmp tmp \<Longrightarrow> keeps sameFiles (k tmp)"
    for content and k :: "string \<Rightarrow> (unit, 'a world) act"
    using that sameFiles_trans by (intro withTempXML_rule) auto
qed (auto intro: sameFiles_Client_run sameFiles_trans)

subsection \<open>The program a method runs\<close>

lemma cmds_Client_run:
  "\<exists>x. cArgs x = args \<and> cProg x = Bin c \<and> cmds (snd (Client_run env c args w)) = cmds w @ [x]"
  by (auto simp: Client_run_def os_exec_def split: prod.splits exec_result.splits)

lemma cmds_runCmd:
  "\<exists>x. cArgs x = args \<and> cProg x = Bin c \<and> cmds (snd (runCmd env c args w)) = cmds w @ [x]"
  using cmds_Client_run [of args c env w]
  by (auto simp: runCmd_def bindAct_def retAct_def split: prod.splits sum.splits)

subsection \<open>Arguments that cannot be taken for options\<close>

text \<open>
  An argument with a leading dash is one of the options the methods themselves write
  (\<open>knownFlags\<close>), or the value that follows one of the options that take a value.
\<close>

definition valuedFlags :: "string list" where
  "valuedFlags = [''--description'', ''--diskspec'', ''--memspec'', ''--mac'', ''--model'', ''--period'']"

definition knownFlags :: "string list" where
  "knownFlags = [''--all'', ''--name'', ''--disable'', ''--live'', ''--parent'', ''--inactive'',
     ''--security-info'', ''--atomic'', ''--force'', ''--children'', ''--config'', ''--details'']"

abbreviation noDash :: "string \<Rightarrow> bool" where
  "noDash s \<equiv> \<not> HasPrefix s ''-''"

fun safeArgs :: "string list \<Rightarrow> bool" where
  "safeArgs [] \<longleftrightarrow> True"
| "safeArgs [a] \<longleftrightarrow> noDash a \<or> a \<in> set knownFlags"
| "safeArgs (a # b # as) \<longleftrightarrow>
     (if a \<in> set valuedFlags then safeArgs as
      else (noDash a \<or> a \<in> set knownFlags) \<and> safeArgs (b # as))"

text \<open>
  The interface type \<open>detach-interface\<close> is given comes from libvirt's own description of the
  domain, not from a caller.
\<close>

definition safeCmd :: "string list \<Rightarrow> bool" where
  "safeCmd args \<longleftrightarrow>
     (case args of
        cmd # d # t # rest \<Rightarrow>
          if cmd = ''detach-interface'' then noDash d \<and> safeArgs rest else safeArgs args
      | _ \<Rightarrow> safeArgs args)"

text \<open>The other programs the daemon runs.\<close>

definition otherBins :: "string list" where
  "otherBins = [''/usr/bin/lsusb'', ''/usr/bin/lspci'', ''/usr/bin/mount'', ''/usr/bin/umount'']"

definition cmdSafe :: "Client \<Rightarrow> cmd \<Rightarrow> bool" where
  "cmdSafe c x \<longleftrightarrow> (cProg x = Bin c \<longrightarrow> cProg x \<in> set otherBins \<or> safeCmd (cArgs x))"

lemma noDash_notin: "noDash a \<Longrightarrow> a \<notin> set valuedFlags \<and> a \<notin> set knownFlags"
  by (auto simp: valuedFlags_def knownFlags_def)

lemma flags_disjoint: "a \<in> set knownFlags \<Longrightarrow> a \<notin> set valuedFlags"
  by (auto simp: valuedFlags_def knownFlags_def)

lemma safeArgs_rules:
  "noDash a \<Longrightarrow> safeArgs (a # x) = safeArgs x"
  "a \<in> set knownFlags \<Longrightarrow> safeArgs (a # x) = safeArgs x"
  "a \<in> set valuedFlags \<Longrightarrow> safeArgs (a # b # x) = safeArgs x"
  by (cases x; simp add: noDash_notin flags_disjoint)+

declare safeArgs.simps(2,3) [simp del]

lemma flag_facts:
  "''--all'' \<in> set knownFlags" "''--name'' \<in> set knownFlags" "''--disable'' \<in> set knownFlags"
  "''--live'' \<in> set knownFlags" "''--parent'' \<in> set knownFlags" "''--inactive'' \<in> set knownFlags"
  "''--security-info'' \<in> set knownFlags" "''--atomic'' \<in> set knownFlags" "''--force'' \<in> set knownFlags"
  "''--children'' \<in> set knownFlags" "''--config'' \<in> set knownFlags" "''--details'' \<in> set knownFlags"
  "''--description'' \<in> set valuedFlags" "''--diskspec'' \<in> set valuedFlags"
  "''--memspec'' \<in> set valuedFlags" "''--mac'' \<in> set valuedFlags" "''--model'' \<in> set valuedFlags"
  "''--period'' \<in> set valuedFlags"
  by (simp_all add: knownFlags_def valuedFlags_def)

lemmas safe_simps = safeArgs_rules flag_facts liveConfigFlags_def

text \<open>The arguments of every method whose own arguments have no leading dash.\<close>

lemma safe_lists: "safeArgs [''list'', ''--all'', ''--name'']" "safeArgs [''net-list'', ''--all'']"
  by (simp_all add: safe_simps)

lemma safe_domain:
  assumes "noDash d"
  shows "safeArgs [''domstate'', d]" "safeArgs [''dominfo'', d]" "safeArgs [''autostart'', d]"
    "safeArgs [''autostart'', d, ''--disable'']" "safeArgs [''start'', d]" "safeArgs [''shutdown'', d]"
    "safeArgs [''reboot'', d]" "safeArgs [''destroy'', d]" "safeArgs [''suspend'', d]" "safeArgs [''resume'', d]"
    "safeArgs [''dommemstat'', d, ''--period'', v, ''--live'']" "safeArgs [''dumpxml'', d]"
    "safeArgs [''snapshot-list'', d, ''--parent'']" "safeArgs [''snapshot-current'', d, ''--name'']"
    "safeArgs [''domblklist'', ''--details'', d]" "safeArgs [''domstats'', d]"
    "safeArgs [''dumpxml'', ''--inactive'', d]" "safeArgs [''dumpxml'', ''--inactive'', ''--security-info'', d]"
    "safeArgs [''dumpxml'', ''--security-info'', d]"
  using assms by (simp_all add: safe_simps)

lemma safe_named:
  assumes "noDash d" "noDash n"
  shows "safeArgs [''snapshot-revert'', d, n]" "safeArgs [''snapshot-revert'', d, n, ''--force'']"
    "safeArgs [''snapshot-delete'', d, n]" "safeArgs [''snapshot-delete'', d, n, ''--children'']"
    "safeArgs [''attach-device'', d, n, ''--config'']"
    "safeArgs ([''attach-device'', d, n] @ liveConfigFlags s b)"
    "safeArgs ([''detach-device'', d, n] @ liveConfigFlags s b)" "safeArgs [''define'', n]"
    "safeArgs ([''attach-interface'', d, ''network'', n, ''--mac'', mac, ''--config'']
          @ (if model \<noteq> [] then [''--model'', model] else []))"
    "safeArgs ([''snapshot-create-as'', d, n] @ (if desc \<noteq> [] then [''--description'', desc] else []))"
  using assms by (simp_all add: safe_simps)

lemma safe_create:
  assumes "noDash d" "noDash n"
  shows "safeArgs ([''snapshot-create-as'', d, n] @ (if desc \<noteq> [] then [''--description'', desc] else [])
    @ diskSpecs dir st i disks @ memSpec dir st state @ [''--atomic''])"
proof -
  have "safeArgs (diskSpecs dir st i disks @ memSpec dir st state @ [''--atomic''])"
    by (induction disks arbitrary: i) (simp_all add: safe_simps memSpec_def)
  then show ?thesis using assms by (simp add: safe_simps)
qed

lemma safeCmd_args: "safeArgs args \<Longrightarrow> hd args \<noteq> ''detach-interface'' \<Longrightarrow> safeCmd args"
  by (auto simp: safeCmd_def split: list.split)

lemma safeCmd_detach: "noDash d \<Longrightarrow> safeCmd [''detach-interface'', d, t, ''--mac'', mac, ''--config'']"
  by (simp add: safeCmd_def safe_simps)

lemma isTmp_noDash: "isTmp t \<Longrightarrow> noDash t"
  by (auto simp: isTmp_def prefix_def)

text \<open>The programs run between two worlds all satisfy \<open>P\<close>.\<close>

definition cmdsExt :: "(cmd \<Rightarrow> bool) \<Rightarrow> 'h world \<Rightarrow> 'h world \<Rightarrow> bool" where
  "cmdsExt P w w' \<longleftrightarrow> (\<exists>cs. cmds w' = cmds w @ cs \<and> list_all P cs)"

lemma cmdsExt_refl [simp, intro]: "cmdsExt P w w"
  by (simp add: cmdsExt_def)

lemma cmdsExt_same: "cmds w' = cmds w \<Longrightarrow> cmdsExt P w w'"
  by (simp add: cmdsExt_def)

lemma cmdsExt_trans [trans]: "cmdsExt P a b \<Longrightarrow> cmdsExt P b c \<Longrightarrow> cmdsExt P a c"
  by (force simp: cmdsExt_def)

lemma cmdsExt_Client_run:
  "safeCmd args \<Longrightarrow> keeps (cmdsExt (cmdSafe c)) (Client_run env c args)"
  by (auto simp: keeps_def Client_run_def os_exec_def cmdsExt_def cmdSafe_def
      split: prod.splits exec_result.splits)

interpretation args_frame: virsh_frame "cmdsExt (cmdSafe c)" env c safeCmd for env c
proof unfold_locales
  show "keeps (cmdsExt (cmdSafe c)) (withTempXML env content k)"
    if "\<And>tmp. isTmp tmp \<Longrightarrow> keeps (cmdsExt (cmdSafe c)) (k tmp)"
    for c content and k :: "string \<Rightarrow> (unit, 'a world) act"
    using that cmdsExt_trans by (intro withTempXML_rule) (auto intro: cmdsExt_same)
qed (auto intro: cmdsExt_Client_run cmdsExt_trans)

end
