(* ===== verification/Usb.thy ===== *)
theory Usb
  imports Stores VirshProofs
begin

section \<open>USB devices and their pins (internal/usb)\<close>

text \<open>
  \<open>usb.go\<close>: the devices \<open>lsusb\<close> lists and the \<open>hostdev\<close> snippet of one. \<open>store.go\<close>: the pinned
  devices, their store and the reconciler that puts a pinned device back into a domain's
  configuration. The reconciler reaches \<open>virsh\<close> through an interface of the package, here a record
  of calls on the world (\<open>UsbController\<close>); \<open>usb_controller\<close> is the one the daemon passes.
\<close>

record UsbDevice =
  udBus :: string
  udDeviceID :: string
  udVendorID :: string
  udProductID :: string
  udDescription :: string

definition lsusbLine :: "string \<Rightarrow> UsbDevice list" where
  "lsusbLine line =
     (let parts = Fields (TrimSpace line)
      in if TrimSpace line = [] then []
         else if length parts < 6 \<or> parts ! 0 \<noteq> ''Bus'' \<or> parts ! 2 \<noteq> ''Device'' \<or> parts ! 4 \<noteq> ''ID''
         then []
         else (case Cut (parts ! 5) '':'' of
                 None \<Rightarrow> []
               | Some (v, p) \<Rightarrow>
                   [\<lparr>udBus = parts ! 1, udDeviceID = TrimSuffix (parts ! 3) '':'',
                     udVendorID = ToLower v, udProductID = ToLower p,
                     udDescription = (if 6 < length parts then Join (drop 6 parts) '' '' else [])\<rparr>]))"

definition parseLsusb :: "string \<Rightarrow> UsbDevice list" where
  "parseLsusb out = concat (map lsusbLine (Split out nl))"

definition usb_HostSlice :: "'h env \<Rightarrow> string \<Rightarrow> (UsbDevice list option, 'h world) act" where
  "usb_HostSlice env lsusbBin w =
     (case os_exec env (if lsusbBin = [] then ''/usr/bin/lsusb'' else lsusbBin) [] w of
        (ExecFail out err ex, w) \<Rightarrow>
          (Inl (Wrapf ''lsusb: %w (stderr: %s)'' [TrimSpace err] (Errorf ex [])), w)
      | (ExecOK out, w) \<Rightarrow> (Inr (case parseLsusb out of
                 [] \<Rightarrow> None
               | all' \<Rightarrow> Some (filter (\<lambda>d. \<not> IsRootHub (udVendorID d)) all')), w))"

text \<open>The devices in that slice.\<close>

definition usb_HostList :: "'h env \<Rightarrow> string \<Rightarrow> (UsbDevice list, 'h world) act" where
  "usb_HostList env lsusbBin w =
     (case usb_HostSlice env lsusbBin w of
        (Inl e, w) \<Rightarrow> (Inl e, w)
      | (Inr slice, w) \<Rightarrow> (Inr (case slice of None \<Rightarrow> [] | Some ds \<Rightarrow> ds), w))"

definition usb_HostdevXML :: "string \<Rightarrow> string \<Rightarrow> string" where
  "usb_HostdevXML vendorID productID =
     ''<hostdev mode='' @ sq ''subsystem'' @ '' type='' @ sq ''usb'' @ '' managed='' @ sq ''yes'' @ ''>'' @ [nl] @
     ''  <source>'' @ [nl] @
     ''    <vendor id='' @ sq (''0x'' @ ToLower vendorID) @ ''/>'' @ [nl] @
     ''    <product id='' @ sq (''0x'' @ ToLower productID) @ ''/>'' @ [nl] @
     ''  </source>'' @ [nl] @
     ''</hostdev>''"

subsection \<open>The store of pinned devices\<close>

record UsbPin =
  upVM :: string
  upVendorID :: string
  upProductID :: string
  upDescription :: string

definition usb_key :: "UsbPin \<Rightarrow> string" where
  "usb_key p = upVM p @ ''/'' @ upVendorID p @ '':'' @ upProductID p"

definition usb_enc :: "UsbPin \<Rightarrow> json" where
  "usb_enc p =
     JObj ([(''vm'', JStr (upVM p)), (''vendor_id'', JStr (upVendorID p)),
            (''product_id'', JStr (upProductID p))] @ omitStr ''description'' (upDescription p))"

definition usb_fields :: "UsbPin field list" where
  "usb_fields =
     [(''vm'', strField upVM upVM_update), (''vendor_id'', strField upVendorID upVendorID_update),
      (''product_id'', strField upProductID upProductID_update),
      (''description'', strField upDescription upDescription_update)]"

definition usb_dec :: "json \<Rightarrow> UsbPin res" where
  "usb_dec = decodeStruct usb_fields \<lparr>upVM = [], upVendorID = [], upProductID = [], upDescription = []\<rparr>"

interpretation usb_json: json_store usb_key usb_enc usb_dec "\<lambda>_. True"
  by unfold_locales
    (auto simp: usb_dec_def usb_enc_def usb_fields_def decodeStruct_def EqualFold_def ToLower_def
      toLowerChar_def less_eq_char_def strField_def asStr_def omitStr_def)

definition usb_load :: "'h env \<Rightarrow> 'h world \<Rightarrow> UsbPin store \<Rightarrow> UsbPin store res" where
  "usb_load = storeLoad usb_dec usb_key ''usb store decode: %w''"

definition usb_NewStore :: "'h env \<Rightarrow> 'h world \<Rightarrow> string \<Rightarrow> UsbPin store res" where
  "usb_NewStore env w path = usb_load env w \<lparr>Path = path, sdata = []\<rparr>"

definition usb_saveLocked ::
  "UsbPin order \<Rightarrow> 'h env \<Rightarrow> UsbPin store \<Rightarrow> (unit, 'h world) act" where
  "usb_saveLocked ord env s w = storeSave usb_enc ord env s w"

definition usb_All :: "UsbPin order \<Rightarrow> UsbPin store \<Rightarrow> UsbPin list" where
  "usb_All ord s = storeAll ord s"

definition usb_ForVM :: "UsbPin order \<Rightarrow> UsbPin store \<Rightarrow> string \<Rightarrow> UsbPin list" where
  "usb_ForVM ord s vm = filter (\<lambda>p. upVM p = vm) (storeAll ord s)"

definition usb_Add ::
  "UsbPin order \<Rightarrow> 'h env \<Rightarrow> UsbPin \<Rightarrow> UsbPin store \<Rightarrow> 'h world \<Rightarrow> unit res \<times> UsbPin store \<times> 'h world" where
  "usb_Add ord env p s w =
     (let s = s\<lparr>sdata := gput (usb_key p) p (sdata s)\<rparr>
      in case usb_saveLocked ord env s w of (r, w) \<Rightarrow> (r, s, w))"

lemma usb_Add_put: "usb_Add ord env p s w = storePut usb_enc usb_key ord env p s w"
  by (simp add: usb_Add_def usb_saveLocked_def storePut_def)

definition usb_Remove ::
  "UsbPin order \<Rightarrow> 'h env \<Rightarrow> string \<Rightarrow> string \<Rightarrow> string \<Rightarrow> UsbPin store \<Rightarrow> 'h world
    \<Rightarrow> unit res \<times> UsbPin store \<times> 'h world" where
  "usb_Remove ord env vm vendor product s w =
     (let s = s\<lparr>sdata := gdel (usb_key \<lparr>upVM = vm, upVendorID = vendor, upProductID = product, upDescription = []\<rparr>) (sdata s)\<rparr>
      in case usb_saveLocked ord env s w of (r, w) \<Rightarrow> (r, s, w))"

lemma usb_Remove_del:
  "usb_Remove ord env vm vendor product s w = storeDel usb_enc ord env (usb_key \<lparr>upVM = vm, upVendorID = vendor, upProductID = product, upDescription = []\<rparr>) s w"
  by (simp add: usb_Remove_def usb_saveLocked_def storeDel_def)

subsection \<open>The reconciler\<close>

record 'w UsbController =
  ucState :: "string \<Rightarrow> (string, 'w) act"
  ucHasUSBHostdev :: "string \<Rightarrow> string \<Rightarrow> string \<Rightarrow> (bool, 'w) act"
  ucAttachDeviceConfig :: "string \<Rightarrow> string \<Rightarrow> (unit, 'w) act"

definition usb_controller :: "'h env \<Rightarrow> Client \<Rightarrow> 'h world UsbController" where
  "usb_controller env c =
     \<lparr>ucState = virsh_State env c, ucHasUSBHostdev = virsh_HasUSBHostdev env c,
      ucAttachDeviceConfig = virsh_AttachDeviceConfig env c\<rparr>"

text \<open>One round of the loop; every \<open>continue\<close> is an error or nothing to repair.\<close>

definition usb_reconcile1 :: "'w UsbController \<Rightarrow> UsbPin \<Rightarrow> (unit, 'w) act" where
  "usb_reconcile1 vc p =
     bindAct (ucState vc (upVM p)) (\<lambda>_.
     bindAct (ucHasUSBHostdev vc (upVM p) (upVendorID p) (upProductID p)) (\<lambda>has.
       if has then retAct ()
       else ucAttachDeviceConfig vc (upVM p) (usb_HostdevXML (upVendorID p) (upProductID p))))"

definition usb_Reconcile :: "UsbPin order \<Rightarrow> 'w UsbController \<Rightarrow> UsbPin store \<Rightarrow> 'w \<Rightarrow> 'w" where
  "usb_Reconcile ord vc s w = fold (\<lambda>p w. snd (usb_reconcile1 vc p w)) (usb_All ord s) w"

text \<open>
  A tick of \<open>RunReconciler\<close>: what the rest of the system did to the world since the last one, the
  store at the tick and the iteration order.
\<close>

type_synonym ('e, 'w) tick = "('w \<Rightarrow> 'w) \<times> 'e store \<times> 'e order"

definition usb_RunReconciler :: "'w UsbController \<Rightarrow> (UsbPin, 'w) tick list \<Rightarrow> 'w \<Rightarrow> 'w" where
  "usb_RunReconciler vc ticks w = fold (\<lambda>(g, s, ord) w. usb_Reconcile ord vc s (g w)) ticks w"

lemma usb_reconcile1_sameFiles: "keeps sameFiles (usb_reconcile1 (usb_controller env c) p)"
  unfolding usb_reconcile1_def usb_controller_def
  by (auto intro!: files_frame.keeps_intros files_frame.keeps_State files_frame.keeps_hostdevs
      files_frame.keeps_AttachDeviceConfig)

lemma usb_key_eq:
  assumes "CHR ''/'' \<notin> set (upVM p)" "CHR ''/'' \<notin> set (upVM q)"
    "CHR '':'' \<notin> set (upVendorID p)" "CHR '':'' \<notin> set (upVendorID q)"
  shows "usb_key p = usb_key q \<longleftrightarrow>
    upVM p = upVM q \<and> upVendorID p = upVendorID q \<and> upProductID p = upProductID q"
  using assms by (simp add: usb_key_def byte_unique)

lemma usb_HostList_eq:
  "usb_HostList env lsusbBin w =
     (case os_exec env (if lsusbBin = [] then ''/usr/bin/lsusb'' else lsusbBin) [] w of
        (ExecFail out err ex, w) \<Rightarrow>
          (Inl (Wrapf ''lsusb: %w (stderr: %s)'' [TrimSpace err] (Errorf ex [])), w)
      | (ExecOK out, w) \<Rightarrow> (Inr (filter (\<lambda>d. \<not> IsRootHub (udVendorID d)) (parseLsusb out)), w))"
  by (auto simp: usb_HostList_def usb_HostSlice_def split: prod.split exec_result.split list.split)

lemma lsusb_roothub_filtered:
  "usb_HostList env b w = (Inr ds, w') \<Longrightarrow> d \<in> set ds \<Longrightarrow> \<not> IsRootHub (udVendorID d)"
  by (auto simp: usb_HostList_eq split: prod.splits exec_result.splits)

end
