(* ===== verification/Pci.thy ===== *)
theory Pci
  imports Stores VirshProofs
begin

section \<open>PCI devices and their pins (internal/pci)\<close>

text \<open>
  \<open>pci.go\<close>: the devices \<open>lspci\<close> lists, with the IOMMU group \<open>sysfs\<close> gives (the argument \<open>readlink\<close> is
  \<open>os.Readlink\<close>), and the \<open>hostdev\<close> snippet of an address. \<open>store.go\<close>: the pinned devices, their
  store and its reconciler, which reaches \<open>virsh\<close> through \<open>PciController\<close>.
\<close>

record PciDevice =
  pdAddress :: string
  pdVendorID :: string
  pdDeviceID :: string
  pdClass :: string
  pdClassName :: string
  pdDescription :: string
  pdDriver :: string
  pdIOMMUGroup :: string
  pdPassable :: bool

definition zeroPciDevice :: PciDevice where
  "zeroPciDevice =
     \<lparr>pdAddress = [], pdVendorID = [], pdDeviceID = [], pdClass = [], pdClassName = [],
      pdDescription = [], pdDriver = [], pdIOMMUGroup = [], pdPassable = False\<rparr>"

definition lastBracketID :: "string \<Rightarrow> string" where
  "lastBracketID s =
     (case CutLast s '']'' of
        None \<Rightarrow> []
      | Some (a, _) \<Rightarrow> (case CutLast a ''['' of None \<Rightarrow> [] | Some (_, i) \<Rightarrow> i))"

definition stripLastBracket :: "string \<Rightarrow> string" where
  "stripLastBracket s =
     (case CutLast s '']'' of
        None \<Rightarrow> TrimSpace s
      | Some (a, _) \<Rightarrow> (case CutLast a ''['' of None \<Rightarrow> TrimSpace s | Some (d, _) \<Rightarrow> TrimSpace d))"

text \<open>The variables of the loop of \<open>parseLspci\<close>: the devices so far and the current record.\<close>

type_synonym lspciState = "PciDevice list \<times> PciDevice"

definition lspciFlush :: "lspciState \<Rightarrow> lspciState" where
  "lspciFlush st =
     (case st of (devs, cur) \<Rightarrow>
        (if pdAddress cur \<noteq> []
         then devs @ [cur\<lparr>pdDescription := TrimSpace (pdDescription cur),
                          pdPassable := isPassable (pdClass cur)\<rparr>]
         else devs, zeroPciDevice))"

definition lspciField :: "string \<Rightarrow> string \<Rightarrow> PciDevice \<Rightarrow> PciDevice" where
  "lspciField key val cur =
     (if key = ''Slot'' then cur\<lparr>pdAddress := val\<rparr>
      else if key = ''Class'' then
        cur\<lparr>pdClassName := stripLastBracket val, pdClass := lastBracketID val\<rparr>
      else if key = ''Vendor'' then
        cur\<lparr>pdDescription := stripLastBracket val, pdVendorID := lastBracketID val\<rparr>
      else if key = ''Device'' then
        cur\<lparr>pdDescription := TrimSpace (pdDescription cur @ '' '' @ stripLastBracket val),
            pdDeviceID := lastBracketID val\<rparr>
      else if key = ''Driver'' then cur\<lparr>pdDriver := val\<rparr>
      else cur)"

definition lspciLine :: "string \<Rightarrow> lspciState \<Rightarrow> lspciState" where
  "lspciLine line st =
     (if TrimSpace line = [] then lspciFlush st
      else (case Cut line '':'' of
              None \<Rightarrow> st
            | Some (key, val) \<Rightarrow> (fst st, lspciField key (TrimSpace val) (snd st))))"

definition parseLspci :: "string \<Rightarrow> PciDevice list" where
  "parseLspci out = fst (lspciFlush (fold lspciLine (Split out nl) ([], zeroPciDevice)))"

definition iommuGroup :: "(string \<Rightarrow> string option) \<Rightarrow> string \<Rightarrow> string" where
  "iommuGroup readlink address =
     (case readlink (JoinPath [''/sys/bus/pci/devices'', address, ''iommu_group'']) of
        None \<Rightarrow> []
      | Some link \<Rightarrow> Base link)"

definition pci_HostList ::
  "'h env \<Rightarrow> (string \<Rightarrow> string option) \<Rightarrow> string \<Rightarrow> (PciDevice list, 'h world) act" where
  "pci_HostList env readlink lspciBin w =
     (case os_exec env (if lspciBin = [] then ''/usr/bin/lspci'' else lspciBin) [''-Dvmmnnk''] w of
        (ExecFail out err ex, w) \<Rightarrow>
          (Inl (Wrapf ''lspci: %w (stderr: %s)'' [TrimSpace err] (Errorf ex [])), w)
      | (ExecOK out, w) \<Rightarrow>
          (Inr (map (\<lambda>d. d\<lparr>pdIOMMUGroup := iommuGroup readlink (pdAddress d)\<rparr>) (parseLspci out)), w))"

definition pci_HostdevXML :: "string \<Rightarrow> string res" where
  "pci_HostdevXML address =
     (if \<not> ValidAddress address then Inl (Errorf ''invalid pci address %q'' [address])
      else
        (let (dm, rest) = the (Cut address '':'');
             (bus, sf) = the (Cut rest '':'');
             (slot, f) = the (Cut sf ''.'')
         in Inr
           (''<hostdev mode='' @ sq ''subsystem'' @ '' type='' @ sq ''pci'' @ '' managed='' @ sq ''yes'' @ ''>'' @ [nl] @
            ''  <source>'' @ [nl] @
            ''    <address domain='' @ sq (''0x'' @ ToLower dm) @ '' bus='' @ sq (''0x'' @ ToLower bus)
              @ '' slot='' @ sq (''0x'' @ ToLower slot) @ '' function='' @ sq (''0x'' @ ToLower f) @ ''/>'' @ [nl] @
            ''  </source>'' @ [nl] @
            ''</hostdev>'')))"

subsection \<open>The store of pinned devices\<close>

record PciPin =
  ppVM :: string
  ppAddress :: string
  ppDescription :: string

definition pci_key :: "PciPin \<Rightarrow> string" where
  "pci_key p = ppVM p @ ''/'' @ ppAddress p"

definition pci_enc :: "PciPin \<Rightarrow> json" where
  "pci_enc p =
     JObj ([(''vm'', JStr (ppVM p)), (''address'', JStr (ppAddress p))]
       @ omitStr ''description'' (ppDescription p))"

definition pci_fields :: "PciPin field list" where
  "pci_fields =
     [(''vm'', strField ppVM ppVM_update), (''address'', strField ppAddress ppAddress_update),
      (''description'', strField ppDescription ppDescription_update)]"

definition pci_dec :: "json \<Rightarrow> PciPin res" where
  "pci_dec = decodeStruct pci_fields \<lparr>ppVM = [], ppAddress = [], ppDescription = []\<rparr>"

interpretation pci_json: json_store pci_key pci_enc pci_dec "\<lambda>_. True"
  by unfold_locales
    (auto simp: pci_dec_def pci_enc_def pci_fields_def decodeStruct_def EqualFold_def ToLower_def
      toLowerChar_def less_eq_char_def strField_def asStr_def omitStr_def)

definition pci_load :: "'h env \<Rightarrow> 'h world \<Rightarrow> PciPin store \<Rightarrow> PciPin store res" where
  "pci_load = storeLoad pci_dec pci_key ''pci store decode: %w''"

definition pci_NewStore :: "'h env \<Rightarrow> 'h world \<Rightarrow> string \<Rightarrow> PciPin store res" where
  "pci_NewStore env w path = pci_load env w \<lparr>Path = path, sdata = []\<rparr>"

definition pci_saveLocked ::
  "PciPin order \<Rightarrow> 'h env \<Rightarrow> PciPin store \<Rightarrow> (unit, 'h world) act" where
  "pci_saveLocked ord env s w = storeSave pci_enc ord env s w"

definition pci_All :: "PciPin order \<Rightarrow> PciPin store \<Rightarrow> PciPin list" where
  "pci_All ord s = storeAll ord s"

definition pci_ForVM :: "PciPin order \<Rightarrow> PciPin store \<Rightarrow> string \<Rightarrow> PciPin list" where
  "pci_ForVM ord s vm = filter (\<lambda>p. ppVM p = vm) (storeAll ord s)"

definition pci_Add ::
  "PciPin order \<Rightarrow> 'h env \<Rightarrow> PciPin \<Rightarrow> PciPin store \<Rightarrow> 'h world \<Rightarrow> unit res \<times> PciPin store \<times> 'h world" where
  "pci_Add ord env p s w =
     (let s = s\<lparr>sdata := gput (pci_key p) p (sdata s)\<rparr>
      in case pci_saveLocked ord env s w of (r, w) \<Rightarrow> (r, s, w))"

lemma pci_Add_put: "pci_Add ord env p s w = storePut pci_enc pci_key ord env p s w"
  by (simp add: pci_Add_def pci_saveLocked_def storePut_def)

definition pci_Remove ::
  "PciPin order \<Rightarrow> 'h env \<Rightarrow> string \<Rightarrow> string \<Rightarrow> PciPin store \<Rightarrow> 'h world
    \<Rightarrow> unit res \<times> PciPin store \<times> 'h world" where
  "pci_Remove ord env vm address s w =
     (let s = s\<lparr>sdata := gdel (pci_key \<lparr>ppVM = vm, ppAddress = address, ppDescription = []\<rparr>) (sdata s)\<rparr>
      in case pci_saveLocked ord env s w of (r, w) \<Rightarrow> (r, s, w))"

lemma pci_Remove_del:
  "pci_Remove ord env vm address s w = storeDel pci_enc ord env (pci_key \<lparr>ppVM = vm, ppAddress = address, ppDescription = []\<rparr>) s w"
  by (simp add: pci_Remove_def pci_saveLocked_def storeDel_def)

subsection \<open>The reconciler\<close>

record 'w PciController =
  pcState :: "string \<Rightarrow> (string, 'w) act"
  pcHasPCIHostdev :: "string \<Rightarrow> string \<Rightarrow> (bool, 'w) act"
  pcAttachDeviceConfig :: "string \<Rightarrow> string \<Rightarrow> (unit, 'w) act"

definition pci_controller :: "'h env \<Rightarrow> Client \<Rightarrow> 'h world PciController" where
  "pci_controller env c =
     \<lparr>pcState = virsh_State env c, pcHasPCIHostdev = virsh_HasPCIHostdev env c,
      pcAttachDeviceConfig = virsh_AttachDeviceConfig env c\<rparr>"

definition pci_reconcile1 :: "'w PciController \<Rightarrow> PciPin \<Rightarrow> (unit, 'w) act" where
  "pci_reconcile1 vc p =
     bindAct (pcState vc (ppVM p)) (\<lambda>_.
     bindAct (pcHasPCIHostdev vc (ppVM p) (ppAddress p)) (\<lambda>has.
       if has then retAct ()
       else (case pci_HostdevXML (ppAddress p) of
               Inl e \<Rightarrow> failAct e
             | Inr xml \<Rightarrow> pcAttachDeviceConfig vc (ppVM p) xml)))"

definition pci_Reconcile :: "PciPin order \<Rightarrow> 'w PciController \<Rightarrow> PciPin store \<Rightarrow> 'w \<Rightarrow> 'w" where
  "pci_Reconcile ord vc s w = fold (\<lambda>p w. snd (pci_reconcile1 vc p w)) (pci_All ord s) w"

text \<open>A tick: what the rest of the system did since the last one, the store and the order.\<close>

definition pci_RunReconciler ::
  "'w PciController \<Rightarrow> (('w \<Rightarrow> 'w) \<times> PciPin store \<times> PciPin order) list \<Rightarrow> 'w \<Rightarrow> 'w" where
  "pci_RunReconciler vc ticks w = fold (\<lambda>(g, s, ord) w. pci_Reconcile ord vc s (g w)) ticks w"

lemma pci_reconcile1_sameFiles: "keeps sameFiles (pci_reconcile1 (pci_controller env c) p)"
  unfolding pci_reconcile1_def pci_controller_def
  by (auto intro!: files_frame.keeps_intros files_frame.keeps_State files_frame.keeps_hostdevs
      files_frame.keeps_AttachDeviceConfig split: sum.splits)

lemma pci_HostdevXML_ok_iff: "is_ok (pci_HostdevXML a) \<longleftrightarrow> ValidAddress a"
  by (simp add: pci_HostdevXML_def Let_def split: prod.splits)

lemma pci_key_eq:
  assumes "CHR ''/'' \<notin> set (ppVM p)" "CHR ''/'' \<notin> set (ppVM q)"
  shows "pci_key p = pci_key q \<longleftrightarrow> ppVM p = ppVM q \<and> ppAddress p = ppAddress q"
  using assms by (simp add: pci_key_def byte_unique)

definition assessed :: "PciDevice \<Rightarrow> bool" where
  "assessed d \<longleftrightarrow> pdAddress d \<noteq> [] \<and> pdPassable d = isPassable (pdClass d)"

lemma lspciFlush_assessed: "list_all assessed (fst st) \<Longrightarrow> list_all assessed (fst (lspciFlush st))"
  by (auto simp: lspciFlush_def assessed_def split: prod.splits)

lemma lspciLine_assessed: "list_all assessed (fst st) \<Longrightarrow> list_all assessed (fst (lspciLine l st))"
  by (simp add: lspciLine_def lspciFlush_assessed split: option.split prod.split)

lemma fold_lspciLine_assessed:
  "list_all assessed (fst st) \<Longrightarrow> list_all assessed (fst (fold lspciLine ls st))"
  by (induction ls arbitrary: st) (simp_all add: lspciLine_assessed)

lemma parseLspci_assessed: "list_all assessed (parseLspci out)"
  unfolding parseLspci_def by (intro lspciFlush_assessed fold_lspciLine_assessed) simp

end
