(* ===== verification/VncStore.thy ===== *)
theory VncStore
  imports Stores VirshProofs
begin

section \<open>Pinned VNC consoles (internal/vnc)\<close>

text \<open>
  The password, listen address and port an operator asked for, per domain, and the reconciler
  that writes them back when a domain's configuration has lost them. The file holds plaintext
  passwords and is written with mode 0600; file modes are not modelled.
\<close>

record VncEntry =
  veVM :: string
  vePassword :: string
  veListen :: string
  vePort :: int

definition vnc_enc :: "VncEntry \<Rightarrow> json" where
  "vnc_enc e =
     JObj ([(''vm'', JStr (veVM e)), (''password'', JStr (vePassword e))]
       @ omitStr ''listen'' (veListen e) @ omitInt ''port'' (vePort e))"

definition vnc_fields :: "VncEntry field list" where
  "vnc_fields =
     [(''vm'', strField veVM veVM_update), (''password'', strField vePassword vePassword_update),
      (''listen'', strField veListen veListen_update), (''port'', intField vePort vePort_update)]"

definition vnc_dec :: "json \<Rightarrow> VncEntry res" where
  "vnc_dec = decodeStruct vnc_fields \<lparr>veVM = [], vePassword = [], veListen = [], vePort = 0\<rparr>"

definition vnc_wf :: "VncEntry \<Rightarrow> bool" where
  "vnc_wf e \<longleftrightarrow> minInt64 \<le> vePort e \<and> vePort e \<le> maxInt64"

interpretation vnc_json: json_store veVM vnc_enc vnc_dec vnc_wf
  by unfold_locales
    (auto simp: vnc_dec_def vnc_enc_def vnc_fields_def decodeStruct_def EqualFold_def ToLower_def
      toLowerChar_def less_eq_char_def strField_def asStr_def omitStr_def intField_def asInt_def
      omitInt_def vnc_wf_def)

definition vnc_load :: "'h env \<Rightarrow> 'h world \<Rightarrow> VncEntry store \<Rightarrow> VncEntry store res" where
  "vnc_load = storeLoad vnc_dec veVM ''vnc store decode: %w''"

definition vnc_NewStore :: "'h env \<Rightarrow> 'h world \<Rightarrow> string \<Rightarrow> VncEntry store res" where
  "vnc_NewStore env w path = vnc_load env w \<lparr>Path = path, sdata = []\<rparr>"

definition vnc_saveLocked ::
  "VncEntry order \<Rightarrow> 'h env \<Rightarrow> VncEntry store \<Rightarrow> (unit, 'h world) act" where
  "vnc_saveLocked ord env s w = storeSave vnc_enc ord env s w"

definition vnc_All :: "VncEntry order \<Rightarrow> VncEntry store \<Rightarrow> VncEntry list" where
  "vnc_All ord s = storeAll ord s"

text \<open>The zero value of a missing entry and the flag are one option.\<close>

definition vnc_Get :: "VncEntry store \<Rightarrow> string \<Rightarrow> VncEntry option" where
  "vnc_Get s vm = gget vm (sdata s)"

definition vnc_Set ::
  "VncEntry order \<Rightarrow> 'h env \<Rightarrow> VncEntry \<Rightarrow> VncEntry store \<Rightarrow> 'h world
    \<Rightarrow> unit res \<times> VncEntry store \<times> 'h world" where
  "vnc_Set ord env e s w =
     (let s = s\<lparr>sdata := gput (veVM e) e (sdata s)\<rparr>
      in case vnc_saveLocked ord env s w of (r, w) \<Rightarrow> (r, s, w))"

lemma vnc_Set_put: "vnc_Set ord env e s w = storePut vnc_enc veVM ord env e s w"
  by (simp add: vnc_Set_def vnc_saveLocked_def storePut_def)

definition vnc_Remove ::
  "VncEntry order \<Rightarrow> 'h env \<Rightarrow> string \<Rightarrow> VncEntry store \<Rightarrow> 'h world
    \<Rightarrow> unit res \<times> VncEntry store \<times> 'h world" where
  "vnc_Remove ord env vm s w =
     (let s = s\<lparr>sdata := gdel vm (sdata s)\<rparr>
      in case vnc_saveLocked ord env s w of (r, w) \<Rightarrow> (r, s, w))"

lemma vnc_Remove_del:
  "vnc_Remove ord env vm s w = storeDel vnc_enc ord env vm s w"
  by (simp add: vnc_Remove_def vnc_saveLocked_def storeDel_def)

subsection \<open>The reconciler\<close>

record 'w VncController =
  vcState :: "string \<Rightarrow> (string, 'w) act"
  vcVNCHasPassword :: "string \<Rightarrow> (bool, 'w) act"
  vcSetVNCPassword :: "string \<Rightarrow> string \<Rightarrow> (unit, 'w) act"
  vcVNCListenInfo :: "string \<Rightarrow> (string \<times> int \<times> bool, 'w) act"
  vcSetVNCListen :: "string \<Rightarrow> string \<Rightarrow> int \<Rightarrow> (unit, 'w) act"

definition vnc_controller :: "'h env \<Rightarrow> Client \<Rightarrow> 'h world VncController" where
  "vnc_controller env c =
     \<lparr>vcState = virsh_State env c, vcVNCHasPassword = virsh_VNCHasPassword env c,
      vcSetVNCPassword = virsh_SetVNCPassword env c, vcVNCListenInfo = virsh_VNCListenInfo env c,
      vcSetVNCListen = virsh_SetVNCListen env c\<rparr>"

text \<open>Whether the configuration still declares what the entry asks for.\<close>

definition portDrifted :: "VncEntry \<Rightarrow> int \<Rightarrow> bool \<Rightarrow> bool" where
  "portDrifted e port autoport \<longleftrightarrow>
     (0 < vePort e \<and> (autoport \<or> port \<noteq> vePort e)) \<or> (vePort e \<le> 0 \<and> \<not> autoport)"

definition listenKept :: "VncEntry \<Rightarrow> string \<times> int \<times> bool \<Rightarrow> bool" where
  "listenKept e i =
     (case i of (listen, port, autoport) \<Rightarrow> listen = veListen e \<and> \<not> portDrifted e port autoport)"

text \<open>An entry without a password has none to check.\<close>

definition vnc_checkPassword :: "'w VncController \<Rightarrow> VncEntry \<Rightarrow> (bool, 'w) act" where
  "vnc_checkPassword vc e =
     (if vePassword e \<noteq> [] then vcVNCHasPassword vc (veVM e) else retAct True)"

definition vnc_repairListen :: "'w VncController \<Rightarrow> VncEntry \<Rightarrow> (unit, 'w) act" where
  "vnc_repairListen vc e =
     (if veListen e = [] then retAct ()
      else bindAct (vcVNCListenInfo vc (veVM e)) (\<lambda>i.
             if listenKept e i then retAct ()
             else vcSetVNCListen vc (veVM e) (veListen e) (vePort e)))"

definition vnc_reconcile1 :: "'w VncController \<Rightarrow> VncEntry \<Rightarrow> (unit, 'w) act" where
  "vnc_reconcile1 vc e =
     bindAct (vcState vc (veVM e)) (\<lambda>_.
     bindAct (vnc_checkPassword vc e) (\<lambda>has.
     bindAct (if has then retAct () else vcSetVNCPassword vc (veVM e) (vePassword e)) (\<lambda>_.
     vnc_repairListen vc e)))"

definition vnc_Reconcile :: "VncEntry order \<Rightarrow> 'w VncController \<Rightarrow> VncEntry store \<Rightarrow> 'w \<Rightarrow> 'w" where
  "vnc_Reconcile ord vc s w = fold (\<lambda>e w. snd (vnc_reconcile1 vc e w)) (vnc_All ord s) w"

text \<open>A tick: what the rest of the system did since the last one, the store and the order.\<close>

definition vnc_RunReconciler ::
  "'w VncController \<Rightarrow> (('w \<Rightarrow> 'w) \<times> VncEntry store \<times> VncEntry order) list \<Rightarrow> 'w \<Rightarrow> 'w" where
  "vnc_RunReconciler vc ticks w = fold (\<lambda>(g, s, ord) w. vnc_Reconcile ord vc s (g w)) ticks w"

lemma vnc_reconcile1_sameFiles: "keeps sameFiles (vnc_reconcile1 (vnc_controller env c) e)"
  unfolding vnc_reconcile1_def vnc_controller_def vnc_checkPassword_def vnc_repairListen_def
  by (auto intro!: files_frame.keeps_intros files_frame.keeps_State files_frame.keeps_readInactive
      files_frame.keeps_edits)

end
