(* ===== verification/TpmStore.thy ===== *)
theory TpmStore
  imports Stores VirshProofs
begin

section \<open>Pinned TPM devices (internal/tpm)\<close>

text \<open>
  The set of domains that keep a TPM device, a Go map to \<open>true\<close> whose entries are their own keys,
  and the reconciler that adds the device back.
\<close>

definition tpm_key :: "string \<Rightarrow> string" where
  "tpm_key vm = vm"

definition tpm_enc :: "string \<Rightarrow> json" where
  "tpm_enc vm = JStr vm"

text \<open>\<open>null\<close> decodes into the empty string of a fresh slice element.\<close>

definition tpm_dec :: "json \<Rightarrow> string res" where
  "tpm_dec j = asStr j []"

interpretation tpm_json: json_store tpm_key tpm_enc tpm_dec "\<lambda>_. True"
  by unfold_locales (simp add: tpm_enc_def tpm_dec_def asStr_def)

definition tpm_load :: "'h env \<Rightarrow> 'h world \<Rightarrow> string store \<Rightarrow> string store res" where
  "tpm_load = storeLoad tpm_dec tpm_key ''tpm store decode: %w''"

definition tpm_NewStore :: "'h env \<Rightarrow> 'h world \<Rightarrow> string \<Rightarrow> string store res" where
  "tpm_NewStore env w path = tpm_load env w \<lparr>Path = path, sdata = []\<rparr>"

definition tpm_Pinned :: "string store \<Rightarrow> string \<Rightarrow> bool" where
  "tpm_Pinned s vm \<longleftrightarrow> gget vm (sdata s) \<noteq> None"

definition tpm_saveLocked ::
  "string order \<Rightarrow> 'h env \<Rightarrow> string store \<Rightarrow> (unit, 'h world) act" where
  "tpm_saveLocked ord env s w = storeSave tpm_enc ord env s w"

definition tpm_All :: "string order \<Rightarrow> string store \<Rightarrow> string list" where
  "tpm_All ord s = storeAll ord s"

definition tpm_Pin ::
  "string order \<Rightarrow> 'h env \<Rightarrow> string \<Rightarrow> string store \<Rightarrow> 'h world \<Rightarrow> unit res \<times> string store \<times> 'h world" where
  "tpm_Pin ord env vm s w =
     (let s = s\<lparr>sdata := gput (tpm_key vm) vm (sdata s)\<rparr>
      in case tpm_saveLocked ord env s w of (r, w) \<Rightarrow> (r, s, w))"

lemma tpm_Pin_put: "tpm_Pin ord env vm s w = storePut tpm_enc tpm_key ord env vm s w"
  by (simp add: tpm_Pin_def tpm_saveLocked_def storePut_def)

definition tpm_Unpin ::
  "string order \<Rightarrow> 'h env \<Rightarrow> string \<Rightarrow> string store \<Rightarrow> 'h world \<Rightarrow> unit res \<times> string store \<times> 'h world" where
  "tpm_Unpin ord env vm s w =
     (let s = s\<lparr>sdata := gdel vm (sdata s)\<rparr>
      in case tpm_saveLocked ord env s w of (r, w) \<Rightarrow> (r, s, w))"

lemma tpm_Unpin_del:
  "tpm_Unpin ord env vm s w = storeDel tpm_enc ord env vm s w"
  by (simp add: tpm_Unpin_def tpm_saveLocked_def storeDel_def)

subsection \<open>The reconciler\<close>

record 'w TpmController =
  tcState :: "string \<Rightarrow> (string, 'w) act"
  tcTPMInfo :: "string \<Rightarrow> (bool \<times> string \<times> string, 'w) act"
  tcSetTPM :: "string \<Rightarrow> bool \<Rightarrow> (unit, 'w) act"

definition tpm_controller :: "'h env \<Rightarrow> Client \<Rightarrow> 'h world TpmController" where
  "tpm_controller env c =
     \<lparr>tcState = virsh_State env c, tcTPMInfo = virsh_TPMInfo env c, tcSetTPM = virsh_SetTPM env c\<rparr>"

definition tpm_reconcile1 :: "'w TpmController \<Rightarrow> string \<Rightarrow> (unit, 'w) act" where
  "tpm_reconcile1 vc vm =
     bindAct (tcState vc vm) (\<lambda>_.
     bindAct (tcTPMInfo vc vm) (\<lambda>(present, _, _).
       if present then retAct () else tcSetTPM vc vm True))"

definition tpm_Reconcile :: "string order \<Rightarrow> 'w TpmController \<Rightarrow> string store \<Rightarrow> 'w \<Rightarrow> 'w" where
  "tpm_Reconcile ord vc s w = fold (\<lambda>vm w. snd (tpm_reconcile1 vc vm w)) (tpm_All ord s) w"

text \<open>A tick: what the rest of the system did since the last one, the store and the order.\<close>

definition tpm_RunReconciler ::
  "'w TpmController \<Rightarrow> (('w \<Rightarrow> 'w) \<times> string store \<times> string order) list \<Rightarrow> 'w \<Rightarrow> 'w" where
  "tpm_RunReconciler vc ticks w = fold (\<lambda>(g, s, ord) w. tpm_Reconcile ord vc s (g w)) ticks w"

lemma tpm_reconcile1_sameFiles: "keeps sameFiles (tpm_reconcile1 (tpm_controller env c) vm)"
  unfolding tpm_reconcile1_def tpm_controller_def
  by (auto intro!: files_frame.keeps_intros files_frame.keeps_State files_frame.keeps_readInactive
      files_frame.keeps_edits split: prod.splits)

end
