(* ===== verification/Autostart.thy ===== *)
theory Autostart
  imports Stores VirshProofs
begin

section \<open>Boot order and the keep-alive watchdog (internal/autostart)\<close>

text \<open>
  The autostart entries, their store, \<open>Run\<close>, which starts the enabled domains once per boot, and
  the tick of \<open>RunWatchdog\<close>. Time passes only in the host: \<open>time.Sleep\<close> is the argument \<open>sleep\<close>, a
  function on the state behind the external programs; the text of the run marker is the argument
  \<open>stamp\<close>. \<open>sort.Slice\<close> is not stable, so equal entries come in any order: the order argument
  of the store, which is arbitrary, decides before the stable sort here.
\<close>

record AutoEntry =
  aeName :: string
  aeEnabled :: bool
  aeOrder :: int
  aeDelayS :: int
  aeWatchdog :: bool

definition zeroAutoEntry :: AutoEntry where
  "zeroAutoEntry = \<lparr>aeName = [], aeEnabled = False, aeOrder = 0, aeDelayS = 0, aeWatchdog = False\<rparr>"

definition auto_enc :: "AutoEntry \<Rightarrow> json" where
  "auto_enc e =
     JObj [(''name'', JStr (aeName e)), (''enabled'', JBool (aeEnabled e)), (''order'', JInt (aeOrder e)),
           (''delay_s'', JInt (aeDelayS e)), (''watchdog'', JBool (aeWatchdog e))]"

definition auto_fields :: "AutoEntry field list" where
  "auto_fields =
     [(''name'', strField aeName aeName_update), (''enabled'', boolField aeEnabled aeEnabled_update),
      (''order'', intField aeOrder aeOrder_update), (''delay_s'', intField aeDelayS aeDelayS_update),
      (''watchdog'', boolField aeWatchdog aeWatchdog_update)]"

definition auto_dec :: "json \<Rightarrow> AutoEntry res" where
  "auto_dec = decodeStruct auto_fields zeroAutoEntry"

definition is_int64 :: "int \<Rightarrow> bool" where
  "is_int64 i \<longleftrightarrow> minInt64 \<le> i \<and> i \<le> maxInt64"

definition auto_wf :: "AutoEntry \<Rightarrow> bool" where
  "auto_wf e \<longleftrightarrow> is_int64 (aeOrder e) \<and> is_int64 (aeDelayS e)"

interpretation auto_json: json_store aeName auto_enc auto_dec auto_wf
  by unfold_locales
    (auto simp: auto_dec_def auto_enc_def auto_fields_def decodeStruct_def EqualFold_def ToLower_def
      toLowerChar_def less_eq_char_def strField_def asStr_def intField_def asInt_def boolField_def
      asBool_def zeroAutoEntry_def auto_wf_def is_int64_def)

definition auto_load :: "'h env \<Rightarrow> 'h world \<Rightarrow> AutoEntry store \<Rightarrow> AutoEntry store res" where
  "auto_load = storeLoad auto_dec aeName ''autostart store decode: %w''"

definition auto_New :: "'h env \<Rightarrow> 'h world \<Rightarrow> string \<Rightarrow> AutoEntry store res" where
  "auto_New env w path = auto_load env w \<lparr>Path = path, sdata = []\<rparr>"

definition byOrder :: "AutoEntry order \<Rightarrow> AutoEntry order" where
  "byOrder ord m = sort_key (\<lambda>(_, e). aeOrder e) (ord m)"

definition auto_saveLocked ::
  "AutoEntry order \<Rightarrow> 'h env \<Rightarrow> AutoEntry store \<Rightarrow> (unit, 'h world) act" where
  "auto_saveLocked ord env s w = storeSave auto_enc (byOrder ord) env s w"

definition auto_All :: "AutoEntry order \<Rightarrow> AutoEntry store \<Rightarrow> AutoEntry list" where
  "auto_All ord s = storeAll (byOrder ord) s"

definition auto_Get :: "AutoEntry store \<Rightarrow> string \<Rightarrow> AutoEntry" where
  "auto_Get s name =
     (case gget name (sdata s) of Some e \<Rightarrow> e | None \<Rightarrow> zeroAutoEntry\<lparr>aeName := name\<rparr>)"

definition auto_Set ::
  "AutoEntry order \<Rightarrow> 'h env \<Rightarrow> AutoEntry \<Rightarrow> AutoEntry store \<Rightarrow> 'h world
    \<Rightarrow> AutoEntry res \<times> AutoEntry store \<times> 'h world" where
  "auto_Set ord env e s w =
     (if aeName e = [] then (Inl (Errorf ''entry.Name required'' []), s, w)
      else
        (let e = (if aeDelayS e < 0 then e\<lparr>aeDelayS := 0\<rparr> else e);
             s = s\<lparr>sdata := gput (aeName e) e (sdata s)\<rparr>
         in case auto_saveLocked ord env s w of
              (Inl x, w) \<Rightarrow> (Inl x, s, w)
            | (Inr _, w) \<Rightarrow> (Inr e, s, w)))"

lemma auto_Set_put:
  "auto_Set ord env e s w =
     (if aeName e = [] then (Inl (Errorf ''entry.Name required'' []), s, w)
      else
        (let e = (if aeDelayS e < 0 then e\<lparr>aeDelayS := 0\<rparr> else e)
         in case storePut auto_enc aeName (byOrder ord) env e s w of
              (Inl x, s, w) \<Rightarrow> (Inl x, s, w)
            | (Inr _, s, w) \<Rightarrow> (Inr e, s, w)))"
  by (simp add: auto_Set_def auto_saveLocked_def storePut_def Let_def split: prod.split sum.split)

definition auto_Delete ::
  "AutoEntry order \<Rightarrow> 'h env \<Rightarrow> string \<Rightarrow> AutoEntry store \<Rightarrow> 'h world
    \<Rightarrow> unit res \<times> AutoEntry store \<times> 'h world" where
  "auto_Delete ord env name s w =
     (let s = s\<lparr>sdata := gdel name (sdata s)\<rparr>
      in case auto_saveLocked ord env s w of (r, w) \<Rightarrow> (r, s, w))"

lemma auto_Delete_del:
  "auto_Delete ord env name s w = storeDel auto_enc (byOrder ord) env name s w"
  by (simp add: auto_Delete_def auto_saveLocked_def storeDel_def)

subsection \<open>Boot orchestration\<close>

record 'w AutoController =
  acListDomains :: "(string list, 'w) act"
  acState :: "string \<Rightarrow> (string, 'w) act"
  acStart :: "string \<Rightarrow> (unit, 'w) act"
  acSetAutostart :: "string \<Rightarrow> bool \<Rightarrow> (unit, 'w) act"

definition auto_controller :: "'h env \<Rightarrow> Client \<Rightarrow> 'h world AutoController" where
  "auto_controller env c =
     \<lparr>acListDomains = virsh_ListDomains env c, acState = virsh_State env c,
      acStart = virsh_Start env c, acSetAutostart = virsh_SetAutostart env c\<rparr>"

definition runMarker :: string where
  "runMarker = ''/run/zima-vm-extras-autostart.done''"

definition time_Sleep :: "(int \<Rightarrow> 'h \<Rightarrow> 'h) \<Rightarrow> int \<Rightarrow> 'h world \<Rightarrow> 'h world" where
  "time_Sleep sleep d w = w\<lparr>hyp := sleep d (hyp w)\<rparr>"

definition second :: int where
  "second = 10 ^ 9"

text \<open>The loop that waits for libvirt: the attempts left.\<close>

fun auto_wait :: "(int \<Rightarrow> 'h \<Rightarrow> 'h) \<Rightarrow> 'h world AutoController \<Rightarrow> nat \<Rightarrow> 'h world \<Rightarrow> bool \<times> 'h world" where
  "auto_wait sleep vc 0 w = (False, w)"
| "auto_wait sleep vc (Suc n) w =
     (case acListDomains vc w of
        (Inr _, w) \<Rightarrow> (True, w)
      | (Inl _, w) \<Rightarrow> auto_wait sleep vc n (time_Sleep sleep (5 * second) w))"

definition auto_start1 ::
  "(int \<Rightarrow> 'h \<Rightarrow> 'h) \<Rightarrow> 'h world AutoController \<Rightarrow> AutoEntry \<Rightarrow> 'h world \<Rightarrow> 'h world" where
  "auto_start1 sleep vc e w =
     (if \<not> aeEnabled e then w
      else
        (let w = snd (acSetAutostart vc (aeName e) False w)
         in case acState vc (aeName e) w of
              (Inl _, w) \<Rightarrow> w
            | (Inr state, w) \<Rightarrow>
                if state = ''running'' then w
                else (case acStart vc (aeName e) w of
                        (Inl _, w) \<Rightarrow> w
                      | (Inr _, w) \<Rightarrow>
                          if 0 < aeDelayS e then time_Sleep sleep (int64 (aeDelayS e * second)) w
                          else w)))"

definition auto_Run ::
  "(int \<Rightarrow> 'h \<Rightarrow> 'h) \<Rightarrow> string \<Rightarrow> AutoEntry order \<Rightarrow> 'h env \<Rightarrow> 'h world AutoController
    \<Rightarrow> AutoEntry store \<Rightarrow> 'h world \<Rightarrow> 'h world" where
  "auto_Run sleep stamp ord env vc s w =
     (if os_Stat env runMarker w then w
      else (case auto_wait sleep vc 12 w of
              (False, w) \<Rightarrow> w
            | (True, w) \<Rightarrow>
                (let w = fold (auto_start1 sleep vc) (auto_All ord s) w
                 in snd (os_WriteFile env runMarker (Text (stamp @ [nl])) w))))"

subsection \<open>The watchdog\<close>

definition auto_watch1 :: "'w AutoController \<Rightarrow> AutoEntry \<Rightarrow> 'w \<Rightarrow> 'w" where
  "auto_watch1 vc e w =
     (if \<not> aeWatchdog e then w
      else (case acState vc (aeName e) w of
              (Inl _, w) \<Rightarrow> w
            | (Inr state, w) \<Rightarrow>
                if state = ''shut off'' \<or> state = ''crashed'' then snd (acStart vc (aeName e) w) else w))"

definition auto_watchTick ::
  "AutoEntry order \<Rightarrow> 'h env \<Rightarrow> 'h world AutoController \<Rightarrow> AutoEntry store \<Rightarrow> 'h world \<Rightarrow> 'h world" where
  "auto_watchTick ord env vc s w =
     (if \<not> os_Stat env runMarker w then w else fold (auto_watch1 vc) (auto_All ord s) w)"

text \<open>A tick: what the rest of the system did since the last one, the store and the order.\<close>

definition auto_RunWatchdog ::
  "'h env \<Rightarrow> 'h world AutoController
    \<Rightarrow> (('h world \<Rightarrow> 'h world) \<times> AutoEntry store \<times> AutoEntry order) list \<Rightarrow> 'h world \<Rightarrow> 'h world" where
  "auto_RunWatchdog env vc ticks w = fold (\<lambda>(g, s, ord) w. auto_watchTick ord env vc s (g w)) ticks w"

subsection \<open>Order\<close>

lemma byOrder_order [simp]: "is_order ord \<Longrightarrow> is_order (byOrder ord)"
  by (simp add: is_order_def byOrder_def)

lemma auto_All_sorted: "sorted (map aeOrder (auto_All ord s))"
proof -
  have "sorted (map (\<lambda>(_, e). aeOrder e) (byOrder ord (sdata s)))"
    by (simp add: byOrder_def)
  then show ?thesis
    by (simp add: auto_All_def storeAll_def comp_def split_def)
qed

lemma set_auto_All: "is_order ord \<Longrightarrow> set (auto_All ord s) = snd ` set (sdata s)"
  by (simp add: auto_All_def set_storeAll)

end
