(* ===== verification/Schedule.thy ===== *)
theory Schedule
  imports Stores VirshProofs Autostart "HOL-Library.List_Lexorder"
begin

section \<open>Scheduled snapshots (internal/schedule)\<close>

text \<open>
  The per-domain schedules, their store and a tick of the scheduler: the due entries are marked and
  saved, then each gets a snapshot and its old automatic snapshots are pruned. \<open>now\<close> is the wall
  clock in nanoseconds since the epoch and \<open>fmt\<close> renders it as \<open>time.Format("20060102-150405")\<close>;
  times are within the range of package \<open>time\<close>, durations are 64-bit.
\<close>

definition AutoPrefix :: string where
  "AutoPrefix = ''auto-''"

record SchedEntry =
  seVM :: string
  seEnabled :: bool
  seIntervalHours :: int
  seKeep :: int
  seLastRunUnix :: int

definition zeroSchedEntry :: SchedEntry where
  "zeroSchedEntry =
     \<lparr>seVM = [], seEnabled = False, seIntervalHours = 0, seKeep = 0, seLastRunUnix = 0\<rparr>"

definition sched_enc :: "SchedEntry \<Rightarrow> json" where
  "sched_enc e =
     JObj [(''vm'', JStr (seVM e)), (''enabled'', JBool (seEnabled e)),
           (''interval_hours'', JInt (seIntervalHours e)), (''keep'', JInt (seKeep e)),
           (''last_run_unix'', JInt (seLastRunUnix e))]"

definition sched_fields :: "SchedEntry field list" where
  "sched_fields =
     [(''vm'', strField seVM seVM_update), (''enabled'', boolField seEnabled seEnabled_update),
      (''interval_hours'', intField seIntervalHours seIntervalHours_update),
      (''keep'', intField seKeep seKeep_update),
      (''last_run_unix'', intField seLastRunUnix seLastRunUnix_update)]"

definition sched_dec :: "json \<Rightarrow> SchedEntry res" where
  "sched_dec = decodeStruct sched_fields zeroSchedEntry"

definition sched_wf :: "SchedEntry \<Rightarrow> bool" where
  "sched_wf e \<longleftrightarrow> is_int64 (seIntervalHours e) \<and> is_int64 (seKeep e) \<and> is_int64 (seLastRunUnix e)"

interpretation sched_json: json_store seVM sched_enc sched_dec sched_wf
  by unfold_locales
    (auto simp: sched_dec_def sched_enc_def sched_fields_def decodeStruct_def EqualFold_def ToLower_def
      toLowerChar_def less_eq_char_def strField_def asStr_def intField_def asInt_def boolField_def
      asBool_def zeroSchedEntry_def sched_wf_def is_int64_def)

definition sched_load :: "'h env \<Rightarrow> 'h world \<Rightarrow> SchedEntry store \<Rightarrow> SchedEntry store res" where
  "sched_load = storeLoad sched_dec seVM ''schedule store decode: %w''"

definition sched_NewStore :: "'h env \<Rightarrow> 'h world \<Rightarrow> string \<Rightarrow> SchedEntry store res" where
  "sched_NewStore env w path = sched_load env w \<lparr>Path = path, sdata = []\<rparr>"

definition sched_List :: "SchedEntry order \<Rightarrow> SchedEntry store \<Rightarrow> SchedEntry list" where
  "sched_List ord s = storeAll ord s"

definition sched_Get :: "SchedEntry store \<Rightarrow> string \<Rightarrow> SchedEntry" where
  "sched_Get s vm =
     (case gget vm (sdata s) of Some e \<Rightarrow> e | None \<Rightarrow> zeroSchedEntry\<lparr>seVM := vm\<rparr>)"

definition sched_saveLocked ::
  "SchedEntry order \<Rightarrow> 'h env \<Rightarrow> SchedEntry store \<Rightarrow> (unit, 'h world) act" where
  "sched_saveLocked ord env s w = storeSave sched_enc ord env s w"

definition sched_Upsert ::
  "SchedEntry order \<Rightarrow> 'h env \<Rightarrow> SchedEntry \<Rightarrow> SchedEntry store \<Rightarrow> 'h world
    \<Rightarrow> SchedEntry res \<times> SchedEntry store \<times> 'h world" where
  "sched_Upsert ord env e s w =
     (if seVM e = [] then (Inl (Errorf ''vm required'' []), s, w)
      else if seEnabled e \<and> seIntervalHours e \<le> 0
      then (Inl (Errorf ''interval_hours must be > 0'' []), s, w)
      else
        (let e = (if seKeep e < 0 then e\<lparr>seKeep := 0\<rparr> else e);
             e = (case gget (seVM e) (sdata s) of
                    Some prev \<Rightarrow> e\<lparr>seLastRunUnix := seLastRunUnix prev\<rparr> | None \<Rightarrow> e);
             s = s\<lparr>sdata := gput (seVM e) e (sdata s)\<rparr>
         in case sched_saveLocked ord env s w of
              (Inl x, w) \<Rightarrow> (Inl x, s, w)
            | (Inr _, w) \<Rightarrow> (Inr e, s, w)))"

lemma sched_Upsert_put:
  "sched_Upsert ord env e s w =
     (if seVM e = [] then (Inl (Errorf ''vm required'' []), s, w)
      else if seEnabled e \<and> seIntervalHours e \<le> 0
      then (Inl (Errorf ''interval_hours must be > 0'' []), s, w)
      else
        (let e = (if seKeep e < 0 then e\<lparr>seKeep := 0\<rparr> else e);
             e = (case gget (seVM e) (sdata s) of
                    Some prev \<Rightarrow> e\<lparr>seLastRunUnix := seLastRunUnix prev\<rparr> | None \<Rightarrow> e)
         in case storePut sched_enc seVM ord env e s w of
              (Inl x, s, w) \<Rightarrow> (Inl x, s, w)
            | (Inr _, s, w) \<Rightarrow> (Inr e, s, w)))"
  by (simp add: sched_Upsert_def sched_saveLocked_def storePut_def Let_def split: prod.split sum.split)

definition sched_Delete ::
  "SchedEntry order \<Rightarrow> 'h env \<Rightarrow> string \<Rightarrow> SchedEntry store \<Rightarrow> 'h world
    \<Rightarrow> unit res \<times> SchedEntry store \<times> 'h world" where
  "sched_Delete ord env vm s w =
     (let s = s\<lparr>sdata := gdel vm (sdata s)\<rparr>
      in case sched_saveLocked ord env s w of (r, w) \<Rightarrow> (r, s, w))"

lemma sched_Delete_del:
  "sched_Delete ord env vm s w = storeDel sched_enc ord env vm s w"
  by (simp add: sched_Delete_def sched_saveLocked_def storeDel_def)

subsection \<open>Pruning\<close>

record 'w SchedController =
  scState :: "string \<Rightarrow> (string, 'w) act"
  scCreateSnapshot :: "string \<Rightarrow> string \<Rightarrow> string \<Rightarrow> bool \<Rightarrow> string \<Rightarrow> (unit, 'w) act"
  scListSnapshots :: "string \<Rightarrow> (Snapshot list, 'w) act"
  scDeleteSnapshot :: "string \<Rightarrow> string \<Rightarrow> bool \<Rightarrow> (unit, 'w) act"

definition sched_controller :: "'h env \<Rightarrow> Client \<Rightarrow> 'h world SchedController" where
  "sched_controller env c =
     \<lparr>scState = virsh_State env c, scCreateSnapshot = virsh_CreateSnapshot env c,
      scListSnapshots = virsh_ListSnapshots env c, scDeleteSnapshot = virsh_DeleteSnapshot env c\<rparr>"

definition autoNames :: "Snapshot list \<Rightarrow> string list" where
  "autoNames snaps = filter (\<lambda>n. HasPrefix n AutoPrefix) (map snName snaps)"

definition pruneVictims :: "int \<Rightarrow> Snapshot list \<Rightarrow> string list" where
  "pruneVictims keep snaps =
     (let autos = sort (autoNames snaps)
      in if int (length autos) \<le> keep then [] else take (length autos - nat keep) autos)"

definition sched_prune :: "'w SchedController \<Rightarrow> SchedEntry \<Rightarrow> 'w \<Rightarrow> 'w" where
  "sched_prune vc e w =
     (if seKeep e \<le> 0 then w
      else (case scListSnapshots vc (seVM e) w of
              (Inl _, w) \<Rightarrow> w
            | (Inr snaps, w) \<Rightarrow>
                fold (\<lambda>name w. snd (scDeleteSnapshot vc (seVM e) name False w))
                  (pruneVictims (seKeep e) snaps) w))"

subsection \<open>A tick\<close>

definition sched_snapshot ::
  "(int \<Rightarrow> string) \<Rightarrow> 'h env \<Rightarrow> 'h world SchedController \<Rightarrow> string \<Rightarrow> int \<Rightarrow> SchedEntry
    \<Rightarrow> 'h world \<Rightarrow> 'h world" where
  "sched_snapshot fmt env vc snapshotRoot now e w =
     (case scState vc (seVM e) w of
        (Inl _, w) \<Rightarrow> w
      | (Inr state, w) \<Rightarrow>
          (let external = (state = ''running'' \<or> state = ''paused'');
               name = AutoPrefix @ fmt now;
               extDir = (if external then JoinPath [snapshotRoot, seVM e] else [])
           in if external \<and> \<not> is_ok (os_MkdirAll env extDir w) then w
              else (case scCreateSnapshot vc (seVM e) name ''scheduled snapshot'' external extDir w of
                      (Inl _, w) \<Rightarrow> w
                    | (Inr _, w) \<Rightarrow> sched_prune vc e w)))"

definition hour :: int where
  "hour = 3600 * second"

text \<open>\<open>t.Sub(u)\<close> saturates, the product of a duration and a constant wraps.\<close>

definition time_Sub :: "int \<Rightarrow> int \<Rightarrow> int" where
  "time_Sub t u = max minInt64 (min maxInt64 (t - u))"

definition isDue :: "int \<Rightarrow> SchedEntry \<Rightarrow> bool" where
  "isDue now e \<longleftrightarrow>
     seEnabled e \<and> 0 < seIntervalHours e \<and>
     (seLastRunUnix e = 0 \<or>
      \<not> time_Sub now (seLastRunUnix e * second) < int64 (seIntervalHours e * hour))"

definition markRun :: "int \<Rightarrow> SchedEntry \<Rightarrow> SchedEntry" where
  "markRun now e = (if isDue now e then e\<lparr>seLastRunUnix := now div second\<rparr> else e)"

definition sched_due :: "SchedEntry order \<Rightarrow> int \<Rightarrow> SchedEntry store \<Rightarrow> SchedEntry list" where
  "sched_due ord now s = map (markRun now) (filter (isDue now) (map snd (ord (sdata s))))"

definition sched_tick ::
  "(int \<Rightarrow> string) \<Rightarrow> SchedEntry order \<Rightarrow> 'h env \<Rightarrow> 'h world SchedController \<Rightarrow> string \<Rightarrow> int
    \<Rightarrow> SchedEntry store \<Rightarrow> 'h world \<Rightarrow> SchedEntry store \<times> 'h world" where
  "sched_tick fmt ord env vc snapshotRoot now s w =
     (let due = sched_due ord now s;
          s = s\<lparr>sdata := map (\<lambda>(k, e). (k, markRun now e)) (sdata s)\<rparr>;
          w = (if due \<noteq> [] then snd (sched_saveLocked ord env s w) else w)
      in (s, fold (sched_snapshot fmt env vc snapshotRoot now) due w))"

text \<open>\<open>Run\<close>: a tick per interval; the argument gives, for each, what the rest of the system and the
  handlers did since the last one, the clock and the order.\<close>

definition sched_Run ::
  "(int \<Rightarrow> string) \<Rightarrow> 'h env \<Rightarrow> 'h world SchedController \<Rightarrow> string
    \<Rightarrow> ((SchedEntry store \<times> 'h world \<Rightarrow> SchedEntry store \<times> 'h world) \<times> int \<times> SchedEntry order) list
    \<Rightarrow> SchedEntry store \<times> 'h world \<Rightarrow> SchedEntry store \<times> 'h world" where
  "sched_Run fmt env vc snapshotRoot ticks st =
     fold (\<lambda>(g, now, ord) st. case g st of (s, w) \<Rightarrow> sched_tick fmt ord env vc snapshotRoot now s w)
       ticks st"

subsection \<open>Lemmas\<close>

lemma set_autoNames: "n \<in> set (autoNames snaps) \<Longrightarrow> HasPrefix n AutoPrefix \<and> n \<in> snName ` set snaps"
  by (auto simp: autoNames_def)

lemma mset_pruneVictims:
  assumes "0 \<le> keep"
  shows "mset (pruneVictims keep snaps) + mset (drop (length (autoNames snaps) - nat keep) (sort (autoNames snaps)))
    = mset (autoNames snaps)"
proof -
  let ?a = "sort (autoNames snaps)" and ?n = "length (autoNames snaps) - nat keep"
  have "pruneVictims keep snaps = take ?n ?a"
    using assms by (auto simp: pruneVictims_def Let_def)
  then show ?thesis
    by (metis append_take_drop_id mset_append mset_sort)
qed

lemma length_pruneVictims:
  "0 \<le> keep \<Longrightarrow> length (pruneVictims keep snaps) = length (autoNames snaps) - nat keep"
  by (auto simp: pruneVictims_def Let_def)

lemma sorted_take_le_drop:
  "sorted xs \<Longrightarrow> x \<in> set (take n xs) \<Longrightarrow> y \<in> set (drop n xs) \<Longrightarrow> x \<le> y"
  by (metis append_take_drop_id sorted_append)

end
