(* ===== verification/Backup.thy ===== *)
theory Backup
  imports Stores VirshProofs Autostart
begin

section \<open>Backup jobs (internal/backup)\<close>

text \<open>
  \<open>Manager\<close> with its jobs, \<open>Start\<close> and the goroutine \<open>run\<close> that does the copying. A job pointer is
  the job's identifier: an update through it changes the job if the manager still holds it. The
  identifier, the clock readings and their renderings are arguments (\<open>newID\<close>, \<open>time.Now\<close>).
\<close>

record Job =
  jID :: string
  jVM :: string
  jDest :: string
  jState :: string
  jStep :: string
  jStartedUnix :: int
  jEndedUnix :: int
  jError :: "error option"

type_synonym Manager = "Job gmap"

text \<open>The manager's controller and its logger are arguments of its methods.\<close>

definition backup_NewManager :: Manager where
  "backup_NewManager = []"

record 'w BackupController =
  bcState :: "string \<Rightarrow> (string, 'w) act"
  bcDumpXML :: "string \<Rightarrow> (string, 'w) act"
  bcDomainDisks :: "string \<Rightarrow> (Disk list, 'w) act"

definition backup_controller :: "'h env \<Rightarrow> Client \<Rightarrow> 'h world BackupController" where
  "backup_controller env c =
     \<lparr>bcState = virsh_State env c, bcDumpXML = virsh_DumpXML env c,
      bcDomainDisks = virsh_DomainDisks env c\<rparr>"

text \<open>Newest first; ties in the order of the range over the map.\<close>

definition newestFirst :: "(string \<times> Job) list \<Rightarrow> (string \<times> Job) list" where
  "newestFirst m = sort_key (\<lambda>(_, j). - jStartedUnix j) m"

definition backup_List :: "Job order \<Rightarrow> Manager \<Rightarrow> Job list" where
  "backup_List ord m = map snd (newestFirst (ord m))"

definition maxJobs :: nat where
  "maxJobs = 50"

definition pruneLocked :: "Job order \<Rightarrow> Manager \<Rightarrow> Manager" where
  "pruneLocked ord m =
     (if length m \<le> maxJobs then m
      else fold (\<lambda>(i, _). gdel i) (drop maxJobs (newestFirst (ord m))) m)"

text \<open>What \<open>Start\<close> hands to the goroutine it launches.\<close>

type_synonym launch = "Job \<times> string \<times> Disk list"

definition backup_Start ::
  "Job order \<Rightarrow> 'h env \<Rightarrow> 'h world BackupController \<Rightarrow> string \<Rightarrow> string \<Rightarrow> int \<Rightarrow> string \<Rightarrow> string
    \<Rightarrow> Manager \<Rightarrow> 'h world \<Rightarrow> launch res \<times> Manager \<times> 'h world" where
  "backup_Start ord env vc newID stamp now vm destDir m w =
     (case bcState vc vm w of
        (Inl e, w) \<Rightarrow> (Inl e, m, w)
      | (Inr state, w) \<Rightarrow>
          if state \<noteq> ''shut off''
          then (Inl (Errorf ''the VM must be shut off to back up safely (currently %q)'' [state]), m, w)
          else (case bcDumpXML vc vm w of
                  (Inl e, w) \<Rightarrow> (Inl e, m, w)
                | (Inr xml, w) \<Rightarrow>
                    (case bcDomainDisks vc vm w of
                       (Inl e, w) \<Rightarrow> (Inl e, m, w)
                     | (Inr disks, w) \<Rightarrow>
                         (let dest = JoinPath [destDir, vm @ ''-'' @ stamp]
                          in case os_MkdirAll env dest w of
                               Inl e \<Rightarrow> (Inl e, m, w)
                             | Inr _ \<Rightarrow>
                                 (let job = \<lparr>jID = newID, jVM = vm, jDest = dest, jState = ''running'',
                                             jStep = ''starting'', jStartedUnix = now, jEndedUnix = 0,
                                             jError = None\<rparr>
                                  in (Inr (job, xml, disks), pruneLocked ord (gput newID job m), w))))))"

text \<open>An update through the pointer, as \<open>set\<close> and \<open>finish\<close> make it under the lock.\<close>

definition updateJob :: "string \<Rightarrow> (Job \<Rightarrow> Job) \<Rightarrow> Manager \<Rightarrow> Manager" where
  "updateJob i f m = map (\<lambda>(k, j). (k, if k = i then f j else j)) m"

definition backup_set :: "Job \<Rightarrow> string \<Rightarrow> Manager \<Rightarrow> Manager" where
  "backup_set job step m = updateJob (jID job) (jStep_update (\<lambda>_. step)) m"

definition backup_finish :: "int \<Rightarrow> Job \<Rightarrow> unit res \<Rightarrow> Manager \<Rightarrow> Manager" where
  "backup_finish now job r m =
     updateJob (jID job)
       (\<lambda>j. case r of
              Inl e \<Rightarrow> j\<lparr>jEndedUnix := now, jState := ''failed'', jStep := ''failed'', jError := Some e\<rparr>
            | Inr _ \<Rightarrow> j\<lparr>jEndedUnix := now, jState := ''done'', jStep := ''done''\<rparr>) m"

definition qemuImgBin :: string where
  "qemuImgBin = ''/usr/bin/qemu-img''"

definition diskFile :: "nat \<Rightarrow> Disk \<Rightarrow> string" where
  "diskFile i d = dkTarget d @ ''-'' @ natDigits i @ ''.qcow2''"

text \<open>The loop over the disks: the index and the names saved so far.\<close>

fun backup_disks ::
  "'h env \<Rightarrow> Job \<Rightarrow> nat \<Rightarrow> Disk list \<Rightarrow> string list \<Rightarrow> Manager \<Rightarrow> 'h world
    \<Rightarrow> string list res \<times> Manager \<times> 'h world" where
  "backup_disks env job i [] saved m w = (Inr saved, m, w)"
| "backup_disks env job i (d # ds) saved m w =
     (if isRemovable d then backup_disks env job (i + 1) ds saved m w
      else
        (let m = backup_set job (''converting disk '' @ dkTarget d) m;
             name = diskFile i d
         in case os_exec env qemuImgBin
                   [''convert'', ''-O'', ''qcow2'', dkSource d, JoinPath [jDest job, name]] w of
              (ExecFail out err ex, w) \<Rightarrow>
                (Inl (Wrapf ''qemu-img convert %s: %w'' [dkTarget d] (Errorf ex [])), m, w)
            | (ExecOK out, w) \<Rightarrow> backup_disks env job (i + 1) ds (saved @ [name]) m w))"

text \<open>A nil slice is encoded as \<open>null\<close>; the members of a Go map come in the order of their names.\<close>

definition manifestOf :: "string \<Rightarrow> Job \<Rightarrow> string list \<Rightarrow> json" where
  "manifestOf created job saved =
     JObj [(''created'', JStr created),
           (''disks'', if saved = [] then JNull else JArr (map JStr saved)),
           (''format'', JStr ''qcow2''), (''vm'', JStr (jVM job))]"

definition backup_run ::
  "'h env \<Rightarrow> string \<Rightarrow> int \<Rightarrow> launch \<Rightarrow> Manager \<Rightarrow> 'h world \<Rightarrow> Manager \<times> 'h world" where
  "backup_run env created now l m w =
     (case l of (job, domXML, disks) \<Rightarrow>
        (let m = backup_set job ''writing domain.xml'' m
         in case os_WriteFile env (JoinPath [jDest job, ''domain.xml'']) (Text domXML) w of
              (Inl e, w) \<Rightarrow> (backup_finish now job (Inl e) m, w)
            | (Inr _, w) \<Rightarrow>
                (case backup_disks env job 0 disks [] m w of
                   (Inl e, m, w) \<Rightarrow> (backup_finish now job (Inl e) m, w)
                 | (Inr saved, m, w) \<Rightarrow>
                     (let m = backup_set job ''writing manifest'' m;
                          w = snd (os_WriteFile env (JoinPath [jDest job, ''manifest.json''])
                                     (Doc (manifestOf created job saved)) w)
                      in (backup_finish now job (Inr ()) m, w)))))"

subsection \<open>Lemmas\<close>

lemma is_order_newestFirst: "mset (newestFirst m) = mset m"
  by (simp add: newestFirst_def)

lemma fold_gdel_notin:
  "gmap_ok m \<Longrightarrow> gmap_ok (fold (\<lambda>(i, _). gdel i) ks m) \<and>
   set (fold (\<lambda>(i, _). gdel i) ks m) = {(k, j) \<in> set m. k \<notin> fst ` set ks}"
proof (induction ks arbitrary: m)
  case (Cons a ks)
  have "set (gdel (fst a) m) = {(k, j) \<in> set m. k \<noteq> fst a}"
    by (auto simp: gdel_def AList.delete_eq)
  with Cons.IH [of "gdel (fst a) m"] Cons.prems show ?case
    by (auto simp: case_prod_beta)
qed auto

lemma distinct_keys_front:
  assumes "distinct (map fst (a @ b))"
  shows "set a = {(k, j) \<in> set (a @ b). k \<notin> fst ` set b}"
proof -
  from assms have "fst ` set a \<inter> fst ` set b = {}" by simp
  then have "k \<notin> fst ` set b" if "(k, j) \<in> set a" for k j
    using that by (metis IntI emptyE fst_conv imageI)
  moreover have "k \<in> fst ` set b" if "(k, j) \<in> set b" for k j
    using that by (metis fst_conv imageI)
  ultimately show ?thesis by auto
qed

lemma pruneLocked_set:
  assumes "gmap_ok m" "is_order ord"
  shows "gmap_ok (pruneLocked ord m) \<and>
    set (pruneLocked ord m) = set (take maxJobs (newestFirst (ord m)))"
proof (cases "length m \<le> maxJobs")
  case True
  have "length (newestFirst (ord m)) = length m" "set (newestFirst (ord m)) = set m"
    using assms by (simp_all add: newestFirst_def)
  with True assms show ?thesis by (simp add: pruneLocked_def)
next
  case False
  let ?l = "newestFirst (ord m)"
  have "mset ?l = mset m"
    using is_order_newestFirst [of "ord m"] is_order_mset [OF assms(2), of m] by simp
  then have "mset (map fst ?l) = mset (map fst m)" by simp
  with assms(1) have d: "distinct (map fst ?l)"
    unfolding gmap_ok_def by (metis mset_eq_imp_distinct_iff)
  have "set ?l = set m" using assms by (simp add: newestFirst_def)
  moreover have "set (take maxJobs ?l) = {(k, j) \<in> set ?l. k \<notin> fst ` set (drop maxJobs ?l)}"
    using distinct_keys_front [of "take maxJobs ?l" "drop maxJobs ?l"] d by simp
  ultimately show ?thesis
    using False fold_gdel_notin [OF assms(1)] by (simp add: pruneLocked_def)
qed

lemma gmap_ok_updateJob [simp]: "gmap_ok (updateJob i f m) \<longleftrightarrow> gmap_ok m"
  by (simp add: gmap_ok_def updateJob_def comp_def case_prod_beta)

lemma length_gmap_pruneLocked:
  assumes "gmap_ok m" "is_order ord"
  shows "length (pruneLocked ord m) \<le> maxJobs"
proof -
  have "distinct (pruneLocked ord m)"
    using pruneLocked_set [OF assms] by (simp add: gmap_ok_def distinct_map)
  then have "length (pruneLocked ord m) = card (set (take maxJobs (newestFirst (ord m))))"
    using pruneLocked_set [OF assms] by (metis distinct_card)
  also have "\<dots> \<le> maxJobs"
    by (metis card_length length_take min.cobounded2 order_trans)
  finally show ?thesis .
qed

end
