(* ===== verification/Settings.thy ===== *)
theory Settings
  imports Stores
begin

section \<open>UI settings (internal/settings)\<close>

text \<open>
  Two directories in one JSON object. Unlike the other stores the file holds a struct, not an array,
  and \<open>Set\<close> replaces the whole of it.
\<close>

record SettingsData =
  sBackupDir :: string
  sSnapshotDir :: string

record SettingsStore =
  ssPath :: string
  ssData :: SettingsData

definition zeroSettings :: SettingsData where
  "zeroSettings = \<lparr>sBackupDir = [], sSnapshotDir = []\<rparr>"

definition settings_enc :: "SettingsData \<Rightarrow> json" where
  "settings_enc d =
     JObj (omitStr ''backup_dir'' (sBackupDir d) @ omitStr ''snapshot_dir'' (sSnapshotDir d))"

definition settings_fields :: "SettingsData field list" where
  "settings_fields =
     [(''backup_dir'', strField sBackupDir sBackupDir_update),
      (''snapshot_dir'', strField sSnapshotDir sSnapshotDir_update)]"

text \<open>Decoding into the struct the store holds.\<close>

definition settings_load :: "'h env \<Rightarrow> 'h world \<Rightarrow> SettingsStore \<Rightarrow> SettingsStore res" where
  "settings_load env w s =
     (case os_ReadFile env (ssPath s) w of
        Inl (OSNotExist _) \<Rightarrow> Inr s
      | Inl e \<Rightarrow> Inl e
      | Inr b \<Rightarrow>
          if b = Text [] then Inr s
          else (case unmarshal (decodeStruct settings_fields (ssData s)) b of
                  Inl e \<Rightarrow> Inl (Wrapf ''settings decode: %w'' [] e)
                | Inr d \<Rightarrow> Inr (s\<lparr>ssData := d\<rparr>)))"

definition settings_NewStore :: "'h env \<Rightarrow> 'h world \<Rightarrow> string \<Rightarrow> SettingsStore res" where
  "settings_NewStore env w path = settings_load env w \<lparr>ssPath = path, ssData = zeroSettings\<rparr>"

definition settings_save :: "'h env \<Rightarrow> SettingsStore \<Rightarrow> (unit, 'h world) act" where
  "settings_save env s w = publish env (ssPath s) (settings_enc (ssData s)) w"

definition settings_Get :: "SettingsStore \<Rightarrow> SettingsData" where
  "settings_Get s = ssData s"

definition settings_Set ::
  "'h env \<Rightarrow> SettingsData \<Rightarrow> SettingsStore \<Rightarrow> 'h world \<Rightarrow> unit res \<times> SettingsStore \<times> 'h world" where
  "settings_Set env d s w =
     (let s = s\<lparr>ssData := d\<rparr> in case settings_save env s w of (r, w) \<Rightarrow> (r, s, w))"

lemma settings_dec_enc: "decodeStruct settings_fields zeroSettings (settings_enc d) = Inr d"
  by (auto simp: settings_enc_def settings_fields_def decodeStruct_def EqualFold_def ToLower_def
      toLowerChar_def less_eq_char_def strField_def asStr_def omitStr_def zeroSettings_def)

lemma settings_reopen:
  assumes "settings_Set env d s w = (Inr (), s1, w1)"
    and "\<not> osFault env OpRead (ssPath s) (files w1)"
  shows "settings_NewStore env w1 (ssPath s) = Inr s1"
proof -
  have pub: "publish env (ssPath s) (settings_enc d) w = (Inr (), w1)" and s1: "s1 = s\<lparr>ssData := d\<rparr>"
    using assms(1) by (simp_all add: settings_Set_def settings_save_def Let_def split: prod.splits)
  show ?thesis
    using publish_Inr(1) [OF pub] assms(2) s1
    by (simp add: settings_NewStore_def settings_load_def os_ReadFile_def unmarshal_def settings_dec_enc)
qed

end
