(* ===== verification/Mounts.thy ===== *)
theory Mounts
  imports Stores Validate
begin

section \<open>Remote mounts (internal/mounts)\<close>

text \<open>
  The configured NFS and CIFS mounts, their store with the last error of each, validation, and the
  commands that mount and unmount. The identifier \<open>newID\<close> draws is an argument. The last error
  is kept as an \<open>error\<close> value instead of its text.
\<close>

record MountEntry =
  meID :: string
  meName :: string
  meType :: string
  meHost :: string
  meShare :: string
  meMountpoint :: string
  meUsername :: string
  mePassword :: string
  meReadOnly :: bool
  meAutoMount :: bool
  meOptions :: string

record MountView =
  mvID :: string
  mvName :: string
  mvType :: string
  mvHost :: string
  mvShare :: string
  mvMountpoint :: string
  mvUsername :: string
  mvHasPassword :: bool
  mvReadOnly :: bool
  mvAutoMount :: bool
  mvOptions :: string
  mvMounted :: bool
  mvLastError :: "error option"

record MountManager =
  mmStore :: "MountEntry store"
  mmLast :: "error gmap"

definition zeroMount :: MountEntry where
  "zeroMount =
     \<lparr>meID = [], meName = [], meType = [], meHost = [], meShare = [], meMountpoint = [],
      meUsername = [], mePassword = [], meReadOnly = False, meAutoMount = False, meOptions = []\<rparr>"

definition mount_enc :: "MountEntry \<Rightarrow> json" where
  "mount_enc e =
     JObj ([(''id'', JStr (meID e)), (''name'', JStr (meName e)), (''type'', JStr (meType e)),
            (''host'', JStr (meHost e)), (''share'', JStr (meShare e)),
            (''mountpoint'', JStr (meMountpoint e))]
       @ omitStr ''username'' (meUsername e) @ omitStr ''password'' (mePassword e)
       @ [(''read_only'', JBool (meReadOnly e)), (''auto_mount'', JBool (meAutoMount e))]
       @ omitStr ''options'' (meOptions e))"

definition mount_fields :: "MountEntry field list" where
  "mount_fields =
     [(''id'', strField meID meID_update), (''name'', strField meName meName_update),
      (''type'', strField meType meType_update), (''host'', strField meHost meHost_update),
      (''share'', strField meShare meShare_update),
      (''mountpoint'', strField meMountpoint meMountpoint_update),
      (''username'', strField meUsername meUsername_update),
      (''password'', strField mePassword mePassword_update),
      (''read_only'', boolField meReadOnly meReadOnly_update),
      (''auto_mount'', boolField meAutoMount meAutoMount_update),
      (''options'', strField meOptions meOptions_update)]"

definition mount_dec :: "json \<Rightarrow> MountEntry res" where
  "mount_dec = decodeStruct mount_fields zeroMount"

lemma mount_field_simps:
  "setField mount_fields ''id'' = strField meID meID_update"
  "setField mount_fields ''name'' = strField meName meName_update"
  "setField mount_fields ''type'' = strField meType meType_update"
  "setField mount_fields ''host'' = strField meHost meHost_update"
  "setField mount_fields ''share'' = strField meShare meShare_update"
  "setField mount_fields ''mountpoint'' = strField meMountpoint meMountpoint_update"
  "setField mount_fields ''username'' = strField meUsername meUsername_update"
  "setField mount_fields ''password'' = strField mePassword mePassword_update"
  "setField mount_fields ''read_only'' = boolField meReadOnly meReadOnly_update"
  "setField mount_fields ''auto_mount'' = boolField meAutoMount meAutoMount_update"
  "setField mount_fields ''options'' = strField meOptions meOptions_update"
  by (rule ext, rule ext,
      simp add: mount_fields_def EqualFold_def ToLower_def toLowerChar_def less_eq_char_def)+

interpretation mount_json: json_store meID mount_enc mount_dec "\<lambda>_. True"
  by unfold_locales
    (simp add: mount_dec_def mount_enc_def decodeStruct_def setFields_append mount_field_simps
      strField_def asStr_def omitStr_def boolField_def asBool_def zeroMount_def)

definition mounts_load :: "'h env \<Rightarrow> 'h world \<Rightarrow> MountManager \<Rightarrow> MountManager res" where
  "mounts_load env w m =
     (case storeLoad mount_dec meID ''mounts decode: %w'' env w (mmStore m) of
        Inl e \<Rightarrow> Inl e
      | Inr s \<Rightarrow> Inr (m\<lparr>mmStore := s\<rparr>))"

definition mounts_New :: "'h env \<Rightarrow> 'h world \<Rightarrow> string \<Rightarrow> MountManager res" where
  "mounts_New env w path = mounts_load env w \<lparr>mmStore = \<lparr>Path = path, sdata = []\<rparr>, mmLast = []\<rparr>"

subsection \<open>Validation\<close>

definition isCifs :: "string \<Rightarrow> bool" where
  "isCifs t \<longleftrightarrow> t = ''cifs'' \<or> t = ''smb''"

definition isNfs :: "string \<Rightarrow> bool" where
  "isNfs t \<longleftrightarrow> t = ''nfs'' \<or> t = ''nfs4''"

definition systemDirs :: "string list" where
  "systemDirs = [''/'', ''/proc'', ''/sys'', ''/dev'', ''/run'', ''/boot'', ''/usr'', ''/etc'', ''/opt'', ''/var'']"

definition forbiddenMountpoint :: "string \<Rightarrow> string option" where
  "forbiddenMountpoint mp =
     find (\<lambda>f. Clean mp = f \<or> HasPrefix (Clean mp) (f @ ''/'')) systemDirs"

definition metaChars :: string where
  "metaChars = ''`$;|&<>'' @ [dquote] @ [CHR 0x5C] @ [nl]"

definition mount_validate :: "MountEntry \<Rightarrow> unit res" where
  "mount_validate e =
     (if \<not> (isNfs (meType e) \<or> isCifs (meType e)) then Inl (Errorf ''type must be nfs|nfs4|cifs|smb'' [])
      else if TrimSpace (meHost e) = [] then Inl (Errorf ''host required'' [])
      else if TrimSpace (meShare e) = [] then Inl (Errorf ''share required'' [])
      else if HasPrefix (meHost e) ''-'' then Inl (Errorf (''host must not start with '' @ sq ''-'') [])
      else if HasPrefix (meShare e) ''-'' then Inl (Errorf (''share must not start with '' @ sq ''-'') [])
      else if \<not> IsAbs (meMountpoint e) then Inl (Errorf ''mountpoint must be absolute path'' [])
      else if Contains (meMountpoint e) ''..'' then Inl (Errorf (''mountpoint must not contain '' @ sq ''..'') [])
      else (case forbiddenMountpoint (meMountpoint e) of
              Some f \<Rightarrow> Inl (Errorf ''mountpoint not allowed (system path %s)'' [f])
            | None \<Rightarrow>
                if list_ex (\<lambda>s. ContainsAny s metaChars)
                     [meHost e, meShare e, meUsername e, meOptions e, mePassword e]
                then Inl (Errorf ''invalid characters in input'' [])
                else if \<not> list_all isLowerHex (meID e) then Inl (Errorf ''invalid id'' [])
                else Inr ()))"

subsection \<open>The manager\<close>

text \<open>\<open>/proc/mounts\<close> as it is read, and the test for a mountpoint.\<close>

definition IsMounted :: "'h env \<Rightarrow> string \<Rightarrow> 'h world \<Rightarrow> bool" where
  "IsMounted env path w =
     (case procMounts env (hyp w) of
        None \<Rightarrow> False
      | Some b \<Rightarrow>
          list_ex (\<lambda>line. 2 \<le> length (Fields line) \<and> Fields line ! 1 = Clean path) (Split b nl))"

definition toView :: "'h env \<Rightarrow> MountManager \<Rightarrow> 'h world \<Rightarrow> MountEntry \<Rightarrow> MountView" where
  "toView env m w e =
     \<lparr>mvID = meID e, mvName = meName e, mvType = meType e, mvHost = meHost e, mvShare = meShare e,
      mvMountpoint = meMountpoint e, mvUsername = meUsername e, mvHasPassword = (mePassword e \<noteq> []),
      mvReadOnly = meReadOnly e, mvAutoMount = meAutoMount e, mvOptions = meOptions e,
      mvMounted = IsMounted env (meMountpoint e) w, mvLastError = gget (meID e) (mmLast m)\<rparr>"

definition mounts_List :: "MountEntry order \<Rightarrow> 'h env \<Rightarrow> MountManager \<Rightarrow> 'h world \<Rightarrow> MountView list" where
  "mounts_List ord env m w = map (toView env m w) (storeAll ord (mmStore m))"

definition mounts_Get :: "'h env \<Rightarrow> MountManager \<Rightarrow> 'h world \<Rightarrow> string \<Rightarrow> MountView option" where
  "mounts_Get env m w i = map_option (toView env m w) (gget i (sdata (mmStore m)))"

definition mounts_saveLocked ::
  "MountEntry order \<Rightarrow> 'h env \<Rightarrow> MountManager \<Rightarrow> (unit, 'h world) act" where
  "mounts_saveLocked ord env m w = storeSave mount_enc ord env (mmStore m) w"

text \<open>\<open>m.data[e.ID] = &e\<close>.\<close>

definition mounts_put :: "MountEntry \<Rightarrow> MountManager \<Rightarrow> MountManager" where
  "mounts_put e m = m\<lparr>mmStore := (mmStore m)\<lparr>sdata := gput (meID e) e (sdata (mmStore m))\<rparr>\<rparr>"

definition mounts_Upsert ::
  "MountEntry order \<Rightarrow> 'h env \<Rightarrow> string \<Rightarrow> MountEntry \<Rightarrow> MountManager \<Rightarrow> 'h world
    \<Rightarrow> MountEntry res \<times> MountManager \<times> 'h world" where
  "mounts_Upsert ord env newID e m w =
     (case mount_validate e of
        Inl x \<Rightarrow> (Inl x, m, w)
      | Inr _ \<Rightarrow>
          (let e = (if meID e = [] then e\<lparr>meID := newID\<rparr> else e);
               e = (case gget (meID e) (sdata (mmStore m)) of
                      Some old \<Rightarrow> if mePassword e = [] then e\<lparr>mePassword := mePassword old\<rparr> else e
                    | None \<Rightarrow> e)
           in case mounts_saveLocked ord env (mounts_put e m) w of
                (Inl x, w) \<Rightarrow> (Inl x, mounts_put e m, w)
              | (Inr _, w) \<Rightarrow> (Inr e, mounts_put e m, w)))"

lemma mounts_Upsert_put:
  "mounts_Upsert ord env newID e m w =
     (case mount_validate e of
        Inl x \<Rightarrow> (Inl x, m, w)
      | Inr _ \<Rightarrow>
          (let e = (if meID e = [] then e\<lparr>meID := newID\<rparr> else e);
               e = (case gget (meID e) (sdata (mmStore m)) of
                      Some old \<Rightarrow> if mePassword e = [] then e\<lparr>mePassword := mePassword old\<rparr> else e
                    | None \<Rightarrow> e)
           in case storePut mount_enc meID ord env e (mmStore m) w of
                (Inl x, s, w) \<Rightarrow> (Inl x, m\<lparr>mmStore := s\<rparr>, w)
              | (Inr _, s, w) \<Rightarrow> (Inr e, m\<lparr>mmStore := s\<rparr>, w)))"
  by (simp add: mounts_Upsert_def mounts_saveLocked_def mounts_put_def storePut_def Let_def split: prod.split sum.split)

definition mounts_Delete ::
  "MountEntry order \<Rightarrow> 'h env \<Rightarrow> string \<Rightarrow> MountManager \<Rightarrow> 'h world \<Rightarrow> unit res \<times> MountManager \<times> 'h world" where
  "mounts_Delete ord env i m w =
     (let m = m\<lparr>mmStore := (mmStore m)\<lparr>sdata := gdel i (sdata (mmStore m))\<rparr>, mmLast := gdel i (mmLast m)\<rparr>
      in case mounts_saveLocked ord env m w of (r, w) \<Rightarrow> (r, m, w))"

lemma mounts_Delete_del:
  "mounts_Delete ord env i m w =
     (case storeDel mount_enc ord env i (mmStore m) w of
        (r, s, w) \<Rightarrow> (r, m\<lparr>mmStore := s, mmLast := gdel i (mmLast m)\<rparr>, w))"
  by (simp add: mounts_Delete_def mounts_saveLocked_def storeDel_def Let_def split: prod.split)

definition setError :: "string \<Rightarrow> error option \<Rightarrow> MountManager \<Rightarrow> MountManager" where
  "setError i msg m =
     (case msg of
        None \<Rightarrow> m\<lparr>mmLast := gdel i (mmLast m)\<rparr>
      | Some e \<Rightarrow> m\<lparr>mmLast := gput i e (mmLast m)\<rparr>)"

subsection \<open>Mounting\<close>

definition mountBin :: string where
  "mountBin = ''/usr/bin/mount''"

definition umountBin :: string where
  "umountBin = ''/usr/bin/umount''"

text \<open>The command's error names it and quotes what it printed on standard error, else on standard output.\<close>

definition mounts_runCmd :: "'h env \<Rightarrow> string \<Rightarrow> string list \<Rightarrow> (unit, 'h world) act" where
  "mounts_runCmd env name args w =
     (case os_exec env name args w of
        (ExecOK out, w) \<Rightarrow> (Inr (), w)
      | (ExecFail out err ex, w) \<Rightarrow>
          (Inl (ExecError (name # args) ex (if TrimSpace err = [] then TrimSpace out else TrimSpace err)), w))"

definition nfsArgs :: "MountEntry \<Rightarrow> string list" where
  "nfsArgs e =
     (let src = meHost e @ '':'' @ meShare e;
          mode = (if meReadOnly e then ''ro'' else ''rw'');
          opts = mode @ '',nosuid,nodev,hard,timeo=600,retrans=2,_netdev'' @
                 (if meOptions e \<noteq> [] then '','' @ meOptions e else [])
      in [''-t'', if meType e = ''nfs4'' then ''nfs4'' else ''nfs'', ''-o'', opts, ''--'', src, meMountpoint e])"

definition doMountNFS :: "'h env \<Rightarrow> MountEntry \<Rightarrow> (unit, 'h world) act" where
  "doMountNFS env e = mounts_runCmd env mountBin (nfsArgs e)"

definition credsText :: "MountEntry \<Rightarrow> string" where
  "credsText e = ''username='' @ meUsername e @ [nl] @ ''password='' @ mePassword e @ [nl]"

definition cifsArgs :: "string \<Rightarrow> MountEntry \<Rightarrow> string list" where
  "cifsArgs credPath e =
     (let src = ''//'' @ meHost e @ ''/'' @ TrimPrefix (meShare e) ''/'';
          opts = ''credentials='' @ credPath @
                 '',uid=0,gid=0,iocharset=utf8,vers=3.0,nosuid,nodev,_netdev'' @
                 (if meReadOnly e then '',ro'' else []) @
                 (if meOptions e \<noteq> [] then '','' @ meOptions e else [])
      in [''-t'', ''cifs'', ''-o'', opts, ''--'', src, meMountpoint e])"

text \<open>The body after \<open>defer os.Remove(credPath)\<close>.\<close>

definition cifsBody :: "'h env \<Rightarrow> MountEntry \<Rightarrow> string \<Rightarrow> (unit, 'h world) act" where
  "cifsBody env e credPath w =
     (case os_WriteFile env credPath (Text (credsText e)) w of
        (Inl x, w) \<Rightarrow> (Inl (Wrapf ''write creds: %w'' [] x), w)
      | (Inr _, w) \<Rightarrow>
          if osFault env OpClose credPath (files w)
          then (Inl (Wrapf ''write creds: %w'' [] (OSError ''close'' credPath)), w)
          else (case os_Chmod env credPath w of
                  Inl x \<Rightarrow> (Inl (Wrapf ''chmod creds: %w'' [] x), w)
                | Inr _ \<Rightarrow> mounts_runCmd env mountBin (cifsArgs credPath e) w))"

definition doMountCIFS :: "'h env \<Rightarrow> MountEntry \<Rightarrow> (unit, 'h world) act" where
  "doMountCIFS env e w =
     (case os_CreateTemp env ''/run'' ''zvmx-cifs-'' ''.creds'' w of
        (Inl x, w) \<Rightarrow> (Inl (Wrapf ''create creds file: %w'' [] x), w)
      | (Inr credPath, w) \<Rightarrow>
          (case cifsBody env e credPath w of (r, w) \<Rightarrow> (r, snd (os_Remove env credPath w))))"

definition doMount :: "'h env \<Rightarrow> MountEntry \<Rightarrow> (unit, 'h world) act" where
  "doMount env e w =
     (if isNfs (meType e) then doMountNFS env e w
      else if isCifs (meType e) then doMountCIFS env e w
      else (Inl (Errorf ''unsupported mount type %q'' [meType e]), w))"

definition mounts_Mount ::
  "'h env \<Rightarrow> string \<Rightarrow> MountManager \<Rightarrow> 'h world \<Rightarrow> unit res \<times> MountManager \<times> 'h world" where
  "mounts_Mount env i m w =
     (case gget i (sdata (mmStore m)) of
        None \<Rightarrow> (Inl (Errorf ''mount id %q not found'' [i]), m, w)
      | Some e \<Rightarrow>
          if IsMounted env (meMountpoint e) w then (Inr (), m, w)
          else (case os_MkdirAll env (meMountpoint e) w of
                  Inl x \<Rightarrow> (Inl (Wrapf ''mkdir mountpoint: %w'' [] x), m, w)
                | Inr _ \<Rightarrow>
                    (case doMount env e w of
                       (Inl x, w) \<Rightarrow> (Inl x, setError i (Some x) m, w)
                     | (Inr _, w) \<Rightarrow> (Inr (), setError i None m, w))))"

definition mounts_Unmount :: "'h env \<Rightarrow> MountManager \<Rightarrow> string \<Rightarrow> (unit, 'h world) act" where
  "mounts_Unmount env m i w =
     (case gget i (sdata (mmStore m)) of
        None \<Rightarrow> (Inl (Errorf ''mount id %q not found'' [i]), w)
      | Some e \<Rightarrow>
          if \<not> IsMounted env (meMountpoint e) w then (Inr (), w)
          else mounts_runCmd env umountBin [meMountpoint e] w)"

definition mounts_MountAllAuto ::
  "MountEntry order \<Rightarrow> 'h env \<Rightarrow> MountManager \<Rightarrow> 'h world \<Rightarrow> MountManager \<times> 'h world" where
  "mounts_MountAllAuto ord env m w =
     fold (\<lambda>i (m, w). snd (mounts_Mount env i m w))
       (map fst (filter (\<lambda>(_, e). meAutoMount e) (ord (sdata (mmStore m))))) (m, w)"

end
