(* ===== verification/Storage.thy ===== *)
theory Storage
  imports Host Stores "HOL-Library.List_Lexorder" "HOL-Library.Product_Lexorder"
begin

section \<open>Snapshot targets (internal/storage)\<close>

text \<open>
  \<open>List\<close> reads \<open>/proc/mounts\<close> and offers the writable mounts, one per source. \<open>syscall.Statfs\<close> is
  the argument \<open>statfs\<close>: the available blocks, the total blocks and the block size, or nothing on an
  error; the products are 64-bit. \<open>ord\<close> is the order \<open>sort.Slice\<close> leaves equal paths in.
\<close>

record Target =
  tgPath :: string
  tgFsType :: string
  tgSource :: string
  tgAvailBytes :: nat
  tgTotalBytes :: nat
  tgIsRemote :: bool
  tgSuggested :: bool

definition pseudoFS :: "string list" where
  "pseudoFS =
     [''proc'', ''sysfs'', ''tmpfs'', ''devtmpfs'', ''cgroup'', ''cgroup2'', ''devpts'', ''mqueue'',
      ''fusectl'', ''rpc_pipefs'', ''overlay'', ''overlayfs'', ''squashfs'', ''nfsd'', ''binfmt_misc'',
      ''configfs'', ''debugfs'', ''tracefs'', ''pstore'', ''bpf'', ''hugetlbfs'', ''ramfs'', ''autofs'',
      ''securityfs'', ''fuse.gvfsd-fuse'']"

definition remoteFS :: "string list" where
  "remoteFS = [''cifs'', ''smbfs'', ''nfs'', ''nfs4'', ''sshfs'', ''fuse.sshfs'', ''fuse.rclone'']"

definition systemPaths :: "string list" where
  "systemPaths =
     [''/proc'', ''/sys'', ''/run'', ''/dev'', ''/boot'', ''/usr'', ''/etc'', ''/var/log'',
      ''/var/lib/bluetooth'', ''/var/lib/casaos'', ''/var/lib/casaos_data'', ''/var/lib/docker'',
      ''/var/lib/icewhale'', ''/var/lib/libvirt'', ''/var/lib/extensions'', ''/var/lib/rauc'',
      ''/var/lib/zerotier-one'', ''/var'', ''/opt'', ''/mnt/boot'', ''/mnt/overlay'']"

definition isSystemPath :: "string \<Rightarrow> bool" where
  "isSystemPath p \<longleftrightarrow> list_ex (\<lambda>s. p = s \<or> HasPrefix p (s @ ''/'')) systemPaths"

type_synonym statfs = "string \<Rightarrow> (nat \<times> nat \<times> nat) option"

definition uint64 :: "nat \<Rightarrow> nat" where
  "uint64 n = n mod 2 ^ 64"

text \<open>The lines \<open>bufio.Scanner\<close> yields: no empty last line, no carriage return before a newline.\<close>

definition scanLines :: "string \<Rightarrow> string list" where
  "scanLines b =
     (let ls = Split b nl; ls = (if last ls = [] then butlast ls else ls)
      in map (\<lambda>l. TrimSuffix l [CHR 0x0D]) ls)"

text \<open>A line that does not fit the scanner's buffer ends the scan with an error.\<close>

definition maxTokenSize :: nat where
  "maxTokenSize = 65536"

definition tooLong :: "string \<Rightarrow> bool" where
  "tooLong b \<longleftrightarrow> list_ex (\<lambda>l. maxTokenSize \<le> length l) (Split b nl)"

definition mkTarget :: "statfs \<Rightarrow> string \<Rightarrow> string \<Rightarrow> string \<Rightarrow> Target" where
  "mkTarget statfs src mnt fstype =
     (let (avail, total) = (case statfs mnt of
              None \<Rightarrow> (0, 0)
            | Some (bavail, blocks, bsize) \<Rightarrow> (uint64 (bavail * bsize), uint64 (blocks * bsize)))
      in \<lparr>tgPath = mnt, tgFsType = fstype, tgSource = src, tgAvailBytes = avail, tgTotalBytes = total,
          tgIsRemote = (fstype \<in> set remoteFS), tgSuggested = False\<rparr>)"

text \<open>The tests on one line, before the one for its source.\<close>

definition offered :: "string list \<Rightarrow> bool" where
  "offered f \<longleftrightarrow>
     4 \<le> length f \<and> f ! 2 \<notin> set pseudoFS \<and>
     \<not> (HasPrefix (f ! 2) ''fuse.'' \<and> f ! 2 \<noteq> ''fuse.sshfs'' \<and> f ! 2 \<noteq> ''fuse.rclone'') \<and>
     \<not> isSystemPath (f ! 1) \<and>
     ''ro'' \<notin> set (Split (f ! 3) (CHR '',''))"

text \<open>The loop, with the sources seen.\<close>

fun scanTargets :: "statfs \<Rightarrow> string list \<Rightarrow> string list \<Rightarrow> Target list" where
  "scanTargets statfs seen [] = []"
| "scanTargets statfs seen (l # ls) =
     (let f = Fields l
      in if \<not> offered f \<or> f ! 0 \<in> set seen then scanTargets statfs seen ls
         else mkTarget statfs (f ! 0) (f ! 1) (f ! 2) # scanTargets statfs (f ! 0 # seen) ls)"

definition dataFirst :: "(Target list \<Rightarrow> Target list) \<Rightarrow> Target list \<Rightarrow> Target list" where
  "dataFirst ord raw = sort_key (\<lambda>t. (tgPath t \<noteq> ''/DATA'', tgPath t)) (ord raw)"

definition markSuggested :: "Target list \<Rightarrow> Target list" where
  "markSuggested ts = (case ts of [] \<Rightarrow> [] | t # ts \<Rightarrow> t\<lparr>tgSuggested := True\<rparr> # ts)"

definition storage_List ::
  "'h env \<Rightarrow> statfs \<Rightarrow> (Target list \<Rightarrow> Target list) \<Rightarrow> 'h world \<Rightarrow> Target list res" where
  "storage_List env statfs ord w =
     (case procMounts env (hyp w) of
        None \<Rightarrow> Inl (OSError ''open'' ''/proc/mounts'')
      | Some b \<Rightarrow>
          if tooLong b then Inl (Errorf ''bufio.Scanner: token too long'' [])
          else Inr (markSuggested (dataFirst ord (scanTargets statfs [] (scanLines b)))))"

subsection \<open>Lemmas\<close>

lemma mkTarget_simps [simp]:
  "tgPath (mkTarget statfs src mnt fs) = mnt" "tgSource (mkTarget statfs src mnt fs) = src"
  "tgFsType (mkTarget statfs src mnt fs) = fs" "tgSuggested (mkTarget statfs src mnt fs) = False"
  by (simp_all add: mkTarget_def Let_def split: option.splits prod.splits)

lemma scanTargets_fresh:
  "distinct (map tgSource (scanTargets statfs seen ls)) \<and>
   set (map tgSource (scanTargets statfs seen ls)) \<inter> set seen = {}"
proof (induction ls arbitrary: seen)
  case (Cons l ls)
  show ?case
  proof (cases "\<not> offered (Fields l) \<or> Fields l ! 0 \<in> set seen")
    case True
    then show ?thesis using Cons.IH [of seen] by (simp add: Let_def)
  next
    case False
    then show ?thesis using Cons.IH [of "Fields l ! 0 # seen"] by (auto simp: Let_def)
  qed
qed simp

lemma scanTargets_offered:
  "t \<in> set (scanTargets statfs seen ls) \<Longrightarrow>
   tgFsType t \<notin> set pseudoFS \<and> \<not> isSystemPath (tgPath t) \<and> \<not> tgSuggested t"
  by (induction ls arbitrary: seen) (auto simp: Let_def offered_def split: if_splits)

lemma set_dataFirst: "is_order ord \<Longrightarrow> set (dataFirst ord ts) = set ts"
  by (simp add: dataFirst_def)

lemma mset_dataFirst: "is_order ord \<Longrightarrow> mset (dataFirst ord ts) = mset ts"
  by (simp add: dataFirst_def is_order_mset)

lemma sorted_key_hd: "sorted (map k (u # us)) \<Longrightarrow> t \<in> set (u # us) \<Longrightarrow> k u \<le> k t"
  by auto

definition dataKey :: "Target \<Rightarrow> bool \<times> string" where
  "dataKey t = (tgPath t \<noteq> ''/DATA'', tgPath t)"

lemma dataKey_le: "dataKey u \<le> dataKey t \<Longrightarrow> tgPath t = ''/DATA'' \<Longrightarrow> tgPath u = ''/DATA''"
  by (cases "tgPath u = ''/DATA''") (simp_all add: dataKey_def less_eq_prod_def)

lemma hd_dataFirst:
  assumes "is_order ord" "t \<in> set ts" "tgPath t = ''/DATA''"
  shows "tgPath (hd (dataFirst ord ts)) = ''/DATA''"
proof -
  have t: "t \<in> set (dataFirst ord ts)"
    using assms set_dataFirst [OF assms(1), of ts] by simp
  then obtain u us where l: "dataFirst ord ts = u # us"
    by (cases "dataFirst ord ts") auto
  have "sorted (map dataKey (dataFirst ord ts))"
    unfolding dataFirst_def dataKey_def [symmetric] by (rule sorted_sort_key)
  with t have "dataKey u \<le> dataKey t" unfolding l by (rule sorted_key_hd [rotated])
  from dataKey_le [OF this assms(3)] show ?thesis unfolding l list.sel .
qed

lemma markSuggested_count:
  assumes "\<forall>t \<in> set ts. \<not> tgSuggested t" "ts \<noteq> []"
  shows "filter tgSuggested (markSuggested ts) = [(hd ts)\<lparr>tgSuggested := True\<rparr>]"
proof -
  from assms(2) obtain t us where ts: "ts = t # us" by (cases ts) blast+
  with assms(1) have "filter tgSuggested us = []" by (simp add: filter_empty_conv)
  then show ?thesis by (simp add: ts markSuggested_def)
qed

end
