(* ===== verification/Server.thy ===== *)
theory Server
  imports Http Usb Pci VncStore TpmStore Autostart Schedule Backup Settings Mounts Storage
begin

section \<open>The server: its state, what it draws from outside, its views\<close>

text \<open>
  \<open>Server\<close> of \<open>internal/handlers\<close>: the stores and managers it holds, which the handlers change, with
  the world they act on; \<open>svArmed\<close> is the package variable \<open>memStatsArmed\<close>. \<open>ctx\<close> is what stays
  fixed while a request is handled: the client, the snapshot root, and what the code draws from
  outside (clock in nanoseconds, its rendering, random identifiers, iteration orders,
  \<open>statfs\<close>, \<open>readlink\<close>).
\<close>

record 'h server =
  svAuto :: "AutoEntry store"
  svMounts :: MountManager
  svUSB :: "UsbPin store"
  svPCI :: "PciPin store"
  svSched :: "SchedEntry store"
  svBackup :: Manager
  svVNC :: "VncEntry store"
  svTPM :: "string store"
  svSettings :: SettingsStore
  svArmed :: "int gmap"
  svLaunched :: "launch list"
  svWorld :: "'h world"

record 'h ctx =
  cxEnv :: "'h env"
  cxVirsh :: Client
  cxSnapshotRoot :: string
  cxNow :: int
  cxStamp :: string
  cxNewID :: string
  cxVersion :: string
  cxStatfs :: statfs
  cxReadlink :: "string \<Rightarrow> string option"
  cxTargetOrder :: "Target list \<Rightarrow> Target list"
  cxAutoOrder :: "AutoEntry order"
  cxMountOrder :: "MountEntry order"
  cxUsbOrder :: "UsbPin order"
  cxPciOrder :: "PciPin order"
  cxSchedOrder :: "SchedEntry order"
  cxJobOrder :: "Job order"
  cxVncOrder :: "VncEntry order"
  cxTpmOrder :: "string order"
  cxLabelOrder :: "string order"
  cxUnitOrder :: "string order"

type_synonym ('a, 'h) handler = "('a, 'h server) hact"

subsection \<open>Calls on the components\<close>

definition worldH :: "('a, 'h world) act \<Rightarrow> ('a res, 'h) handler" where
  "worldH m s = (case m (svWorld s) of (r, w) \<Rightarrow> (Inr r, s\<lparr>svWorld := w\<rparr>))"

text \<open>A virsh method whose error ends the request.\<close>

definition virshH :: "nat \<Rightarrow> string \<Rightarrow> ('a, 'h world) act \<Rightarrow> ('a, 'h) handler" where
  "virshH code pre m = bindH (worldH m) (orFail code pre)"

text \<open>A virsh method whose error is dropped (\<open>x, _ := ...\<close>); \<open>zero\<close> is the result it has then.\<close>

definition virshOr :: "'a \<Rightarrow> ('a, 'h world) act \<Rightarrow> ('a, 'h) handler" where
  "virshOr zero m =
     bindH (worldH m) (\<lambda>r. retH (case r of Inl _ \<Rightarrow> zero | Inr a \<Rightarrow> a))"

text \<open>A mutating method of a store: the store and the world it leaves.\<close>

definition usbH ::
  "(UsbPin store \<Rightarrow> 'h world \<Rightarrow> 'r \<times> UsbPin store \<times> 'h world) \<Rightarrow> ('r, 'h) handler" where
  "usbH f s = (case f (svUSB s) (svWorld s) of (r, st, w) \<Rightarrow> (Inr r, s\<lparr>svUSB := st, svWorld := w\<rparr>))"

definition pciH ::
  "(PciPin store \<Rightarrow> 'h world \<Rightarrow> 'r \<times> PciPin store \<times> 'h world) \<Rightarrow> ('r, 'h) handler" where
  "pciH f s = (case f (svPCI s) (svWorld s) of (r, st, w) \<Rightarrow> (Inr r, s\<lparr>svPCI := st, svWorld := w\<rparr>))"

definition vncH ::
  "(VncEntry store \<Rightarrow> 'h world \<Rightarrow> 'r \<times> VncEntry store \<times> 'h world) \<Rightarrow> ('r, 'h) handler" where
  "vncH f s = (case f (svVNC s) (svWorld s) of (r, st, w) \<Rightarrow> (Inr r, s\<lparr>svVNC := st, svWorld := w\<rparr>))"

definition tpmH ::
  "(string store \<Rightarrow> 'h world \<Rightarrow> 'r \<times> string store \<times> 'h world) \<Rightarrow> ('r, 'h) handler" where
  "tpmH f s = (case f (svTPM s) (svWorld s) of (r, st, w) \<Rightarrow> (Inr r, s\<lparr>svTPM := st, svWorld := w\<rparr>))"

definition autoH ::
  "(AutoEntry store \<Rightarrow> 'h world \<Rightarrow> 'r \<times> AutoEntry store \<times> 'h world) \<Rightarrow> ('r, 'h) handler" where
  "autoH f s = (case f (svAuto s) (svWorld s) of (r, st, w) \<Rightarrow> (Inr r, s\<lparr>svAuto := st, svWorld := w\<rparr>))"

definition schedH ::
  "(SchedEntry store \<Rightarrow> 'h world \<Rightarrow> 'r \<times> SchedEntry store \<times> 'h world) \<Rightarrow> ('r, 'h) handler" where
  "schedH f s = (case f (svSched s) (svWorld s) of (r, st, w) \<Rightarrow> (Inr r, s\<lparr>svSched := st, svWorld := w\<rparr>))"

definition mountsH ::
  "(MountManager \<Rightarrow> 'h world \<Rightarrow> 'r \<times> MountManager \<times> 'h world) \<Rightarrow> ('r, 'h) handler" where
  "mountsH f s = (case f (svMounts s) (svWorld s) of (r, st, w) \<Rightarrow> (Inr r, s\<lparr>svMounts := st, svWorld := w\<rparr>))"

definition settingsH ::
  "(SettingsStore \<Rightarrow> 'h world \<Rightarrow> 'r \<times> SettingsStore \<times> 'h world) \<Rightarrow> ('r, 'h) handler" where
  "settingsH f s =
     (case f (svSettings s) (svWorld s) of (r, st, w) \<Rightarrow> (Inr r, s\<lparr>svSettings := st, svWorld := w\<rparr>))"

definition backupH ::
  "(Manager \<Rightarrow> 'h world \<Rightarrow> 'r \<times> Manager \<times> 'h world) \<Rightarrow> ('r, 'h) handler" where
  "backupH f s = (case f (svBackup s) (svWorld s) of (r, st, w) \<Rightarrow> (Inr r, s\<lparr>svBackup := st, svWorld := w\<rparr>))"

subsection \<open>Views\<close>

text \<open>A slice that is nil when it has no element.\<close>

definition sliceOrNil :: "payload list \<Rightarrow> payload" where
  "sliceOrNil xs = (if xs = [] then PJ JNull else PArr xs)"

definition omitText :: "string \<Rightarrow> string \<Rightarrow> (string \<times> payload) list" where
  "omitText k v = (if v = [] then [] else [(k, jstr v)])"

definition mountPayload :: "MountView \<Rightarrow> payload" where
  "mountPayload v =
     PObj ([(''id'', jstr (mvID v)), (''name'', jstr (mvName v)), (''type'', jstr (mvType v)),
            (''host'', jstr (mvHost v)), (''share'', jstr (mvShare v)),
            (''mountpoint'', jstr (mvMountpoint v))]
       @ omitText ''username'' (mvUsername v)
       @ [(''has_password'', jbool (mvHasPassword v)), (''read_only'', jbool (mvReadOnly v)),
          (''auto_mount'', jbool (mvAutoMount v))]
       @ omitText ''options'' (mvOptions v)
       @ [(''mounted'', jbool (mvMounted v))]
       @ (case mvLastError v of None \<Rightarrow> [] | Some e \<Rightarrow> [(''last_error'', PText [] e)]))"

text \<open>The zero view that a \<open>Get\<close> of a missing entry returns.\<close>

definition zeroMountView :: MountView where
  "zeroMountView =
     \<lparr>mvID = [], mvName = [], mvType = [], mvHost = [], mvShare = [], mvMountpoint = [], mvUsername = [],
      mvHasPassword = False, mvReadOnly = False, mvAutoMount = False, mvOptions = [], mvMounted = False,
      mvLastError = None\<rparr>"

definition mountGetPayload :: "'h ctx \<Rightarrow> string \<Rightarrow> 'h server \<Rightarrow> payload" where
  "mountGetPayload cx i s =
     mountPayload (case mounts_Get (cxEnv cx) (svMounts s) (svWorld s) i of
                     None \<Rightarrow> zeroMountView | Some v \<Rightarrow> v)"

definition targetPayload :: "Target \<Rightarrow> payload" where
  "targetPayload t =
     PObj [(''path'', jstr (tgPath t)), (''fstype'', jstr (tgFsType t)), (''source'', jstr (tgSource t)),
           (''avail_bytes'', jint (int (tgAvailBytes t))), (''total_bytes'', jint (int (tgTotalBytes t))),
           (''is_remote'', jbool (tgIsRemote t)), (''suggested'', jbool (tgSuggested t))]"

definition snapshotPayload :: "Snapshot \<Rightarrow> payload" where
  "snapshotPayload s =
     PObj ([(''name'', jstr (snName s)), (''created_at'', jstr (snCreatedAt s))]
       @ omitText ''state'' (snState s) @ omitText ''parent'' (snParent s)
       @ omitText ''description'' (snDescription s) @ [(''current'', jbool (snCurrent s))])"

definition usbDevicePayload :: "UsbDevice \<Rightarrow> payload" where
  "usbDevicePayload d =
     PObj [(''bus'', jstr (udBus d)), (''device_id'', jstr (udDeviceID d)),
           (''vendor_id'', jstr (udVendorID d)), (''product_id'', jstr (udProductID d)),
           (''description'', jstr (udDescription d))]"

definition pciDevicePayload :: "PciDevice \<Rightarrow> payload" where
  "pciDevicePayload d =
     PObj [(''address'', jstr (pdAddress d)), (''vendor_id'', jstr (pdVendorID d)),
           (''device_id'', jstr (pdDeviceID d)), (''class'', jstr (pdClass d)),
           (''class_name'', jstr (pdClassName d)), (''description'', jstr (pdDescription d)),
           (''driver'', jstr (pdDriver d)), (''iommu_group'', jstr (pdIOMMUGroup d)),
           (''passable'', jbool (pdPassable d))]"

definition networkPayload :: "Network \<Rightarrow> payload" where
  "networkPayload n = PObj [(''name'', jstr (netName n)), (''active'', jbool (netActive n))]"

definition interfacePayload :: "Interface \<Rightarrow> payload" where
  "interfacePayload i =
     PObj [(''mac'', jstr (ifMAC i)), (''type'', jstr (ifType i)), (''source'', jstr (ifSource i)),
           (''model'', jstr (ifModel i))]"

definition jobPayload :: "Job \<Rightarrow> payload" where
  "jobPayload j =
     PObj ([(''id'', jstr (jID j)), (''vm'', jstr (jVM j)), (''dest'', jstr (jDest j)),
            (''state'', jstr (jState j)), (''step'', jstr (jStep j)),
            (''started_unix'', jint (jStartedUnix j))]
       @ (if jEndedUnix j = 0 then [] else [(''ended_unix'', jint (jEndedUnix j))])
       @ (case jError j of None \<Rightarrow> [] | Some e \<Rightarrow> [(''error'', PText [] e)]))"

subsection \<open>Relations on worlds\<close>

text \<open>A relation on worlds, as a relation on the states of the server.\<close>

definition onWorld :: "('h world \<Rightarrow> 'h world \<Rightarrow> bool) \<Rightarrow> 'h server \<Rightarrow> 'h server \<Rightarrow> bool" where
  "onWorld R s s' \<longleftrightarrow> R (svWorld s) (svWorld s')"

end
