(* ===== verification/HandlersVm.thy ===== *)
theory HandlersVm
  imports Server
begin

section \<open>Handlers: domains, autostart, power, metrics, mounts (internal/handlers)\<close>

text \<open>
  The handlers of \<open>handlers.go\<close> for the list of domains, the autostart entries, power actions, the
  metrics, the remote mounts and the storage targets. Each definition is a method of \<open>Server\<close>.
\<close>

definition health :: "'h ctx \<Rightarrow> request \<Rightarrow> (response, 'h) handler" where
  "health cx rq =
     retH (200, PObj [(''ok'', jbool True), (''service'', jstr ''zima-vm-extras''),
                      (''version'', jstr (cxVersion cx))])"

record VmEntry =
  vmName :: string
  vmTitle :: string
  vmState :: string
  vmLibvirtAS :: bool
  vmEnabled :: bool
  vmOrder :: int
  vmDelayS :: int
  vmWatchdog :: bool
  vmHasUEFI :: bool

definition vmEntry_enc :: "VmEntry \<Rightarrow> payload" where
  "vmEntry_enc v =
     PObj [(''name'', jstr (vmName v)), (''title'', jstr (vmTitle v)), (''state'', jstr (vmState v)),
           (''libvirt_autostart'', jbool (vmLibvirtAS v)), (''enabled'', jbool (vmEnabled v)),
           (''order'', jint (vmOrder v)), (''delay_s'', jint (vmDelayS v)),
           (''watchdog'', jbool (vmWatchdog v)), (''has_uefi'', jbool (vmHasUEFI v))]"

definition vmEntry :: "'h ctx \<Rightarrow> string \<Rightarrow> (VmEntry, 'h) handler" where
  "vmEntry cx n =
     bindH (getsH (\<lambda>s. auto_Get (svAuto s) n)) (\<lambda>e.
     bindH (virshOr [] (virsh_State (cxEnv cx) (cxVirsh cx) n)) (\<lambda>state.
     bindH (virshOr False (virsh_IsAutostart (cxEnv cx) (cxVirsh cx) n)) (\<lambda>las.
     bindH (virshOr False (virsh_HasUEFI (cxEnv cx) (cxVirsh cx) n)) (\<lambda>uefi.
     bindH (virshOr [] (virsh_Title (cxEnv cx) (cxVirsh cx) n)) (\<lambda>title.
     retH \<lparr>vmName = n, vmTitle = title, vmState = state, vmLibvirtAS = las, vmEnabled = aeEnabled e,
           vmOrder = aeOrder e, vmDelayS = aeDelayS e, vmWatchdog = aeWatchdog e, vmHasUEFI = uefi\<rparr>)))))"

definition listVMs :: "'h ctx \<Rightarrow> request \<Rightarrow> (response, 'h) handler" where
  "listVMs cx rq =
     bindH (rejectIf (rqMethod rq \<noteq> ''GET'') methodNotAllowed) (\<lambda>_.
     bindH (virshH 500 [] (virsh_ListDomains (cxEnv cx) (cxVirsh cx))) (\<lambda>names.
     bindH (forH (vmEntry cx) names) (\<lambda>out. retH (dataOf (map vmEntry_enc out)))))"

subsection \<open>Autostart\<close>

definition autostartCollection :: "'h ctx \<Rightarrow> request \<Rightarrow> (response, 'h) handler" where
  "autostartCollection cx rq =
     (if rqMethod rq = ''GET''
      then getsH (\<lambda>s. dataOf (map (PJ \<circ> auto_enc) (auto_All (cxAutoOrder cx) (svAuto s))))
      else retH methodNotAllowed)"

definition autostartItem :: "'h ctx \<Rightarrow> request \<Rightarrow> (response, 'h) handler" where
  "autostartItem cx rq =
     (let name = drop (length ''/api/autostart/'') (rqPath rq) in
     bindH (rejectIf (name = []) (writeErr 400 ''vm name required'')) (\<lambda>_.
     bindH (rejectIf (\<not> validName name) (writeErr 400 ''invalid vm name'')) (\<lambda>_.
     if rqMethod rq = ''GET'' then getsH (\<lambda>s. (200, PJ (auto_enc (auto_Get (svAuto s) name))))
     else if rqMethod rq = ''PUT'' then
       bindH (orFail 400 [] (decodeBody auto_fields zeroAutoEntry rq)) (\<lambda>e.
       bindH (autoH (auto_Set (cxAutoOrder cx) (cxEnv cx) (e\<lparr>aeName := name\<rparr>))) (\<lambda>r.
       bindH (orFail 500 [] r) (\<lambda>saved.
       bindH (virshH 500 ''libvirt autostart sync failed: ''
         (virsh_SetAutostart (cxEnv cx) (cxVirsh cx) name False)) (\<lambda>_.
       retH (200, PJ (auto_enc saved))))))
     else if rqMethod rq = ''DELETE'' then
       bindH (worldH (virsh_SetAutostart (cxEnv cx) (cxVirsh cx) name False)) (\<lambda>_.
       bindH (autoH (auto_Delete (cxAutoOrder cx) (cxEnv cx) name)) (\<lambda>r.
       bindH (orFail 500 [] r) (\<lambda>_. retH (okFlag ''deleted''))))
     else retH methodNotAllowed)))"

subsection \<open>Power\<close>

definition actionField :: "string field list" where
  "actionField = [(''action'', \<lambda>j a. asStr j a)]"

definition powerAct :: "'h ctx \<Rightarrow> string \<Rightarrow> string \<Rightarrow> (unit, 'h world) act option" where
  "powerAct cx action vm =
     (if action = ''start'' then Some (virsh_Start (cxEnv cx) (cxVirsh cx) vm)
      else if action = ''shutdown'' then Some (virsh_Shutdown (cxEnv cx) (cxVirsh cx) vm)
      else if action = ''reboot'' then Some (virsh_Reboot (cxEnv cx) (cxVirsh cx) vm)
      else if action = ''force-off'' then Some (virsh_Destroy (cxEnv cx) (cxVirsh cx) vm)
      else if action = ''suspend'' then Some (virsh_Suspend (cxEnv cx) (cxVirsh cx) vm)
      else if action = ''resume'' then Some (virsh_Resume (cxEnv cx) (cxVirsh cx) vm)
      else None)"

definition powerHandler :: "'h ctx \<Rightarrow> request \<Rightarrow> (response, 'h) handler" where
  "powerHandler cx rq =
     bindH (rejectIf (rqMethod rq \<noteq> ''POST'') methodNotAllowed) (\<lambda>_.
     let vm = Trim (TrimPrefix (rqPath rq) ''/api/power/'') ''/'' in
     bindH (rejectIf (vm = [] \<or> \<not> validName vm) (writeErr 400 ''invalid vm name'')) (\<lambda>_.
     bindH (orFail 400 [] (decodeBody actionField [] rq)) (\<lambda>action.
     case powerAct cx action vm of
       None \<Rightarrow> retH (writeErr 400
         ''action must be start, shutdown, reboot, force-off, suspend or resume'')
     | Some m \<Rightarrow>
         bindH (virshH 500 [] m) (\<lambda>_.
         bindH (virshOr [] (virsh_State (cxEnv cx) (cxVirsh cx) vm)) (\<lambda>state.
         retH (200, PObj [(''vm'', jstr vm), (''action'', jstr action), (''state'', jstr state)]))))))"

subsection \<open>Metrics\<close>

definition statOf :: "string gmap \<Rightarrow> string \<Rightarrow> string" where
  "statOf stats k = (case gget k stats of None \<Rightarrow> [] | Some v \<Rightarrow> v)"

definition memStatsPeriodSec :: int where
  "memStatsPeriodSec = 5"

text \<open>At most one attempt per domain in thirty seconds; the times of the last attempts are kept.\<close>

definition armMemStats :: "'h ctx \<Rightarrow> string \<Rightarrow> string gmap \<Rightarrow> (string gmap, 'h) handler" where
  "armMemStats cx vm stats s =
     (if statOf stats ''state.state'' \<noteq> ''1'' then (Inr stats, s)
      else if statOf stats ''balloon.available'' \<noteq> [] then (Inr stats, s)
      else if (case gget vm (svArmed s) of
                 None \<Rightarrow> False | Some t \<Rightarrow> time_Sub (cxNow cx) t < 30 * second)
      then (Inr stats, s)
      else
        (let s = s\<lparr>svArmed := gput vm (cxNow cx) (svArmed s)\<rparr>
         in bindH (worldH (virsh_SetMemStatsPeriod (cxEnv cx) (cxVirsh cx) vm memStatsPeriodSec)) (\<lambda>r.
              case r of
                Inl _ \<Rightarrow> retH stats
              | Inr _ \<Rightarrow> virshOr stats (virsh_DomainStats (cxEnv cx) (cxVirsh cx) vm)) s))"

text \<open>The conversion of a 64-bit unsigned count to a Go \<open>int\<close>.\<close>

definition countOf :: "string gmap \<Rightarrow> string \<Rightarrow> int" where
  "countOf stats k = int64 (int (atou (statOf stats k)))"

text \<open>A counter of a domain, its name and the totals in both directions (\<open>netStat\<close> and \<open>blockStat\<close>).\<close>

record IoStat =
  ioName :: string
  ioIn :: nat
  ioOut :: nat

definition ioStat_enc :: "string \<Rightarrow> string \<Rightarrow> IoStat \<Rightarrow> payload" where
  "ioStat_enc inKey outKey i =
     PObj [(''name'', jstr (ioName i)), (inKey, jint (int (ioIn i))), (outKey, jint (int (ioOut i)))]"

record Metrics =
  mxVM :: string
  mxState :: string
  mxTSMillis :: int
  mxCPUTimeNS :: nat
  mxVCPUs :: int
  mxMemCurKiB :: nat
  mxMemMaxKiB :: nat
  mxMemStats :: bool
  mxMemAvailKiB :: nat
  mxMemUnusedKiB :: nat
  mxMemUsableKiB :: nat
  mxMemRSSKiB :: nat
  mxNets :: "IoStat list"
  mxBlocks :: "IoStat list"

text \<open>\<open>omitempty\<close>.\<close>

definition omitUint :: "string \<Rightarrow> nat \<Rightarrow> (string \<times> payload) list" where
  "omitUint k v = (if v = 0 then [] else [(k, jint (int v))])"

definition metrics_enc :: "Metrics \<Rightarrow> payload" where
  "metrics_enc m =
     PObj ([(''vm'', jstr (mxVM m)), (''state'', jstr (mxState m)), (''ts_ms'', jint (mxTSMillis m)),
            (''cpu_time_ns'', jint (int (mxCPUTimeNS m))), (''vcpus'', jint (mxVCPUs m)),
            (''mem_cur_kib'', jint (int (mxMemCurKiB m))), (''mem_max_kib'', jint (int (mxMemMaxKiB m))),
            (''mem_stats'', jbool (mxMemStats m))]
       @ omitUint ''mem_avail_kib'' (mxMemAvailKiB m) @ omitUint ''mem_unused_kib'' (mxMemUnusedKiB m)
       @ omitUint ''mem_usable_kib'' (mxMemUsableKiB m) @ omitUint ''mem_rss_kib'' (mxMemRSSKiB m)
       @ [(''nets'', sliceOrNil (map (ioStat_enc ''rx_bytes'' ''tx_bytes'') (mxNets m))),
          (''blocks'', sliceOrNil (map (ioStat_enc ''rd_bytes'' ''wr_bytes'') (mxBlocks m)))])"

text \<open>Whether the guest's own figures are shown: both halves of the subtraction must be real.\<close>

definition memStats :: "Metrics \<Rightarrow> bool" where
  "memStats m \<longleftrightarrow> 0 < mxMemAvailKiB m \<and> 0 < mxMemUnusedKiB m \<and> mxMemUnusedKiB m \<le> mxMemAvailKiB m"

definition ioStats :: "string gmap \<Rightarrow> string \<Rightarrow> string \<Rightarrow> string \<Rightarrow> IoStat list" where
  "ioStats stats grp inSub outSub =
     map (\<lambda>i.
       let p = grp @ ''.'' @ natDigits i @ ''.''
       in \<lparr>ioName = statOf stats (p @ ''name''), ioIn = atou (statOf stats (p @ inSub)),
           ioOut = atou (statOf stats (p @ outSub))\<rparr>)
       [0 ..< nat (countOf stats (grp @ ''.count''))]"

definition metricsOf :: "'h ctx \<Rightarrow> string \<Rightarrow> string gmap \<Rightarrow> Metrics" where
  "metricsOf cx vm stats =
     (let u = (\<lambda>k. atou (statOf stats k));
          out = \<lparr>mxVM = vm, mxState = domStateName (statOf stats ''state.state''),
                 mxTSMillis = cxNow cx div 10 ^ 6, mxCPUTimeNS = u ''cpu.time'',
                 mxVCPUs = countOf stats ''vcpu.current'', mxMemCurKiB = u ''balloon.current'',
                 mxMemMaxKiB = u ''balloon.maximum'', mxMemStats = False,
                 mxMemAvailKiB = u ''balloon.available'', mxMemUnusedKiB = u ''balloon.unused'',
                 mxMemUsableKiB = u ''balloon.usable'', mxMemRSSKiB = u ''balloon.rss'',
                 mxNets = [], mxBlocks = []\<rparr>
      in out\<lparr>mxMemStats := memStats out, mxNets := ioStats stats ''net'' ''rx.bytes'' ''tx.bytes'',
             mxBlocks := ioStats stats ''block'' ''rd.bytes'' ''wr.bytes''\<rparr>)"

definition metricsHandler :: "'h ctx \<Rightarrow> request \<Rightarrow> (response, 'h) handler" where
  "metricsHandler cx rq =
     bindH (rejectIf (rqMethod rq \<noteq> ''GET'') methodNotAllowed) (\<lambda>_.
     let vm = TrimPrefix (rqPath rq) ''/api/metrics/'' in
     bindH (rejectIf (vm = [] \<or> \<not> validName vm) (writeErr 400 ''invalid vm name'')) (\<lambda>_.
     bindH (virshH 500 [] (virsh_DomainStats (cxEnv cx) (cxVirsh cx) vm)) (\<lambda>stats.
     bindH (armMemStats cx vm stats) (\<lambda>stats.
     retH (200, metrics_enc (metricsOf cx vm stats))))))"

subsection \<open>Mounts and storage targets\<close>

definition mountsCollection :: "'h ctx \<Rightarrow> request \<Rightarrow> (response, 'h) handler" where
  "mountsCollection cx rq =
     (if rqMethod rq = ''GET'' then
        getsH (\<lambda>s. dataOf (map mountPayload
          (mounts_List (cxMountOrder cx) (cxEnv cx) (svMounts s) (svWorld s))))
      else if rqMethod rq = ''POST'' then
        bindH (orFail 400 [] (decodeBody mount_fields zeroMount rq)) (\<lambda>e.
        bindH (mountsH (mounts_Upsert (cxMountOrder cx) (cxEnv cx) (cxNewID cx) e)) (\<lambda>r.
        bindH (orFail 400 [] r) (\<lambda>e.
        bindH (getsH (\<lambda>s. meAutoMount e \<and> \<not> IsMounted (cxEnv cx) (meMountpoint e) (svWorld s))) (\<lambda>now.
        bindH (if now then mountsH (mounts_Mount (cxEnv cx) (meID e)) else retH (Inr ())) (\<lambda>m.
        getsH (\<lambda>s.
          case m of
            Inl x \<Rightarrow> (207, PObj [(''entry'', mountGetPayload cx (meID e) s), (''mount_error'', PText [] x)])
          | Inr _ \<Rightarrow> (201, mountGetPayload cx (meID e) s)))))))
      else retH methodNotAllowed)"

definition mountAction ::
  "'h ctx \<Rightarrow> request \<Rightarrow> string \<Rightarrow> (MountManager \<Rightarrow> 'h world \<Rightarrow> unit res \<times> MountManager \<times> 'h world)
    \<Rightarrow> (response, 'h) handler" where
  "mountAction cx rq i f =
     bindH (rejectIf (rqMethod rq \<noteq> ''POST'') methodNotAllowed) (\<lambda>_.
     bindH (mountsH f) (\<lambda>r.
     bindH (orFail 500 [] r) (\<lambda>_. getsH (\<lambda>s. (200, mountGetPayload cx i s)))))"

text \<open>\<open>Unmount\<close> leaves the manager as it is.\<close>

definition unmountM ::
  "'h env \<Rightarrow> string \<Rightarrow> MountManager \<Rightarrow> 'h world \<Rightarrow> unit res \<times> MountManager \<times> 'h world" where
  "unmountM env i m w = (case mounts_Unmount env m i w of (r, w) \<Rightarrow> (r, m, w))"

definition mountsItem :: "'h ctx \<Rightarrow> request \<Rightarrow> (response, 'h) handler" where
  "mountsItem cx rq =
     (let parts = pathParts (TrimPrefix (rqPath rq) ''/api/mounts/''); i = parts ! 0 in
     bindH (rejectIf (i = []) (writeErr 400 ''id required'')) (\<lambda>_.
     if 2 \<le> length parts then
       (if parts ! 1 = ''mount'' then mountAction cx rq i (mounts_Mount (cxEnv cx) i)
        else if parts ! 1 = ''unmount'' then mountAction cx rq i (unmountM (cxEnv cx) i)
        else retH (writeErr 404 ''unknown action''))
     else if rqMethod rq = ''GET'' then
       getsH (\<lambda>s. case mounts_Get (cxEnv cx) (svMounts s) (svWorld s) i of
                    None \<Rightarrow> writeErr 404 ''not found'' | Some v \<Rightarrow> (200, mountPayload v))
     else if rqMethod rq = ''PUT'' then
       bindH (getsH (\<lambda>s. gget i (sdata (mmStore (svMounts s))) = None)) (\<lambda>absent.
       bindH (rejectIf absent (writeErr 404 ''not found'')) (\<lambda>_.
       bindH (orFail 400 [] (decodeBody mount_fields zeroMount rq)) (\<lambda>e.
       bindH (mountsH (mounts_Upsert (cxMountOrder cx) (cxEnv cx) (cxNewID cx) (e\<lparr>meID := i\<rparr>))) (\<lambda>r.
       bindH (orFail 400 [] r) (\<lambda>_. getsH (\<lambda>s. (200, mountGetPayload cx i s)))))))
     else if rqMethod rq = ''DELETE'' then
       bindH (mountsH (unmountM (cxEnv cx) i)) (\<lambda>_.
       bindH (mountsH (mounts_Delete (cxMountOrder cx) (cxEnv cx) i)) (\<lambda>r.
       bindH (orFail 500 [] r) (\<lambda>_. retH (okFlag ''deleted''))))
     else retH methodNotAllowed))"

definition storageTargets :: "'h ctx \<Rightarrow> request \<Rightarrow> (response, 'h) handler" where
  "storageTargets cx rq =
     bindH (rejectIf (rqMethod rq \<noteq> ''GET'') methodNotAllowed) (\<lambda>_.
     bindH (getsH (\<lambda>s. storage_List (cxEnv cx) (cxStatfs cx) (cxTargetOrder cx) (svWorld s))) (\<lambda>r.
     bindH (orFail 500 [] r) (\<lambda>ts.
     retH (200, PObj [(''data'', sliceOrNil (map targetPayload ts))]))))"

end
