(* ===== verification/HandlersSnapshot.thy ===== *)
theory HandlersSnapshot
  imports Server
begin

section \<open>Handlers: snapshots, settings, schedules, backups (internal/handlers)\<close>

text \<open>
  The handlers of \<open>handlers.go\<close> for snapshots, for the remembered directories, for the
  schedules and for the backup jobs. A started backup job is recorded in \<open>svLaunched\<close> with what its
  goroutine \<open>backup_run\<close> is given.
\<close>

definition snapshotBase :: "'h ctx \<Rightarrow> 'h server \<Rightarrow> string" where
  "snapshotBase cx s =
     (let d = sSnapshotDir (settings_Get (svSettings s)) in if d \<noteq> [] then d else cxSnapshotRoot cx)"

definition snapshotExists :: "'h ctx \<Rightarrow> string \<Rightarrow> string \<Rightarrow> (bool, 'h world) act" where
  "snapshotExists cx vm snap =
     bindAct (virsh_ListSnapshots (cxEnv cx) (cxVirsh cx) vm) (\<lambda>list.
       retAct (list_ex (\<lambda>e. snName e = snap) list))"

definition isLive :: "string \<Rightarrow> bool" where
  "isLive state \<longleftrightarrow> state = ''running'' \<or> state = ''paused''"

definition snapshotList :: "'h ctx \<Rightarrow> string \<Rightarrow> (response, 'h) handler" where
  "snapshotList cx vm =
     bindH (virshH 500 [] (virsh_ListSnapshots (cxEnv cx) (cxVirsh cx) vm)) (\<lambda>list.
     bindH (virshOr [] (virsh_CurrentSnapshot (cxEnv cx) (cxVirsh cx) vm)) (\<lambda>cur.
     bindH (virshOr [] (virsh_State (cxEnv cx) (cxVirsh cx) vm)) (\<lambda>state.
     bindH (virshOr False (virsh_HasUEFI (cxEnv cx) (cxVirsh cx) vm)) (\<lambda>uefi.
     getsH (\<lambda>s. (200, PObj [
       (''data'', sliceOrNil (map snapshotPayload list)), (''current'', jstr cur),
       (''has_uefi'', jbool uefi), (''state'', jstr state),
       (''external_required'', jbool (isLive state)),
       (''default_external_dir'', jstr (JoinPath [snapshotBase cx s, vm]))]))))))"

record SnapReq =
  srName :: string
  srDescription :: string
  srExternal :: bool
  srExternalDir :: string

definition snapReq_fields :: "SnapReq field list" where
  "snapReq_fields =
     [(''name'', strField srName srName_update), (''description'', strField srDescription srDescription_update),
      (''external'', boolField srExternal srExternal_update),
      (''external_dir'', strField srExternalDir srExternalDir_update)]"

definition zeroSnapReq :: SnapReq where
  "zeroSnapReq = \<lparr>srName = [], srDescription = [], srExternal = False, srExternalDir = []\<rparr>"

text \<open>Where the overlays of a live domain go: what the caller asked for, or the default.\<close>

definition externalDir :: "'h ctx \<Rightarrow> 'h server \<Rightarrow> string \<Rightarrow> string \<Rightarrow> string" where
  "externalDir cx s vm wanted =
     (let d = TrimSpace wanted in if d = [] then JoinPath [snapshotBase cx s, vm] else d)"

definition badDir :: "string \<Rightarrow> bool" where
  "badDir p \<longleftrightarrow> \<not> IsAbs p \<or> Contains p ''..''"

text \<open>The checks on the directory and its creation, skipped for an internal snapshot.\<close>

definition prepareDir :: "'h ctx \<Rightarrow> bool \<Rightarrow> string \<Rightarrow> (unit, 'h) handler" where
  "prepareDir cx external extDir =
     (if \<not> external then retH ()
      else
        bindH (rejectIf (badDir extDir)
          (writeErr 400 (''external_dir must be an absolute path without '' @ sq ''..''))) (\<lambda>_.
        bindH (rejectIf (forbiddenSnapshotDir extDir)
          (writeErr 400 ''external_dir is not allowed (system path)'')) (\<lambda>_.
        bindH (worldH (\<lambda>w. (os_MkdirAll (cxEnv cx) extDir w, w))) (\<lambda>r.
        orFail 500 ''mkdir snapshot dir: '' r))))"

text \<open>The base the next snapshot is offered: the directory without the domain's own subdirectory.\<close>

definition rememberDir :: "'h ctx \<Rightarrow> bool \<Rightarrow> string \<Rightarrow> string \<Rightarrow> (unit, 'h) handler" where
  "rememberDir cx external vm extDir =
     (if \<not> external then retH ()
      else
        (let base = (if Base extDir = vm then Dir extDir else extDir) in
        bindH (getsH (\<lambda>s. settings_Get (svSettings s))) (\<lambda>cur.
        if sSnapshotDir cur = base then retH ()
        else bindH (settingsH (settings_Set (cxEnv cx) (cur\<lparr>sSnapshotDir := base\<rparr>))) (\<lambda>_. retH ()))))"

definition snapshotCreate :: "'h ctx \<Rightarrow> request \<Rightarrow> string \<Rightarrow> (response, 'h) handler" where
  "snapshotCreate cx rq vm =
     bindH (orFail 400 [] (decodeBody snapReq_fields zeroSnapReq rq)) (\<lambda>req.
     bindH (rejectIf (srName req = []) (writeErr 400 ''snapshot name required'')) (\<lambda>_.
     bindH (rejectIf (\<not> validSnapshotName (srName req)) (writeErr 400
       (''snapshot name may contain letters, digits, single spaces and _ . - + '' @ emDash @ '' no leading ''
         @ sq ''-'' @ '', no '' @ sq ''..'' @ '', no double spaces''))) (\<lambda>_.
     bindH (rejectIf (256 < length (srDescription req))
       (writeErr 400 ''description must be 256 characters or fewer'')) (\<lambda>_.
     bindH (rejectIf (ContainsAny (srDescription req) [nl, CHR 0x0D, CHR 0x00])
       (writeErr 400 ''description must not contain control characters'')) (\<lambda>_.
     bindH (virshOr [] (virsh_State (cxEnv cx) (cxVirsh cx) vm)) (\<lambda>state.
     let external = isLive state in
     bindH (getsH (\<lambda>s. if external then externalDir cx s vm (srExternalDir req) else [])) (\<lambda>extDir.
     bindH (prepareDir cx external extDir) (\<lambda>_.
     bindH (virshH 500 [] (virsh_CreateSnapshot (cxEnv cx) (cxVirsh cx) vm (srName req)
       (srDescription req) external extDir)) (\<lambda>_.
     bindH (rememberDir cx external vm extDir) (\<lambda>_.
     retH (201, PObj [(''name'', jstr (srName req)), (''external'', jbool external),
                      (''external_dir'', jstr extDir)])))))))))))"

definition forceField :: "bool field list" where
  "forceField = [(''force'', \<lambda>j b. asBool j b)]"

definition snapshotRevert :: "'h ctx \<Rightarrow> request \<Rightarrow> string \<Rightarrow> string \<Rightarrow> (response, 'h) handler" where
  "snapshotRevert cx rq vm snap =
     bindH (virshH 500 [] (virsh_RevertSnapshot (cxEnv cx) (cxVirsh cx) vm snap
       (decodeBest forceField False rq))) (\<lambda>_. retH (okFlag ''reverted''))"

text \<open>The routes on an existing snapshot: its name must be one the domain has.\<close>

definition snapshotItem :: "'h ctx \<Rightarrow> request \<Rightarrow> string \<Rightarrow> string list \<Rightarrow> (response, 'h) handler" where
  "snapshotItem cx rq vm parts =
     (let snap = parts ! 1 in
     bindH (rejectIf (snap = []) (writeErr 400 ''snapshot name required'')) (\<lambda>_.
     bindH (rejectIf (HasPrefix snap ''-'') (writeErr 400 ''invalid snapshot name'')) (\<lambda>_.
     bindH (virshH 500 [] (snapshotExists cx vm snap)) (\<lambda>known.
     bindH (rejectIf (\<not> known) (writeErr 404 (''no snapshot named '' @ Quote snap @ '' on this VM''))) (\<lambda>_.
     if 3 \<le> length parts \<and> parts ! 2 = ''revert'' then
       bindH (rejectIf (rqMethod rq \<noteq> ''POST'') methodNotAllowed) (\<lambda>_. snapshotRevert cx rq vm snap)
     else if rqMethod rq = ''DELETE'' then
       bindH (virshH 500 [] (virsh_DeleteSnapshot (cxEnv cx) (cxVirsh cx) vm snap
         (rqQuery rq ''children'' = ''1''))) (\<lambda>_. retH (okFlag ''deleted''))
     else retH methodNotAllowed)))))"

definition snapshotHandler :: "'h ctx \<Rightarrow> request \<Rightarrow> (response, 'h) handler" where
  "snapshotHandler cx rq =
     (let parts = pathParts (TrimPrefix (rqPath rq) ''/api/snapshot/''); vm = parts ! 0 in
     bindH (rejectIf (vm = []) (writeErr 400 ''vm name required'')) (\<lambda>_.
     bindH (rejectIf (\<not> validName vm) (writeErr 400 ''invalid vm name'')) (\<lambda>_.
     if length parts = 1 then
       (if rqMethod rq = ''GET'' then snapshotList cx vm
        else if rqMethod rq = ''POST'' then snapshotCreate cx rq vm
        else retH methodNotAllowed)
     else snapshotItem cx rq vm parts)))"

subsection \<open>Settings\<close>

definition settingsPayload :: "SettingsData \<Rightarrow> payload" where
  "settingsPayload d = PJ (settings_enc d)"

definition checkLabel :: "string \<times> string \<Rightarrow> (unit, 'h) handler" where
  "checkLabel lp =
     (case lp of (label, p) \<Rightarrow>
        if p = [] then retH ()
        else bindH (rejectIf (badDir p) (writeErr 400 (label @ '' must be an absolute path without '' @ sq ''..''))) (\<lambda>_.
             rejectIf (forbiddenSnapshotDir p) (writeErr 400 (label @ '' is not allowed (system path)''))))"

definition settingsHandler :: "'h ctx \<Rightarrow> request \<Rightarrow> (response, 'h) handler" where
  "settingsHandler cx rq =
     (if rqMethod rq = ''GET'' then getsH (\<lambda>s. (200, settingsPayload (settings_Get (svSettings s))))
      else if rqMethod rq = ''PUT'' then
        bindH (orFail 400 [] (decodeBody settings_fields zeroSettings rq)) (\<lambda>d.
        let d = d\<lparr>sBackupDir := TrimSpace (sBackupDir d), sSnapshotDir := TrimSpace (sSnapshotDir d)\<rparr> in
        bindH (forH checkLabel (cxLabelOrder cx
          [(''backup_dir'', sBackupDir d), (''snapshot_dir'', sSnapshotDir d)])) (\<lambda>_.
        bindH (settingsH (settings_Set (cxEnv cx) d)) (\<lambda>r.
        bindH (orFail 500 [] r) (\<lambda>_.
        getsH (\<lambda>s. (200, settingsPayload (settings_Get (svSettings s))))))))
      else retH methodNotAllowed)"

subsection \<open>Schedules\<close>

definition scheduleCollection :: "'h ctx \<Rightarrow> request \<Rightarrow> (response, 'h) handler" where
  "scheduleCollection cx rq =
     bindH (rejectIf (rqMethod rq \<noteq> ''GET'') methodNotAllowed) (\<lambda>_.
     getsH (\<lambda>s. dataOf (map (PJ \<circ> sched_enc) (sched_List (cxSchedOrder cx) (svSched s)))))"

definition scheduleItem :: "'h ctx \<Rightarrow> request \<Rightarrow> (response, 'h) handler" where
  "scheduleItem cx rq =
     (let vm = TrimPrefix (rqPath rq) ''/api/schedule/'' in
     bindH (rejectIf (vm = [] \<or> \<not> validName vm) (writeErr 400 ''invalid vm name'')) (\<lambda>_.
     if rqMethod rq = ''GET'' then getsH (\<lambda>s. (200, PJ (sched_enc (sched_Get (svSched s) vm))))
     else if rqMethod rq = ''PUT'' then
       bindH (orFail 400 [] (decodeBody sched_fields zeroSchedEntry rq)) (\<lambda>e.
       bindH (schedH (sched_Upsert (cxSchedOrder cx) (cxEnv cx) (e\<lparr>seVM := vm\<rparr>))) (\<lambda>r.
       bindH (orFail 400 [] r) (\<lambda>saved. retH (200, PJ (sched_enc saved)))))
     else if rqMethod rq = ''DELETE'' then
       bindH (schedH (sched_Delete (cxSchedOrder cx) (cxEnv cx) vm)) (\<lambda>r.
       bindH (orFail 500 [] r) (\<lambda>_. retH (okFlag ''deleted'')))
     else retH methodNotAllowed))"

subsection \<open>Backups\<close>

definition backupCollection :: "'h ctx \<Rightarrow> request \<Rightarrow> (response, 'h) handler" where
  "backupCollection cx rq =
     bindH (rejectIf (rqMethod rq \<noteq> ''GET'') methodNotAllowed) (\<lambda>_.
     getsH (\<lambda>s. dataOf (map jobPayload (backup_List (cxJobOrder cx) (svBackup s)))))"

definition destField :: "string field list" where
  "destField = [(''dest_dir'', \<lambda>j d. asStr j d)]"

text \<open>The directory asked for, the remembered one, or the built-in one.\<close>

definition backupDest :: "'h ctx \<Rightarrow> 'h server \<Rightarrow> request \<Rightarrow> string" where
  "backupDest cx s rq =
     (let dest = TrimSpace (decodeBest destField [] rq);
          dest = (if dest = [] then sBackupDir (settings_Get (svSettings s)) else dest)
      in if dest = [] then JoinPath [Dir (cxSnapshotRoot cx), ''backups''] else dest)"

definition launchJob :: "launch \<Rightarrow> (unit, 'h) handler" where
  "launchJob l s = (Inr (), s\<lparr>svLaunched := svLaunched s @ [l]\<rparr>)"

definition rememberBackupDir :: "'h ctx \<Rightarrow> string \<Rightarrow> (unit, 'h) handler" where
  "rememberBackupDir cx dest =
     bindH (getsH (\<lambda>s. settings_Get (svSettings s))) (\<lambda>cur.
     if sBackupDir cur = dest then retH ()
     else bindH (settingsH (settings_Set (cxEnv cx) (cur\<lparr>sBackupDir := dest\<rparr>))) (\<lambda>_. retH ()))"

definition backupItem :: "'h ctx \<Rightarrow> request \<Rightarrow> (response, 'h) handler" where
  "backupItem cx rq =
     (let vm = TrimPrefix (rqPath rq) ''/api/backup/'' in
     bindH (rejectIf (vm = [] \<or> \<not> validName vm) (writeErr 400 ''invalid vm name'')) (\<lambda>_.
     bindH (rejectIf (rqMethod rq \<noteq> ''POST'') methodNotAllowed) (\<lambda>_.
     bindH (getsH (\<lambda>s. backupDest cx s rq)) (\<lambda>dest.
     bindH (rejectIf (badDir dest) (writeErr 400 (''dest_dir must be an absolute path without '' @ sq ''..''))) (\<lambda>_.
     bindH (rejectIf (forbiddenSnapshotDir dest) (writeErr 400 ''dest_dir is not allowed (system path)'')) (\<lambda>_.
     bindH (backupH (backup_Start (cxJobOrder cx) (cxEnv cx) (backup_controller (cxEnv cx) (cxVirsh cx))
       (cxNewID cx) (cxStamp cx) (cxNow cx div second) vm dest)) (\<lambda>r.
     bindH (orFail 400 [] r) (\<lambda>l.
     bindH (launchJob l) (\<lambda>_.
     bindH (rememberBackupDir cx dest) (\<lambda>_.
     retH (202, jobPayload (fst l))))))))))))"

end
