(* ===== verification/HandlersDevices.thy ===== *)
theory HandlersDevices
  imports Server
begin

section \<open>Handlers: USB, PCI, network interfaces (internal/handlers)\<close>

text \<open>
  The handlers of \<open>handlers.go\<close> that attach and detach host devices and that move a network
  interface to another libvirt network.
\<close>

definition usbHost :: "'h ctx \<Rightarrow> request \<Rightarrow> (response, 'h) handler" where
  "usbHost cx rq =
     bindH (rejectIf (rqMethod rq \<noteq> ''GET'') methodNotAllowed) (\<lambda>_.
     bindH (virshH 500 [] (usb_HostSlice (cxEnv cx) [])) (\<lambda>devs.
     retH (case devs of
             None \<Rightarrow> (200, PObj [(''data'', PJ JNull)])
           | Some ds \<Rightarrow> dataOf (map usbDevicePayload ds))))"

record UsbReq =
  urVendorID :: string
  urProductID :: string
  urPersistent :: bool
  urDescription :: string

definition usbReq_fields :: "UsbReq field list" where
  "usbReq_fields =
     [(''vendor_id'', strField urVendorID urVendorID_update),
      (''product_id'', strField urProductID urProductID_update),
      (''persistent'', boolField urPersistent urPersistent_update),
      (''description'', strField urDescription urDescription_update)]"

definition zeroUsbReq :: UsbReq where
  "zeroUsbReq = \<lparr>urVendorID = [], urProductID = [], urPersistent = False, urDescription = []\<rparr>"

definition usbAttach :: "'h ctx \<Rightarrow> request \<Rightarrow> string \<Rightarrow> (response, 'h) handler" where
  "usbAttach cx rq vm =
     bindH (orFail 400 [] (decodeBody usbReq_fields zeroUsbReq rq)) (\<lambda>req.
     bindH (rejectIf (\<not> validHexID (urVendorID req) \<or> \<not> validHexID (urProductID req))
       (writeErr 400 ''vendor_id and product_id must be 4 hex digits'')) (\<lambda>_.
     bindH (rejectIf (IsRootHub (urVendorID req))
       (writeErr 400 ''USB root hubs (vendor 1d6b) cannot be passed through to a guest'')) (\<lambda>_.
     bindH (virshH 500 [] (virsh_AttachDeviceXML (cxEnv cx) (cxVirsh cx) vm
       (usb_HostdevXML (urVendorID req) (urProductID req)) (urPersistent req))) (\<lambda>_.
     bindH (if urPersistent req
            then usbH (usb_Add (cxUsbOrder cx) (cxEnv cx)
              \<lparr>upVM = vm, upVendorID = urVendorID req, upProductID = urProductID req,
               upDescription = urDescription req\<rparr>)
            else retH (Inr ())) (\<lambda>r.
     bindH (orFail 500 ''attached, but pinning failed: '' r) (\<lambda>_.
     retH (201, PObj [(''attached'', jbool True), (''pinned'', jbool (urPersistent req)),
                      (''vendor_id'', jstr (urVendorID req)), (''product_id'', jstr (urProductID req))])))))))"

definition usbDetach :: "'h ctx \<Rightarrow> string \<Rightarrow> string \<Rightarrow> (response, 'h) handler" where
  "usbDetach cx vm ids =
     (case Cut ids '':'' of
        None \<Rightarrow> retH (writeErr 400 ''expected <vendor>:<product> as 4 hex digits each'')
      | Some (v, p) \<Rightarrow>
          bindH (rejectIf (\<not> validHexID v \<or> \<not> validHexID p)
            (writeErr 400 ''expected <vendor>:<product> as 4 hex digits each'')) (\<lambda>_.
          bindH (usbH (usb_Remove (cxUsbOrder cx) (cxEnv cx) vm v p)) (\<lambda>_.
          bindH (virshH 500 [] (virsh_DetachDeviceXML (cxEnv cx) (cxVirsh cx) vm
            (usb_HostdevXML v p) True)) (\<lambda>_.
          retH (okFlag ''detached'')))))"

definition usbDomain :: "'h ctx \<Rightarrow> request \<Rightarrow> (response, 'h) handler" where
  "usbDomain cx rq =
     (let tail = TrimPrefix (rqPath rq) ''/api/usb/'' in
     if tail = ''host'' then usbHost cx rq
     else
       (let parts = pathParts tail; vm = parts ! 0 in
       bindH (rejectIf (vm = []) (writeErr 400 ''vm name required'')) (\<lambda>_.
       bindH (rejectIf (\<not> validName vm) (writeErr 400 ''invalid vm name'')) (\<lambda>_.
       if length parts = 2 \<and> parts ! 1 = ''pinned'' \<and> rqMethod rq = ''GET'' then
         getsH (\<lambda>s. dataOf (map (PJ \<circ> usb_enc) (usb_ForVM (cxUsbOrder cx) (svUSB s) vm)))
       else if length parts = 1 \<and> rqMethod rq = ''POST'' then usbAttach cx rq vm
       else if length parts = 2 \<and> rqMethod rq = ''DELETE'' then usbDetach cx vm (parts ! 1)
       else retH methodNotAllowed))))"

subsection \<open>PCI\<close>

definition pciHost :: "'h ctx \<Rightarrow> request \<Rightarrow> (response, 'h) handler" where
  "pciHost cx rq =
     bindH (rejectIf (rqMethod rq \<noteq> ''GET'') methodNotAllowed) (\<lambda>_.
     bindH (virshH 500 [] (pci_HostList (cxEnv cx) (cxReadlink cx) [])) (\<lambda>devs.
     retH (200, PObj [(''data'', sliceOrNil (map pciDevicePayload devs))])))"

record PciReq =
  prAddress :: string
  prPersistent :: bool
  prDescription :: string

definition pciReq_fields :: "PciReq field list" where
  "pciReq_fields =
     [(''address'', strField prAddress prAddress_update),
      (''persistent'', boolField prPersistent prPersistent_update),
      (''description'', strField prDescription prDescription_update)]"

definition zeroPciReq :: PciReq where
  "zeroPciReq = \<lparr>prAddress = [], prPersistent = False, prDescription = []\<rparr>"

definition pciAttach :: "'h ctx \<Rightarrow> request \<Rightarrow> string \<Rightarrow> (response, 'h) handler" where
  "pciAttach cx rq vm =
     bindH (orFail 400 [] (decodeBody pciReq_fields zeroPciReq rq)) (\<lambda>req.
     bindH (rejectIf (\<not> ValidAddress (prAddress req))
       (writeErr 400 ''address must be a PCI address like 0000:00:02.0'')) (\<lambda>_.
     bindH (orFail 400 [] (pci_HostdevXML (prAddress req))) (\<lambda>xml.
     bindH (virshH 500 [] (virsh_AttachDeviceXML (cxEnv cx) (cxVirsh cx) vm xml (prPersistent req))) (\<lambda>_.
     bindH (if prPersistent req
            then pciH (pci_Add (cxPciOrder cx) (cxEnv cx)
              \<lparr>ppVM = vm, ppAddress = prAddress req, ppDescription = prDescription req\<rparr>)
            else retH (Inr ())) (\<lambda>r.
     bindH (orFail 500 ''attached, but pinning failed: '' r) (\<lambda>_.
     retH (201, PObj [(''attached'', jbool True), (''pinned'', jbool (prPersistent req)),
                      (''address'', jstr (prAddress req))])))))))"

definition pciDetach :: "'h ctx \<Rightarrow> string \<Rightarrow> string \<Rightarrow> (response, 'h) handler" where
  "pciDetach cx vm addr =
     bindH (rejectIf (\<not> ValidAddress addr) (writeErr 400 ''invalid pci address'')) (\<lambda>_.
     bindH (orFail 400 [] (pci_HostdevXML addr)) (\<lambda>xml.
     bindH (pciH (pci_Remove (cxPciOrder cx) (cxEnv cx) vm addr)) (\<lambda>_.
     bindH (virshH 500 [] (virsh_DetachDeviceXML (cxEnv cx) (cxVirsh cx) vm xml True)) (\<lambda>_.
     retH (okFlag ''detached'')))))"

definition pciDomain :: "'h ctx \<Rightarrow> request \<Rightarrow> (response, 'h) handler" where
  "pciDomain cx rq =
     (let tail = TrimPrefix (rqPath rq) ''/api/pci/'' in
     if tail = ''host'' then pciHost cx rq
     else
       (let parts = pathParts tail; vm = parts ! 0 in
       bindH (rejectIf (vm = []) (writeErr 400 ''vm name required'')) (\<lambda>_.
       bindH (rejectIf (\<not> validName vm) (writeErr 400 ''invalid vm name'')) (\<lambda>_.
       if length parts = 2 \<and> parts ! 1 = ''pinned'' \<and> rqMethod rq = ''GET'' then
         getsH (\<lambda>s. dataOf (map (PJ \<circ> pci_enc) (pci_ForVM (cxPciOrder cx) (svPCI s) vm)))
       else if length parts = 1 \<and> rqMethod rq = ''POST'' then pciAttach cx rq vm
       else if length parts = 2 \<and> rqMethod rq = ''DELETE'' then pciDetach cx vm (parts ! 1)
       else retH methodNotAllowed))))"

subsection \<open>Network interfaces\<close>

definition netNetworks :: "'h ctx \<Rightarrow> request \<Rightarrow> (response, 'h) handler" where
  "netNetworks cx rq =
     bindH (rejectIf (rqMethod rq \<noteq> ''GET'') methodNotAllowed) (\<lambda>_.
     bindH (virshH 500 [] (virsh_NetworkList (cxEnv cx) (cxVirsh cx))) (\<lambda>nets.
     retH (200, PObj [(''data'', sliceOrNil (map networkPayload nets))])))"

record NetReq =
  nrNetwork :: string
  nrModel :: string

definition netReq_fields :: "NetReq field list" where
  "netReq_fields =
     [(''network'', strField nrNetwork nrNetwork_update), (''model'', strField nrModel nrModel_update)]"

text \<open>The type of the first interface with this address, \<open>""\<close> if there is none.\<close>

definition oldTypeOf :: "string \<Rightarrow> Interface list \<Rightarrow> string" where
  "oldTypeOf mac ifaces =
     (case find (\<lambda>i. EqualFold (ifMAC i) mac) ifaces of None \<Rightarrow> [] | Some i \<Rightarrow> ifType i)"

definition netSwitch :: "'h ctx \<Rightarrow> request \<Rightarrow> string \<Rightarrow> string \<Rightarrow> (response, 'h) handler" where
  "netSwitch cx rq vm part =
     (let mac = ToLower part in
     bindH (rejectIf (\<not> validMAC mac) (writeErr 400 ''invalid mac address'')) (\<lambda>_.
     bindH (orFail 400 [] (decodeBody netReq_fields \<lparr>nrNetwork = [], nrModel = []\<rparr> rq)) (\<lambda>req.
     bindH (rejectIf (\<not> validName (nrNetwork req)) (writeErr 400 ''invalid network name'')) (\<lambda>_.
     bindH (rejectIf (nrModel req \<noteq> [] \<and> \<not> validNICModel (nrModel req))
       (writeErr 400 ''model must be one of virtio, e1000, e1000e, rtl8139'')) (\<lambda>_.
     bindH (virshH 500 [] (virsh_NetworkList (cxEnv cx) (cxVirsh cx))) (\<lambda>nets.
     bindH (rejectIf (\<not> list_ex (\<lambda>n. netName n = nrNetwork req) nets)
       (writeErr 400 (''unknown libvirt network: '' @ nrNetwork req))) (\<lambda>_.
     bindH (virshH 500 [] (virsh_DomainInterfaces (cxEnv cx) (cxVirsh cx) vm)) (\<lambda>ifaces.
     bindH (rejectIf (oldTypeOf mac ifaces = []) (writeErr 404 ''no NIC with that mac on this VM'')) (\<lambda>_.
     bindH (virshH 500 [] (virsh_SwitchInterface (cxEnv cx) (cxVirsh cx) vm (oldTypeOf mac ifaces) mac
       (nrNetwork req) (nrModel req))) (\<lambda>_.
     retH (200, PObj [(''updated'', jbool True), (''note'', jstr ''takes effect on next VM start'')])))))))))))"

definition netDomain :: "'h ctx \<Rightarrow> request \<Rightarrow> (response, 'h) handler" where
  "netDomain cx rq =
     (let tail = TrimPrefix (rqPath rq) ''/api/net/'' in
     if tail = ''networks'' then netNetworks cx rq
     else
       (let parts = pathParts tail; vm = parts ! 0 in
       bindH (rejectIf (vm = []) (writeErr 400 ''vm name required'')) (\<lambda>_.
       bindH (rejectIf (\<not> validName vm) (writeErr 400 ''invalid vm name'')) (\<lambda>_.
       if length parts = 1 \<and> rqMethod rq = ''GET'' then
         bindH (virshH 500 [] (virsh_DomainInterfaces (cxEnv cx) (cxVirsh cx) vm)) (\<lambda>ifaces.
         retH (dataOf (map interfacePayload ifaces)))
       else if length parts = 2 \<and> rqMethod rq = ''PUT'' then netSwitch cx rq vm (parts ! 1)
       else retH methodNotAllowed))))"

end
