(* ===== verification/HandlersConsole.thy ===== *)
theory HandlersConsole
  imports Server
begin

section \<open>Handlers: the VNC console and the TPM (internal/handlers)\<close>

text \<open>
  The handlers of \<open>handlers.go\<close> for a domain's VNC password and listen address and for its TPM
  device. Both report the persistent configuration and the running domain apart.
\<close>

text \<open>A result and its error, when the code goes on with both (\<open>x, err := ...\<close>).\<close>

definition restartRequired :: "bool \<Rightarrow> bool \<Rightarrow> bool \<Rightarrow> bool" where
  "restartRequired running configured live \<longleftrightarrow> running \<and> configured \<and> \<not> live"

text \<open>The members that report the live password, or the error that kept it from being read.\<close>

definition vncLiveFields :: "bool \<Rightarrow> (bool \<times> bool) res \<Rightarrow> (string \<times> payload) list" where
  "vncLiveFields hasPw live =
     (case live of
        Inl e \<Rightarrow> [(''running'', jbool False), (''live_error'', PText [] e)]
      | Inr (running, liveHasPw) \<Rightarrow>
          [(''running'', jbool running), (''live_protected'', jbool liveHasPw),
           (''restart_required'', jbool (restartRequired running hasPw liveHasPw))])"

definition vncListenFields ::
  "string \<Rightarrow> (bool \<times> bool) res \<Rightarrow> (bool \<times> string \<times> int) res \<Rightarrow> (string \<times> payload) list" where
  "vncListenFields listen live liveListen =
     (case (live, liveListen) of
        (Inr (True, _), Inr (_, ll, lp)) \<Rightarrow>
          [(''live_listen'', jstr ll), (''live_port'', jint lp),
           (''listen_restart_required'', jbool (ll \<noteq> [] \<and> ll \<noteq> listen))]
      | _ \<Rightarrow> [])"

definition vncStatus :: "'h ctx \<Rightarrow> string \<Rightarrow> (response, 'h) handler" where
  "vncStatus cx vm =
     bindH (virshH 500 [] (virsh_VNCInfo (cxEnv cx) (cxVirsh cx) vm)) (\<lambda>(present, hasPw, listen).
     bindH (getsH (\<lambda>s. vnc_Get (svVNC s) vm \<noteq> None)) (\<lambda>pinned.
     bindH (worldH (virsh_VNCLiveInfo (cxEnv cx) (cxVirsh cx) vm)) (\<lambda>live.
     bindH (virshOr ([], 0, False) (virsh_VNCListenInfo (cxEnv cx) (cxVirsh cx) vm)) (\<lambda>(_, port, autoport).
     bindH (worldH (virsh_VNCLiveListen (cxEnv cx) (cxVirsh cx) vm)) (\<lambda>liveListen.
     retH (200, PObj (
       [(''vm'', jstr vm), (''present'', jbool present), (''protected'', jbool hasPw),
        (''listen'', jstr listen), (''pinned'', jbool pinned), (''port'', jint port),
        (''autoport'', jbool autoport)]
       @ vncLiveFields hasPw live @ vncListenFields listen live liveListen)))))))"

record VncReq =
  vrPassword :: string
  vrListen :: string
  vrPort :: int

definition vncReq_fields :: "VncReq field list" where
  "vncReq_fields =
     [(''password'', strField vrPassword vrPassword_update), (''listen'', strField vrListen vrListen_update),
      (''port'', intField vrPort vrPort_update)]"

definition zeroVncReq :: VncReq where
  "zeroVncReq = \<lparr>vrPassword = [], vrListen = [], vrPort = 0\<rparr>"

definition pinnedPassword :: "VncEntry store \<Rightarrow> string \<Rightarrow> string" where
  "pinnedPassword s vm = (case vnc_Get s vm of None \<Rightarrow> [] | Some e \<Rightarrow> vePassword e)"

text \<open>An empty password stands for the pinned one.\<close>

definition effectivePassword :: "VncEntry store \<Rightarrow> string \<Rightarrow> string \<Rightarrow> string" where
  "effectivePassword s vm pw = (if pw = [] then pinnedPassword s vm else pw)"

definition badListen :: "string \<Rightarrow> bool" where
  "badListen l \<longleftrightarrow> l \<noteq> [] \<and> l \<noteq> ''127.0.0.1'' \<and> l \<noteq> ''0.0.0.0''"

definition badPort :: "int \<Rightarrow> bool" where
  "badPort p \<longleftrightarrow> p \<noteq> 0 \<and> (p < 5900 \<or> 65535 < p)"

definition passwordMessage :: "string \<Rightarrow> string" where
  "passwordMessage listen =
     (if listen = ''0.0.0.0''
      then ''a console on all interfaces needs a password '' @ emDash @ '' set one, or choose 127.0.0.1 (local only)''
      else ''password must be 1'' @ enDash @ ''8 characters, printable ASCII, without quotes or <>&'')"

text \<open>Restricting the console to the local host, without a password.\<close>

definition vncLocalOnly :: "'h ctx \<Rightarrow> string \<Rightarrow> VncReq \<Rightarrow> (response, 'h) handler" where
  "vncLocalOnly cx vm req =
     bindH (virshH 500 [] (virsh_SetVNCListen (cxEnv cx) (cxVirsh cx) vm (vrListen req) (vrPort req))) (\<lambda>_.
     bindH (getsH (\<lambda>s. pinnedPassword (svVNC s) vm)) (\<lambda>prev.
     bindH (vncH (vnc_Set (cxVncOrder cx) (cxEnv cx)
       \<lparr>veVM = vm, vePassword = prev, veListen = vrListen req, vePort = vrPort req\<rparr>)) (\<lambda>r.
     bindH (orFail 500 ''listen set, but pinning failed: '' r) (\<lambda>_.
     retH (200, PObj [(''listen'', jstr (vrListen req)), (''port'', jint (vrPort req)),
                      (''note'', jstr ''takes effect on next VM start'')])))))"

definition vncProtect :: "'h ctx \<Rightarrow> string \<Rightarrow> VncReq \<Rightarrow> (response, 'h) handler" where
  "vncProtect cx vm req =
     bindH (rejectIf (\<not> ValidPassword (vrPassword req)) (writeErr 400 (passwordMessage (vrListen req)))) (\<lambda>_.
     bindH (virshH 500 [] (virsh_SetVNCPassword (cxEnv cx) (cxVirsh cx) vm (vrPassword req))) (\<lambda>_.
     bindH (if vrListen req \<noteq> []
            then virshH 500 ''password set, but listen address failed: ''
                   (virsh_SetVNCListen (cxEnv cx) (cxVirsh cx) vm (vrListen req) (vrPort req))
            else retH ()) (\<lambda>_.
     bindH (vncH (vnc_Set (cxVncOrder cx) (cxEnv cx)
       \<lparr>veVM = vm, vePassword = vrPassword req, veListen = vrListen req, vePort = vrPort req\<rparr>)) (\<lambda>r.
     bindH (orFail 500 ''password set, but pinning failed: '' r) (\<lambda>_.
     retH (200, PObj [(''protected'', jbool True), (''listen'', jstr (vrListen req)),
                      (''port'', jint (vrPort req)), (''note'', jstr ''takes effect on next VM start'')]))))))"

definition vncPost :: "'h ctx \<Rightarrow> request \<Rightarrow> string \<Rightarrow> (response, 'h) handler" where
  "vncPost cx rq vm =
     bindH (orFail 400 [] (decodeBody vncReq_fields zeroVncReq rq)) (\<lambda>req.
     bindH (getsH (\<lambda>s. req\<lparr>vrPassword := effectivePassword (svVNC s) vm (vrPassword req)\<rparr>)) (\<lambda>req.
     bindH (rejectIf (badListen (vrListen req))
       (writeErr 400 ''listen must be 127.0.0.1 (local only) or 0.0.0.0 (all interfaces)'')) (\<lambda>_.
     bindH (rejectIf (badPort (vrPort req))
       (writeErr 400 ''port must be 0 (automatic) or between 5900 and 65535'')) (\<lambda>_.
     if vrPassword req = [] \<and> vrListen req = ''127.0.0.1'' then vncLocalOnly cx vm req
     else vncProtect cx vm req))))"

definition vncDelete :: "'h ctx \<Rightarrow> string \<Rightarrow> (response, 'h) handler" where
  "vncDelete cx vm =
     bindH (vncH (vnc_Remove (cxVncOrder cx) (cxEnv cx) vm)) (\<lambda>_.
     bindH (virshH 500 [] (virsh_SetVNCPassword (cxEnv cx) (cxVirsh cx) vm [])) (\<lambda>_.
     retH (okFlag ''cleared'')))"

definition vncDomain :: "'h ctx \<Rightarrow> request \<Rightarrow> (response, 'h) handler" where
  "vncDomain cx rq =
     (let vm = TrimSuffix (TrimPrefix (rqPath rq) ''/api/vnc/'') ''/'' in
     bindH (rejectIf (vm = []) (writeErr 400 ''vm name required'')) (\<lambda>_.
     bindH (rejectIf (\<not> validName vm) (writeErr 400 ''invalid vm name'')) (\<lambda>_.
     if rqMethod rq = ''GET'' then vncStatus cx vm
     else if rqMethod rq = ''POST'' then vncPost cx rq vm
     else if rqMethod rq = ''DELETE'' then vncDelete cx vm
     else retH methodNotAllowed)))"

subsection \<open>TPM\<close>

definition tpmLiveFields :: "bool \<Rightarrow> (bool \<times> bool) res \<Rightarrow> (string \<times> payload) list" where
  "tpmLiveFields present live =
     (case live of
        Inl e \<Rightarrow> [(''running'', jbool False), (''live_error'', PText [] e)]
      | Inr (running, livePresent) \<Rightarrow>
          [(''running'', jbool running), (''live_present'', jbool livePresent),
           (''restart_required'', jbool (restartRequired running present livePresent))])"

definition firmwareFields :: "Firmware res \<Rightarrow> (string \<times> payload) list" where
  "firmwareFields r =
     (case r of
        Inl e \<Rightarrow> [(''firmware_error'', PText [] e)]
      | Inr fw \<Rightarrow>
          [(''loader'', jstr (Loader fw)), (''secure_boot'', jbool (SecureBoot fw)),
           (''enrolled_keys'', jbool (EnrolledKeys fw)), (''uefi'', jbool (Loader fw \<noteq> []))])"

definition tpmStatus :: "'h ctx \<Rightarrow> string \<Rightarrow> (response, 'h) handler" where
  "tpmStatus cx vm =
     bindH (virshH 500 [] (virsh_TPMInfo (cxEnv cx) (cxVirsh cx) vm)) (\<lambda>(present, model, version).
     bindH (getsH (\<lambda>s. tpm_Pinned (svTPM s) vm)) (\<lambda>pinned.
     bindH (worldH (virsh_TPMLiveInfo (cxEnv cx) (cxVirsh cx) vm)) (\<lambda>live.
     bindH (worldH (virsh_FirmwareInfo (cxEnv cx) (cxVirsh cx) vm)) (\<lambda>fw.
     retH (200, PObj (
       [(''vm'', jstr vm), (''present'', jbool present), (''model'', jstr model),
        (''version'', jstr version), (''pinned'', jbool pinned)]
       @ tpmLiveFields present live @ firmwareFields fw))))))"

definition tpmPost :: "'h ctx \<Rightarrow> string \<Rightarrow> (response, 'h) handler" where
  "tpmPost cx vm =
     bindH (virshH 500 [] (virsh_SetTPM (cxEnv cx) (cxVirsh cx) vm True)) (\<lambda>_.
     bindH (tpmH (tpm_Pin (cxTpmOrder cx) (cxEnv cx) vm)) (\<lambda>r.
     bindH (orFail 500 ''TPM added, but pinning failed: '' r) (\<lambda>_.
     retH (200, PObj [(''present'', jbool True), (''note'', jstr ''takes effect on next VM start'')]))))"

definition tpmDelete :: "'h ctx \<Rightarrow> string \<Rightarrow> (response, 'h) handler" where
  "tpmDelete cx vm =
     bindH (tpmH (tpm_Unpin (cxTpmOrder cx) (cxEnv cx) vm)) (\<lambda>_.
     bindH (virshH 500 [] (virsh_SetTPM (cxEnv cx) (cxVirsh cx) vm False)) (\<lambda>_.
     retH (okFlag ''removed'')))"

definition tpmDomain :: "'h ctx \<Rightarrow> request \<Rightarrow> (response, 'h) handler" where
  "tpmDomain cx rq =
     (let vm = TrimSuffix (TrimPrefix (rqPath rq) ''/api/tpm/'') ''/'' in
     bindH (rejectIf (vm = []) (writeErr 400 ''vm name required'')) (\<lambda>_.
     bindH (rejectIf (\<not> validName vm) (writeErr 400 ''invalid vm name'')) (\<lambda>_.
     if rqMethod rq = ''GET'' then tpmStatus cx vm
     else if rqMethod rq = ''POST'' then tpmPost cx vm
     else if rqMethod rq = ''DELETE'' then tpmDelete cx vm
     else retH methodNotAllowed)))"

end
