(* ===== verification/Gateway.thy ===== *)
theory Gateway
  imports Stores Autostart
begin

section \<open>Gateway registration and configuration (internal/gateway, internal/config)\<close>

text \<open>
  The route the daemon registers with the ZimaOS gateway, with the retry loop, and the daemon's
  configuration from its environment. The HTTP client is the argument \<open>post\<close>: from a URL and a JSON body to
  an error or the status and body of the response.
\<close>

record GatewayManager =
  gwURLFile :: string
  gwPath :: string
  gwTarget :: string

text \<open>The manager's HTTP client with its timeout is \<open>post\<close>.\<close>

definition gateway_New :: "string \<Rightarrow> string \<Rightarrow> string \<Rightarrow> GatewayManager" where
  "gateway_New urlFile path target = \<lparr>gwURLFile = urlFile, gwPath = path, gwTarget = target\<rparr>"

type_synonym 'h poster = "string \<Rightarrow> json \<Rightarrow> 'h \<Rightarrow> (nat \<times> string) res \<times> 'h"

definition textOf :: "content res \<Rightarrow> string res" where
  "textOf r =
     (case r of
        Inl e \<Rightarrow> Inl e
      | Inr (Text t) \<Rightarrow> Inr t
      | Inr (Doc _) \<Rightarrow> Inl (Errorf ''not a text file'' []))"

definition mgmtURL :: "'h env \<Rightarrow> GatewayManager \<Rightarrow> 'h world \<Rightarrow> string res" where
  "mgmtURL env m w =
     (case textOf (os_ReadFile env (gwURLFile m) w) of
        Inl e \<Rightarrow> Inl e
      | Inr b \<Rightarrow>
          (let u = TrimSpace b
           in if u = [] then Inl (Errorf ''%s is empty'' [gwURLFile m])
              else Inr (TrimRight
                     (if \<not> HasPrefix u ''http://'' \<and> \<not> HasPrefix u ''https://'' then ''http://'' @ u else u)
                     ''/'')))"

text \<open>The JSON shape of a \<open>route\<close>.\<close>

definition route_enc :: "string \<Rightarrow> string \<Rightarrow> json" where
  "route_enc path target = JObj [(''path'', JStr path), (''target'', JStr target)]"

definition gateway_Register :: "'h env \<Rightarrow> 'h poster \<Rightarrow> GatewayManager \<Rightarrow> (unit, 'h world) act" where
  "gateway_Register env post m w =
     (case mgmtURL env m w of
        Inl e \<Rightarrow> (Inl e, w)
      | Inr base \<Rightarrow>
          (case post (base @ ''/v1/gateway/routes'')
                  (route_enc (gwPath m) (gwTarget m)) (hyp w) of
             (Inl e, h) \<Rightarrow> (Inl e, w\<lparr>hyp := h\<rparr>)
           | (Inr (status, body), h) \<Rightarrow>
               (if status div 100 \<noteq> 2
                then Inl (Errorf ''gateway register %s: HTTP %d: %s'' [gwPath m, natDigits status, TrimSpace body])
                else Inr (), w\<lparr>hyp := h\<rparr>)))"

definition maxDelay :: int where
  "maxDelay = 30 * second"

definition nextDelay :: "int \<Rightarrow> int" where
  "nextDelay d = (if d < maxDelay then int64 (d * 2) else d)"

text \<open>
  The first loop of \<open>RegisterWithRetry\<close>: the delays waited after the failures, until the first success
  (\<open>True\<close>) or until the context ends, after \<open>fuel\<close> failures.
\<close>

fun gateway_retry ::
  "(int \<Rightarrow> 'h \<Rightarrow> 'h) \<Rightarrow> 'h env \<Rightarrow> 'h poster \<Rightarrow> GatewayManager \<Rightarrow> nat \<Rightarrow> int \<Rightarrow> 'h world
    \<Rightarrow> (bool \<times> int list) \<times> 'h world" where
  "gateway_retry sleep env post m 0 delay w = ((False, []), w)"
| "gateway_retry sleep env post m (Suc fuel) delay w =
     (case gateway_Register env post m w of
        (Inr _, w) \<Rightarrow> ((True, []), w)
      | (Inl _, w) \<Rightarrow>
          (case gateway_retry sleep env post m fuel (nextDelay delay) (time_Sleep sleep delay w) of
             ((ok, ds), w) \<Rightarrow> ((ok, delay # ds), w)))"

definition refreshInterval :: int where
  "refreshInterval = 5 * 60 * second"

text \<open>The second loop: a registration per refresh, errors only logged.\<close>

fun gateway_refresh ::
  "(int \<Rightarrow> 'h \<Rightarrow> 'h) \<Rightarrow> 'h env \<Rightarrow> 'h poster \<Rightarrow> GatewayManager \<Rightarrow> nat \<Rightarrow> 'h world \<Rightarrow> 'h world" where
  "gateway_refresh sleep env post m 0 w = w"
| "gateway_refresh sleep env post m (Suc n) w =
     gateway_refresh sleep env post m n
       (snd (gateway_Register env post m (time_Sleep sleep refreshInterval w)))"

definition RegisterWithRetry ::
  "(int \<Rightarrow> 'h \<Rightarrow> 'h) \<Rightarrow> 'h env \<Rightarrow> 'h poster \<Rightarrow> GatewayManager \<Rightarrow> nat \<Rightarrow> nat \<Rightarrow> 'h world \<Rightarrow> 'h world" where
  "RegisterWithRetry sleep env post m fuel n w =
     (case gateway_retry sleep env post m fuel (2 * second) w of
        ((ok, _), w) \<Rightarrow> if ok then gateway_refresh sleep env post m n w else w)"

subsection \<open>Configuration\<close>

record Config =
  cfBindAddr :: string
  cfPort :: string
  cfDataDir :: string
  cfStaticDir :: string
  cfVirshBin :: string
  cfRoutePath :: string
  cfGatewayURLFile :: string

definition config_env :: "(string \<Rightarrow> string) \<Rightarrow> string \<Rightarrow> string \<Rightarrow> string" where
  "config_env getenv k d = (if getenv k \<noteq> [] then getenv k else d)"

definition config_Load :: "(string \<Rightarrow> string) \<Rightarrow> Config" where
  "config_Load getenv =
     \<lparr>cfBindAddr = config_env getenv ''BIND_ADDR'' ''127.0.0.1'',
      cfPort = config_env getenv ''PORT'' ''8473'',
      cfDataDir = config_env getenv ''DATA_DIR'' ''/DATA/AppData/zima-vm-extras'',
      cfStaticDir = config_env getenv ''STATIC_DIR'' ''/usr/share/casaos/www/modules/zima_vm_extras'',
      cfVirshBin = config_env getenv ''VIRSH_BIN'' ''/usr/bin/virsh'',
      cfRoutePath = config_env getenv ''ROUTE_PATH'' ''/v2/vm_extras'',
      cfGatewayURLFile = config_env getenv ''GATEWAY_URL_FILE'' ''/var/run/casaos/management.url''\<rparr>"

subsection \<open>Lemmas\<close>

definition delaySteps :: "int list" where
  "delaySteps = map (\<lambda>s. s * second) [2, 4, 8, 16, 32]"

lemma nextDelay_steps: "d \<in> set delaySteps \<Longrightarrow> nextDelay d \<in> set delaySteps"
  by (auto simp: delaySteps_def nextDelay_def maxDelay_def second_def int64_def signed_take_bit_eq_take_bit_minus
      take_bit_eq_mod)

lemma gateway_retry_delays:
  "d \<in> set delaySteps \<Longrightarrow> gateway_retry sleep env post m fuel d w = ((ok, ds), w') \<Longrightarrow>
   set ds \<subseteq> set delaySteps"
proof (induction fuel arbitrary: d w ok ds w')
  case (Suc fuel)
  then show ?case
    using nextDelay_steps [OF Suc.prems(1)]
    by (auto split: prod.splits sum.splits) blast+
qed simp

end
