(* ===== verification/Watchdog.thy ===== *)
theory Watchdog
  imports Stores GoPath
begin

section \<open>The boot-time watchdog units (internal/watchdog)\<close>

text \<open>
  The two \<open>systemd\<close> units the daemon installs on the persistent file system, and their removal. The
  installation ranges over a Go map, so \<open>ord\<close> gives the order in which the units are written.
\<close>

definition unitDir :: string where
  "unitDir = ''/etc/systemd/system''"

definition serviceName :: string where
  "serviceName = ''zima-vm-extras-watchdog.service''"

definition timerName :: string where
  "timerName = ''zima-vm-extras-watchdog.timer''"

definition serviceUnit :: string where
  "serviceUnit =
     ''[Unit]'' @ [nl] @
     ''Description=Start zima-vm-extras if the sysext unit was missed at boot'' @ [nl] @ [nl] @
     ''[Service]'' @ [nl] @
     ''Type=oneshot'' @ [nl] @
     ''ExecStart=/bin/sh -c '' @
       sq ''systemctl is-active --quiet zima-vm-extras.service || systemctl start zima-vm-extras.service'' @ [nl]"

definition timerUnit :: string where
  "timerUnit =
     ''[Unit]'' @ [nl] @
     ''Description=Ensure zima-vm-extras is running after the sysext overlay is merged'' @ [nl] @ [nl] @
     ''[Timer]'' @ [nl] @
     ''OnBootSec=15'' @ [nl] @ [nl] @
     ''[Install]'' @ [nl] @
     ''WantedBy=timers.target'' @ [nl]"

definition units :: "string gmap" where
  "units = [(serviceName, serviceUnit), (timerName, timerUnit)]"

definition unitPath :: "string \<Rightarrow> string" where
  "unitPath name = JoinPath [unitDir, name]"

definition systemctl :: "'h env \<Rightarrow> string list \<Rightarrow> (unit, 'h world) act" where
  "systemctl env args w =
     (case os_exec env ''systemctl'' args w of
        (ExecOK out, w) \<Rightarrow> (Inr (), w)
      | (ExecFail out err ex, w) \<Rightarrow> (Inl (Errorf ex []), w))"

text \<open>The loop that writes the units, with its flag \<open>changed\<close>.\<close>

fun installUnits :: "'h env \<Rightarrow> bool \<Rightarrow> (string \<times> string) list \<Rightarrow> (bool, 'h world) act" where
  "installUnits env changed [] w = (Inr changed, w)"
| "installUnits env changed ((name, content) # us) w =
     (if os_ReadFile env (unitPath name) w = Inr (Text content) then installUnits env changed us w
      else (case os_WriteFile env (unitPath name) (Text content) w of
              (Inl e, w) \<Rightarrow> (Inl e, w)
            | (Inr _, w) \<Rightarrow> installUnits env True us w))"

definition EnsureInstalled :: "string order \<Rightarrow> 'h env \<Rightarrow> (unit, 'h world) act" where
  "EnsureInstalled ord env =
     bindAct (installUnits env False (ord units)) (\<lambda>changed.
     bindAct (if changed then systemctl env [''daemon-reload''] else retAct ()) (\<lambda>_.
     systemctl env [''enable'', ''--now'', timerName]))"

text \<open>The first error other than a missing file is returned, after both files were tried.\<close>

fun removeUnits :: "'h env \<Rightarrow> unit res \<Rightarrow> string list \<Rightarrow> (unit, 'h world) act" where
  "removeUnits env first [] w = (first, w)"
| "removeUnits env first (n # ns) w =
     (case os_Remove env (unitPath n) w of
        (Inl (OSNotExist _), w) \<Rightarrow> removeUnits env first ns w
      | (Inl e, w) \<Rightarrow> removeUnits env (if is_ok first then Inl e else first) ns w
      | (Inr _, w) \<Rightarrow> removeUnits env first ns w)"

definition watchdog_Remove :: "'h env \<Rightarrow> (unit, 'h world) act" where
  "watchdog_Remove env =
     tryAct (systemctl env [''disable'', ''--now'', timerName]) (\<lambda>_.
     tryAct (removeUnits env (Inr ()) [serviceName, timerName]) (\<lambda>first.
     tryAct (systemctl env [''daemon-reload'']) (\<lambda>_ w. (first, w))))"

subsection \<open>Lemmas\<close>

lemma systemctl_files [frame_simps]: "files (snd (systemctl env args w)) = files w"
  using files_os_exec [of env "''systemctl''" args w]
  by (auto simp: systemctl_def split: prod.splits exec_result.splits)

lemma unitPath_simps:
  "unitPath serviceName = ''/etc/systemd/system/zima-vm-extras-watchdog.service''"
  "unitPath timerName = ''/etc/systemd/system/zima-vm-extras-watchdog.timer''"
  by (simp_all add: unitPath_def unitDir_def serviceName_def timerName_def JoinPath_def Clean_def
      Split_def IsAbs_def)

lemma os_ReadFile_Inr: "os_ReadFile env p w = Inr x \<Longrightarrow> files w p = Some x"
  by (auto simp: os_ReadFile_def split: option.splits if_splits)

lemma os_WriteFile_Inr: "os_WriteFile env p x w = (Inr u, w') \<Longrightarrow> files w' = (files w)(p \<mapsto> x)"
  by (auto simp: os_WriteFile_def split: if_splits)

lemma installUnits_files:
  assumes "distinct (map (\<lambda>u. unitPath (fst u)) us)"
    and "installUnits env changed us w = (Inr r, w')"
  shows "(\<forall>(n, t) \<in> set us. files w' (unitPath n) = Some (Text t))
    \<and> (\<forall>p. p \<notin> (\<lambda>u. unitPath (fst u)) ` set us \<longrightarrow> files w' p = files w p)"
  using assms
proof (induction us arbitrary: changed w)
  case (Cons u us)
  obtain n t where u: "u = (n, t)" by (cases u)
  have notin: "unitPath n \<notin> (\<lambda>u. unitPath (fst u)) ` set us" and dist: "distinct (map (\<lambda>u. unitPath (fst u)) us)"
    using Cons.prems(1) u by simp_all
  show ?case
  proof (cases "os_ReadFile env (unitPath n) w = Inr (Text t)")
    case True
    then have w: "files w (unitPath n) = Some (Text t)" by (rule os_ReadFile_Inr)
    have "installUnits env changed us w = (Inr r, w')" using Cons.prems(2) True u by simp
    from Cons.IH [OF dist this] notin w show ?thesis by (simp add: u)
  next
    case False
    obtain x w1 where wr: "os_WriteFile env (unitPath n) (Text t) w = (x, w1)" by fastforce
    with False Cons.prems(2) u obtain v where x: "x = Inr v" and rest: "installUnits env True us w1 = (Inr r, w')"
      by (cases x) simp_all
    have "files w1 = (files w)(unitPath n \<mapsto> Text t)"
      using wr x by (simp add: os_WriteFile_Inr)
    with Cons.IH [OF dist rest] notin show ?thesis by (simp add: u)
  qed
qed simp

end
