(* ===== verification/Daemon.thy ===== *)
theory Daemon
  imports HandlersVm HandlersSnapshot HandlersDevices HandlersConsole Gateway Watchdog
begin

section \<open>Routing and the daemon (internal/handlers, cmd/zima-vm-extras)\<close>

text \<open>
  \<open>Server.Routes\<close> as the dispatch of \<open>ServeMux\<close>, the root handler of \<open>main\<close> with its body limit,
  its cross-origin check and its prefix stripping, the start of the daemon and the steps of
  its background loops. The fallback for static files is a status without a body here.
\<close>

subsection \<open>Routes\<close>

type_synonym 'h route = "string \<times> ('h ctx \<Rightarrow> request \<Rightarrow> (response, 'h) handler)"

definition api_routes :: "'h route list" where
  "api_routes =
     [(''/api/health'', health), (''/api/vms'', listVMs), (''/api/autostart'', autostartCollection),
      (''/api/autostart/'', autostartItem), (''/api/snapshot/'', snapshotHandler),
      (''/api/usb/host'', usbHost), (''/api/usb/'', usbDomain), (''/api/pci/host'', pciHost),
      (''/api/pci/'', pciDomain), (''/api/storage/targets'', storageTargets),
      (''/api/metrics/'', metricsHandler), (''/api/power/'', powerHandler),
      (''/api/schedule'', scheduleCollection), (''/api/schedule/'', scheduleItem),
      (''/api/backup'', backupCollection), (''/api/backup/'', backupItem),
      (''/api/net/networks'', netNetworks), (''/api/net/'', netDomain), (''/api/vnc/'', vncDomain),
      (''/api/tpm/'', tpmDomain), (''/api/settings'', settingsHandler), (''/api/mounts'', mountsCollection),
      (''/api/mounts/'', mountsItem)]"

text \<open>A pattern that ends in a slash matches the paths below it, any other one only itself.\<close>

definition patternMatches :: "string \<Rightarrow> string \<Rightarrow> bool" where
  "patternMatches pat p \<longleftrightarrow> (if HasSuffix pat ''/'' then HasPrefix p pat else p = pat)"

text \<open>The longest matching pattern wins; a path that only lacks a pattern's slash is redirected.\<close>

definition longerRoute :: "'h route \<Rightarrow> 'h route option \<Rightarrow> 'h route option" where
  "longerRoute r best =
     (case best of
        None \<Rightarrow> Some r
      | Some b \<Rightarrow> if length (fst b) < length (fst r) then Some r else best)"

definition findRoute :: "string \<Rightarrow> 'h route option" where
  "findRoute p = fold longerRoute (filter (\<lambda>r. patternMatches (fst r) p) api_routes) None"

definition routes :: "'h ctx \<Rightarrow> request \<Rightarrow> (response, 'h) handler" where
  "routes cx rq =
     (case findRoute (rqPath rq) of
        None \<Rightarrow>
          if rqPath rq @ ''/'' \<in> set (map fst (api_routes :: 'h route list))
          then retH (301, jstr (rqPath rq @ ''/''))
          else retH (404, jstr ''404 page not found'')
      | Some r \<Rightarrow> snd r cx rq)"

subsection \<open>The root handler\<close>

definition stateChanging :: "string \<Rightarrow> bool" where
  "stateChanging m \<longleftrightarrow> m = ''POST'' \<or> m = ''PUT'' \<or> m = ''DELETE''"

definition crossOrigin :: "request \<Rightarrow> bool" where
  "crossOrigin rq \<longleftrightarrow>
     stateChanging (rqMethod rq) \<and> rqOrigin rq \<noteq> [] \<and> url_Host (rqOrigin rq) \<noteq> Some (rqHost rq)"

definition stripRoutePath :: "string \<Rightarrow> string \<Rightarrow> string" where
  "stripRoutePath prefix' p =
     (if prefix' = [] then p
      else if p = prefix' then ''/''
      else if HasPrefix p (prefix' @ ''/'') then drop (length prefix') p
      else p)"

text \<open>The mux of \<open>main\<close>: the API below \<open>/api/\<close>, static files elsewhere, a redirect to the clean path.\<close>

definition mainMux :: "'h ctx \<Rightarrow> request \<Rightarrow> (response, 'h) handler" where
  "mainMux cx rq =
     (if cleanPath (rqPath rq) \<noteq> rqPath rq then retH (301, jstr (cleanPath (rqPath rq)))
      else if HasPrefix (rqPath rq) ''/api/'' then routes cx rq
      else if rqPath rq = ''/api'' then retH (301, jstr ''/api/'')
      else if Contains (rqPath rq) ''..'' then retH (403, jstr ''forbidden'')
      else retH (200, PJ JNull))"

definition rootHandler :: "Config \<Rightarrow> 'h ctx \<Rightarrow> request \<Rightarrow> (response, 'h) handler" where
  "rootHandler cfg cx rq =
     bindH (rejectIf (crossOrigin rq) (403, jstr ''cross-origin request rejected'')) (\<lambda>_.
     mainMux cx (rq\<lparr>rqPath := stripRoutePath (cfRoutePath cfg) (rqPath rq)\<rparr>))"

definition serve :: "Config \<Rightarrow> 'h ctx \<Rightarrow> request \<Rightarrow> 'h server \<Rightarrow> response \<times> 'h server" where
  "serve cfg cx rq s = runH (rootHandler cfg cx rq) s"

subsection \<open>Start\<close>

text \<open>A store that does not open ends the process (\<open>log.Fatalf\<close>).\<close>

definition resBind :: "'a res \<Rightarrow> ('a \<Rightarrow> 'b res) \<Rightarrow> 'b res" where
  "resBind r k = (case r of Inl e \<Rightarrow> Inl e | Inr a \<Rightarrow> k a)"

definition openServer :: "Config \<Rightarrow> 'h env \<Rightarrow> 'h world \<Rightarrow> 'h server res" where
  "openServer cfg env w =
     (let path = (\<lambda>f. JoinPath [cfDataDir cfg, f]) in
     resBind (os_MkdirAll env (cfDataDir cfg) w) (\<lambda>_.
     resBind (auto_New env w (path ''autostart.json'')) (\<lambda>au.
     resBind (mounts_New env w (path ''mounts.json'')) (\<lambda>mm.
     resBind (usb_NewStore env w (path ''usb.json'')) (\<lambda>us.
     resBind (pci_NewStore env w (path ''pci.json'')) (\<lambda>pc.
     resBind (sched_NewStore env w (path ''schedule.json'')) (\<lambda>sc.
     resBind (tpm_NewStore env w (path ''tpm.json'')) (\<lambda>tp.
     resBind (vnc_NewStore env w (path ''vnc.json'')) (\<lambda>vn.
     resBind (settings_NewStore env w (path ''settings.json'')) (\<lambda>se.
     Inr \<lparr>svAuto = au, svMounts = mm, svUSB = us, svPCI = pc, svSched = sc, svBackup = backup_NewManager, svVNC = vn,
          svTPM = tp, svSettings = se, svArmed = [], svLaunched = [], svWorld = w\<rparr>))))))))))"

definition snapRoot :: "Config \<Rightarrow> string" where
  "snapRoot cfg = JoinPath [cfDataDir cfg, ''snapshots'']"

definition gatewayOf :: "Config \<Rightarrow> GatewayManager" where
  "gatewayOf cfg =
     gateway_New (cfGatewayURLFile cfg) (cfRoutePath cfg) (''http://127.0.0.1:'' @ cfPort cfg)"

subsection \<open>The steps of the running daemon\<close>

text \<open>
  What happens to the server, one step at a time: a request, a tick of a background loop, a launched
  backup, the installation of the units, an attempt to register the route, or a change of the host by
  somebody else. Each step is atomic here; in the code a
  step takes the locks of the stores it uses one after the other.
\<close>

datatype event =
    Request request
  | UsbTick
  | PciTick
  | VncTick
  | TpmTick
  | WatchdogTick
  | SchedTick
  | BootRun
  | AutoMounts
  | RunBackup
  | InstallUnits
  | RegisterRoute
  | OtherHost

definition onWorldS :: "('h world \<Rightarrow> 'h world) \<Rightarrow> 'h server \<Rightarrow> 'h server" where
  "onWorldS f s = s\<lparr>svWorld := f (svWorld s)\<rparr>"

record 'h surroundings =
  srCtx :: "'h ctx"
  srSleep :: "int \<Rightarrow> 'h \<Rightarrow> 'h"
  srFmt :: "int \<Rightarrow> string"
  srPost :: "'h poster"
  srOther :: "'h \<Rightarrow> 'h"

definition runBackups :: "'h ctx \<Rightarrow> 'h server \<Rightarrow> 'h server" where
  "runBackups cx s =
     (case svLaunched s of
        [] \<Rightarrow> s
      | l # ls \<Rightarrow>
          (case backup_run (cxEnv cx) (cxStamp cx) (cxNow cx div second) l (svBackup s) (svWorld s) of
             (m, w) \<Rightarrow> s\<lparr>svLaunched := ls, svBackup := m, svWorld := w\<rparr>))"

definition step :: "Config \<Rightarrow> 'h surroundings \<Rightarrow> event \<Rightarrow> 'h server \<Rightarrow> 'h server" where
  "step cfg sr ev s =
     (let cx = srCtx sr; env = cxEnv cx; vc = cxVirsh cx in
     case ev of
       Request rq \<Rightarrow> snd (serve cfg cx rq s)
     | UsbTick \<Rightarrow> onWorldS (usb_Reconcile (cxUsbOrder cx) (usb_controller env vc) (svUSB s)) s
     | PciTick \<Rightarrow> onWorldS (pci_Reconcile (cxPciOrder cx) (pci_controller env vc) (svPCI s)) s
     | VncTick \<Rightarrow> onWorldS (vnc_Reconcile (cxVncOrder cx) (vnc_controller env vc) (svVNC s)) s
     | TpmTick \<Rightarrow> onWorldS (tpm_Reconcile (cxTpmOrder cx) (tpm_controller env vc) (svTPM s)) s
     | WatchdogTick \<Rightarrow>
         onWorldS (auto_watchTick (cxAutoOrder cx) env (auto_controller env vc) (svAuto s)) s
     | SchedTick \<Rightarrow>
         (case sched_tick (srFmt sr) (cxSchedOrder cx) env (sched_controller env vc) (cxSnapshotRoot cx)
                 (cxNow cx) (svSched s) (svWorld s) of
            (sc, w) \<Rightarrow> s\<lparr>svSched := sc, svWorld := w\<rparr>)
     | BootRun \<Rightarrow>
         onWorldS (auto_Run (srSleep sr) (cxStamp cx) (cxAutoOrder cx) env (auto_controller env vc) (svAuto s)) s
     | AutoMounts \<Rightarrow>
         (case mounts_MountAllAuto (cxMountOrder cx) env (svMounts s) (svWorld s) of
            (m, w) \<Rightarrow> s\<lparr>svMounts := m, svWorld := w\<rparr>)
     | RunBackup \<Rightarrow> runBackups cx s
     | InstallUnits \<Rightarrow> onWorldS (\<lambda>w. snd (EnsureInstalled (cxUnitOrder cx) env w)) s
     | RegisterRoute \<Rightarrow> onWorldS (\<lambda>w. snd (gateway_Register env (srPost sr) (gatewayOf cfg) w)) s
     | OtherHost \<Rightarrow> onWorldS (\<lambda>w. w\<lparr>hyp := srOther sr (hyp w)\<rparr>) s)"

text \<open>A run: the events with what each draws from outside. A range over a map visits each entry once.\<close>

definition ordersOk :: "'h ctx \<Rightarrow> bool" where
  "ordersOk cx \<longleftrightarrow>
     is_order (cxTargetOrder cx) \<and> is_order (cxAutoOrder cx) \<and> is_order (cxMountOrder cx) \<and>
     is_order (cxUsbOrder cx) \<and> is_order (cxPciOrder cx) \<and> is_order (cxSchedOrder cx) \<and>
     is_order (cxJobOrder cx) \<and> is_order (cxVncOrder cx) \<and> is_order (cxTpmOrder cx) \<and>
     is_order (cxLabelOrder cx) \<and> is_order (cxUnitOrder cx)"

inductive reachable :: "Config \<Rightarrow> 'h server \<Rightarrow> 'h server \<Rightarrow> bool" for cfg s0 where
  init: "reachable cfg s0 s0"
| more: "reachable cfg s0 s \<Longrightarrow> ordersOk (srCtx sr) \<Longrightarrow> reachable cfg s0 (step cfg sr ev s)"

inductive_cases reachableE: "reachable cfg s0 s"

end
