(* ===== verification/HandlerFrames.thy ===== *)
theory HandlerFrames
  imports Daemon
begin

section \<open>What the handlers keep\<close>

text \<open>
  \<open>handlers\<close> is the interface between the handlers and a relation \<open>R\<close> on the states of the server.
  Its laws say of \<open>R\<close> that it holds of every virsh method whose arguments pass (\<open>W\<close>), of the other
  programs and of the store calls that the handlers share; its lemmas say that it holds of every handler.
  Where one store is the point (its own handler), the law for that store is a premise of the lemma.
\<close>

lemma validName_noDash: "validName s \<Longrightarrow> noDash s"
  using validName_shape [of s] by (cases s) auto

lemma validSnapshotName_noDash: "validSnapshotName s \<Longrightarrow> noDash s"
  by (cases s) (auto simp: validSnapshotName_def)

lemma fold_longerRoute: "fold longerRoute rs best = Some r \<Longrightarrow> r \<in> set rs \<or> best = Some r"
proof (induction rs arbitrary: best)
  case (Cons a rs)
  have "longerRoute a best = Some a \<or> longerRoute a best = best"
    by (simp add: longerRoute_def split: option.split)
  with Cons.IH [of "longerRoute a best"] Cons.prems show ?case by auto
qed simp

lemma findRoute_SomeD: "findRoute p = Some r \<Longrightarrow> r \<in> set api_routes \<and> patternMatches (fst r) p"
  unfolding findRoute_def by (auto dest: fold_longerRoute)

lemma patternMatches_vms: "patternMatches ''/api/vms'' p \<longleftrightarrow> p = ''/api/vms''"
  by (simp add: patternMatches_def suffix_def)

text \<open>A relation on worlds that the calls keep, carried to the states of the server.\<close>

locale lifted = W: virsh_frame RW env c ok + S: frame R
  for RW :: "'h world \<Rightarrow> 'h world \<Rightarrow> bool" and env :: "'h env" and c :: Client and ok :: "string list \<Rightarrow> bool"
    and R :: "'h server \<Rightarrow> 'h server \<Rightarrow> bool" +
  assumes world: "RW (svWorld s) w \<Longrightarrow> R s (s\<lparr>svWorld := w\<rparr>)"
begin

lemma lift: "keeps RW m \<Longrightarrow> keepsH R (worldH m)"
  by (auto simp: keepsH_def worldH_def split: prod.splits intro!: world dest: keepsE)

lemma keepsH_virshH: "keeps RW m \<Longrightarrow> keepsH R (virshH code pre m)"
  by (simp add: virshH_def S.keepsH_bind S.keepsH_orFail lift)

lemma keepsH_virshOr: "keeps RW m \<Longrightarrow> keepsH R (virshOr zero m)"
  by (simp add: virshOr_def S.keepsH_bind S.keepsH_ret lift)

lemma arm_rule:
  assumes armed: "\<And>s. R s (s\<lparr>svArmed := gput vm (cxNow cx) (svArmed s)\<rparr>)"
    and calls: "keeps RW (virsh_SetMemStatsPeriod (cxEnv cx) (cxVirsh cx) vm memStatsPeriodSec)"
      "keeps RW (virsh_DomainStats (cxEnv cx) (cxVirsh cx) vm)"
  shows "keepsH R (armMemStats cx vm stats)"
proof -
  have h: "keepsH R (bindH (worldH (virsh_SetMemStatsPeriod (cxEnv cx) (cxVirsh cx) vm memStatsPeriodSec)) (\<lambda>r.
      case r of Inl _ \<Rightarrow> retH stats | Inr _ \<Rightarrow> virshOr stats (virsh_DomainStats (cxEnv cx) (cxVirsh cx) vm)))"
    (is "keepsH R ?h")
    using calls by (intro S.keepsH_bind lift) (auto intro!: keepsH_virshOr S.keepsH_ret split: sum.split)
  have "R s (snd (?h (s\<lparr>svArmed := gput vm (cxNow cx) (svArmed s)\<rparr>)))" for s
    using h armed [of s] S.R_trans unfolding keepsH_def by blast
  then show ?thesis
    by (simp add: keepsH_def armMemStats_def Let_def S.R_refl)
qed

text \<open>Routing: what every handler keeps, the daemon keeps.\<close>

lemma keepsH_routes:
  assumes "\<And>p r. (p, r) \<in> set (api_routes :: 'h route list) \<Longrightarrow> patternMatches p (rqPath rq) \<Longrightarrow> keepsH R (r cx rq)"
  shows "keepsH R (routes cx rq)"
proof (cases "findRoute (rqPath rq) :: 'h route option")
  case None
  then show ?thesis by (simp add: routes_def S.keepsH_ret)
next
  case (Some r)
  with findRoute_SomeD [OF Some] assms [of "fst r" "snd r"] show ?thesis by (simp add: routes_def)
qed

lemma keepsH_root:
  assumes "\<And>p r rq'. (p, r) \<in> set (api_routes :: 'h route list) \<Longrightarrow> patternMatches p (rqPath rq') \<Longrightarrow>
    rq' = rq\<lparr>rqPath := stripRoutePath (cfRoutePath cfg) (rqPath rq)\<rparr> \<Longrightarrow> \<not> crossOrigin rq \<Longrightarrow> keepsH R (r cx rq')"
  shows "keepsH R (rootHandler cfg cx rq)"
  unfolding rootHandler_def mainMux_def
  by (intro S.keepsH_guard S.keepsH_if S.keepsH_ret keepsH_routes) (use assms in auto)

end

locale handlers = lifted RW env c ok R
  for RW :: "'h world \<Rightarrow> 'h world \<Rightarrow> bool" and env :: "'h env" and c :: Client and ok :: "string list \<Rightarrow> bool"
    and R :: "'h server \<Rightarrow> 'h server \<Rightarrow> bool" +
  fixes cx :: "'h ctx"
  assumes ctx: "cxEnv cx = env" "cxVirsh cx = c"
    and ok_safe: "safeArgs args \<Longrightarrow> hd args \<noteq> ''detach-interface'' \<Longrightarrow> ok args"
    and ok_detach: "noDash d \<Longrightarrow> ok [''detach-interface'', d, t, ''--mac'', mac, ''--config'']"
    and other: "p \<in> set otherBins \<Longrightarrow> RW w (snd (os_exec env p args w))"
    and same: "R s (s\<lparr>svArmed := am, svLaunched := ls\<rparr>)"
    and settings: "keepsH R (settingsH (settings_Set env sd))"
begin

lemma ok_domain:
  assumes "noDash d"
  shows "ok [''domstate'', d]" "ok [''dominfo'', d]" "ok [''autostart'', d]"
    "ok [''autostart'', d, ''--disable'']" "ok [''start'', d]" "ok [''shutdown'', d]"
    "ok [''reboot'', d]" "ok [''destroy'', d]" "ok [''suspend'', d]" "ok [''resume'', d]"
    "ok [''dommemstat'', d, ''--period'', v, ''--live'']" "ok [''dumpxml'', d]"
    "ok [''snapshot-list'', d, ''--parent'']" "ok [''snapshot-current'', d, ''--name'']"
    "ok [''domblklist'', ''--details'', d]" "ok [''domstats'', d]"
    "ok [''dumpxml'', ''--inactive'', d]" "ok [''dumpxml'', ''--inactive'', ''--security-info'', d]"
    "ok [''dumpxml'', ''--security-info'', d]"
  by (simp_all add: ok_safe safe_domain [OF assms])

lemma ok_lists: "ok [''list'', ''--all'', ''--name'']" "ok [''net-list'', ''--all'']"
  by (simp_all add: ok_safe safe_lists)

lemma ok_named:
  assumes "noDash d" "noDash n"
  shows "ok [''snapshot-revert'', d, n]" "ok [''snapshot-revert'', d, n, ''--force'']"
    "ok [''snapshot-delete'', d, n]" "ok [''snapshot-delete'', d, n, ''--children'']"
    "ok ([''attach-device'', d, n] @ liveConfigFlags s b)"
    "ok ([''detach-device'', d, n] @ liveConfigFlags s b)" "ok [''define'', n]"
    "ok ([''attach-interface'', d, ''network'', n, ''--mac'', mac, ''--config'']
          @ (if model \<noteq> [] then [''--model'', model] else []))"
    "ok ([''snapshot-create-as'', d, n] @ (if desc \<noteq> [] then [''--description'', desc] else []))"
    "ok ([''snapshot-create-as'', d, n] @ (if desc \<noteq> [] then [''--description'', desc] else [])
      @ diskSpecs dir st i disks @ memSpec dir st state @ [''--atomic''])"
  by (rule ok_safe, use safe_named [OF assms] safe_create [OF assms] in simp, simp)+

text \<open>The virsh methods as the handlers call them.\<close>

lemma keeps_calls:
  assumes "noDash d"
  shows "keeps RW (virsh_State env c d)" "keeps RW (virsh_IsAutostart env c d)"
    "keeps RW (virsh_SetAutostart env c d b)" "keeps RW (virsh_HasUEFI env c d)" "keeps RW (virsh_Title env c d)"
    "keeps RW (virsh_Start env c d)" "keeps RW (virsh_Shutdown env c d)" "keeps RW (virsh_Reboot env c d)"
    "keeps RW (virsh_Destroy env c d)" "keeps RW (virsh_Suspend env c d)" "keeps RW (virsh_Resume env c d)"
    "keeps RW (virsh_SetMemStatsPeriod env c d i)" "keeps RW (virsh_DomainStats env c d)"
    "keeps RW (virsh_CurrentSnapshot env c d)" "keeps RW (virsh_ListSnapshots env c d)"
    "keeps RW (virsh_DomainInterfaces env c d)" "keeps RW (virsh_DumpXML env c d)" "keeps RW (virsh_DomainDisks env c d)"
    "keeps RW (virsh_VNCInfo env c d)" "keeps RW (virsh_VNCListenInfo env c d)"
    "keeps RW (virsh_TPMInfo env c d)" "keeps RW (virsh_FirmwareInfo env c d)"
    "keeps RW (virsh_VNCLiveInfo env c d)" "keeps RW (virsh_VNCLiveListen env c d)" "keeps RW (virsh_TPMLiveInfo env c d)"
  using ok_domain [OF assms]
  by (simp_all add: W.keeps_State W.keeps_IsAutostart W.keeps_SetAutostart W.keeps_document W.keeps_power
      W.keeps_SetMemStatsPeriod W.keeps_DomainStats W.keeps_CurrentSnapshot W.keeps_ListSnapshots
      W.keeps_DomainInterfaces W.keeps_DumpXML W.keeps_DomainDisks W.keeps_readInactive W.keeps_readLive)

lemma keeps_calls2:
  assumes "noDash d"
  shows "keeps RW (virsh_SetVNCListen env c d l p)" "keeps RW (virsh_SetVNCPassword env c d pw)"
    "keeps RW (virsh_SetTPM env c d b)" "keeps RW (virsh_AttachDeviceXML env c d x b)"
    "keeps RW (virsh_DetachDeviceXML env c d x b)"
  using ok_domain [OF assms] ok_named [OF assms isTmp_noDash]
  by (simp_all add: W.keeps_edits W.keeps_AttachDetach)

lemma keeps_calls3:
  assumes "noDash d" "noDash n"
  shows "keeps RW (virsh_CreateSnapshot env c d n desc ext dir)" "keeps RW (virsh_RevertSnapshot env c d n b)"
    "keeps RW (virsh_DeleteSnapshot env c d n b)" "keeps RW (virsh_SwitchInterface env c d t mac n model)"
  using ok_domain [OF assms(1)] ok_named [OF assms] ok_detach [OF assms(1)]
  by (simp_all add: W.keeps_CreateSnapshot W.keeps_RevertSnapshot W.keeps_DeleteSnapshot W.keeps_SwitchInterface)

lemma keeps_lists: "keeps RW (virsh_ListDomains env c)" "keeps RW (virsh_NetworkList env c)"
  using ok_lists by (simp_all add: W.keeps_ListDomains W.keeps_NetworkList)

lemma keeps_host:
  "keeps RW (usb_HostSlice env [])" "keeps RW (pci_HostList env rl [])"
  using other
  by (auto simp: keeps_def usb_HostSlice_def pci_HostList_def otherBins_def split: prod.splits exec_result.splits)
    (metis snd_conv)+

lemma keeps_pure: "keeps RW (\<lambda>w. (f w, w))"
  by (simp add: keeps_def W.R_refl)

lemmas handler_intros = S.keepsH_intros keepsH_virshH keepsH_virshOr lift settings S.keepsH_forH
  keeps_calls keeps_calls2 keeps_calls3 keeps_lists keeps_host keeps_pure

lemma keepsH_health: "keepsH R (health cx rq)"
  by (simp add: health_def S.keepsH_ret)

lemma keepsH_vmEntry: "noDash n \<Longrightarrow> keepsH R (vmEntry cx n)"
  unfolding vmEntry_def ctx by (intro handler_intros)

lemma keepsH_vmEntry_any:
  "(\<And>w w'. RW w w') \<Longrightarrow> keepsH R (vmEntry cx n)"
  unfolding vmEntry_def ctx
  by (intro S.keepsH_bind S.keepsH_gets S.keepsH_ret keepsH_virshOr) (auto simp: keeps_def)

lemma keepsH_listVMs: "(\<And>n. keepsH R (vmEntry cx n)) \<Longrightarrow> keepsH R (listVMs cx rq)"
  unfolding listVMs_def ctx by (intro handler_intros)

lemma keepsH_power: "keepsH R (powerHandler cx rq)"
  unfolding powerHandler_def powerAct_def ctx Let_def
  by (intro S.keepsH_intros)
    (auto intro!: handler_intros dest!: validName_noDash split: option.splits if_splits)

lemma keepsH_arm: "noDash vm \<Longrightarrow> keepsH R (armMemStats cx vm stats)"
proof (rule arm_rule)
  show "R s (s\<lparr>svArmed := gput vm (cxNow cx) (svArmed s)\<rparr>)" for s
    using same [where s = s and am = "gput vm (cxNow cx) (svArmed s)" and ls = "svLaunched s"] by (cases s) simp
qed (simp_all add: ctx keeps_calls)

lemma keepsH_metrics: "keepsH R (metricsHandler cx rq)"
  unfolding metricsHandler_def ctx Let_def
  by (intro S.keepsH_intros keepsH_virshH keeps_calls keepsH_arm) (auto dest: validName_noDash)

lemma keepsH_autostartCollection: "keepsH R (autostartCollection cx rq)"
  by (simp add: autostartCollection_def handler_intros)

lemma keepsH_autostartItem:
  assumes "\<And>e. keepsH R (autoH (auto_Set (cxAutoOrder cx) env e))"
    and "\<And>n. keepsH R (autoH (auto_Delete (cxAutoOrder cx) env n))"
  shows "keepsH R (autostartItem cx rq)"
  unfolding autostartItem_def ctx Let_def
  by (auto intro!: handler_intros assms dest!: validName_noDash)

lemma keepsH_mountsCollection:
  assumes "\<And>i e. keepsH R (mountsH (mounts_Upsert (cxMountOrder cx) env i e))"
    and "\<And>i. keepsH R (mountsH (mounts_Mount env i))"
  shows "keepsH R (mountsCollection cx rq)"
  unfolding mountsCollection_def ctx
  by (auto intro!: S.keepsH_intros assms)

lemma keepsH_mountsItem:
  assumes "\<And>i e. keepsH R (mountsH (mounts_Upsert (cxMountOrder cx) env i e))"
    and "\<And>i. keepsH R (mountsH (mounts_Mount env i))" "\<And>i. keepsH R (mountsH (unmountM env i))"
    and "\<And>i. keepsH R (mountsH (mounts_Delete (cxMountOrder cx) env i))"
  shows "keepsH R (mountsItem cx rq)"
  unfolding mountsItem_def mountAction_def ctx Let_def
  by (auto intro!: S.keepsH_intros assms)

lemma keepsH_storageTargets: "keepsH R (storageTargets cx rq)"
  unfolding storageTargets_def by (intro S.keepsH_intros)

lemma keepsH_snapshotList: "noDash vm \<Longrightarrow> keepsH R (snapshotList cx vm)"
  unfolding snapshotList_def ctx by (intro handler_intros)

lemma keepsH_prepareDir: "keepsH R (prepareDir cx ext dir)"
  unfolding prepareDir_def by (auto intro!: handler_intros)

lemma keepsH_rememberDir: "keepsH R (rememberDir cx ext vm dir)"
  unfolding rememberDir_def ctx Let_def by (auto intro!: handler_intros)

lemma keepsH_snapshotCreate: "noDash vm \<Longrightarrow> keepsH R (snapshotCreate cx rq vm)"
  unfolding snapshotCreate_def ctx Let_def
  by (intro handler_intros keepsH_prepareDir keepsH_rememberDir) (auto dest: validSnapshotName_noDash)

lemma keepsH_snapshotItem: "noDash vm \<Longrightarrow> keepsH R (snapshotItem cx rq vm parts)"
  unfolding snapshotItem_def snapshotRevert_def snapshotExists_def ctx Let_def
  by (auto intro!: handler_intros W.keeps_bind W.keeps_ret)

lemma keepsH_snapshotHandler: "keepsH R (snapshotHandler cx rq)"
  unfolding snapshotHandler_def Let_def
  by (auto intro!: S.keepsH_intros keepsH_snapshotList keepsH_snapshotCreate keepsH_snapshotItem
      dest!: validName_noDash)

lemma keepsH_settingsHandler: "keepsH R (settingsHandler cx rq)"
  unfolding settingsHandler_def checkLabel_def ctx Let_def
  by (auto intro!: handler_intros)

lemma keepsH_scheduleCollection: "keepsH R (scheduleCollection cx rq)"
  unfolding scheduleCollection_def by (intro S.keepsH_intros)

lemma keepsH_scheduleItem:
  assumes "\<And>e. keepsH R (schedH (sched_Upsert (cxSchedOrder cx) env e))"
    and "\<And>n. keepsH R (schedH (sched_Delete (cxSchedOrder cx) env n))"
  shows "keepsH R (scheduleItem cx rq)"
  unfolding scheduleItem_def ctx Let_def
  by (auto intro!: S.keepsH_intros assms)

lemma keepsH_backupCollection: "keepsH R (backupCollection cx rq)"
  unfolding backupCollection_def by (intro S.keepsH_intros)

lemma keepsH_launchJob: "keepsH R (launchJob l)"
proof -
  have "R s (s\<lparr>svLaunched := ls\<rparr>)" for s ls
    using same [where s = s and am = "svArmed s" and ls = ls] by (cases s) simp
  then show ?thesis by (simp add: keepsH_def launchJob_def)
qed

lemma keepsH_backupItem:
  assumes "\<And>vm dest. noDash vm \<Longrightarrow> keepsH R (backupH (backup_Start (cxJobOrder cx) env
    (backup_controller env c) (cxNewID cx) (cxStamp cx) (cxNow cx div second) vm dest))"
  shows "keepsH R (backupItem cx rq)"
  unfolding backupItem_def rememberBackupDir_def ctx Let_def
  by (auto intro!: handler_intros keepsH_launchJob assms dest!: validName_noDash)

lemma keepsH_usbHost: "keepsH R (usbHost cx rq)"
  unfolding usbHost_def ctx by (intro handler_intros)

lemma keepsH_usbDomain:
  assumes "\<And>p. keepsH R (usbH (usb_Add (cxUsbOrder cx) env p))"
    and "\<And>vm v p. keepsH R (usbH (usb_Remove (cxUsbOrder cx) env vm v p))"
  shows "keepsH R (usbDomain cx rq)"
  unfolding usbDomain_def usbAttach_def usbDetach_def ctx Let_def
  by (auto intro!: handler_intros keepsH_usbHost assms dest!: validName_noDash split: option.splits)

lemma keepsH_pciHost: "keepsH R (pciHost cx rq)"
  unfolding pciHost_def ctx by (intro handler_intros)

lemma keepsH_pciDomain:
  assumes "\<And>p. keepsH R (pciH (pci_Add (cxPciOrder cx) env p))"
    and "\<And>vm a. keepsH R (pciH (pci_Remove (cxPciOrder cx) env vm a))"
  shows "keepsH R (pciDomain cx rq)"
  unfolding pciDomain_def pciAttach_def pciDetach_def ctx Let_def
  by (auto intro!: handler_intros keepsH_pciHost assms dest!: validName_noDash)

lemma keepsH_netNetworks: "keepsH R (netNetworks cx rq)"
  unfolding netNetworks_def ctx by (intro handler_intros)

lemma keepsH_netDomain: "keepsH R (netDomain cx rq)"
  unfolding netDomain_def netSwitch_def ctx Let_def
  by (auto intro!: handler_intros keepsH_netNetworks dest!: validName_noDash)

lemma keepsH_vncDomain:
  assumes "\<And>e. keepsH R (vncH (vnc_Set (cxVncOrder cx) env e))"
    and "\<And>vm. keepsH R (vncH (vnc_Remove (cxVncOrder cx) env vm))"
  shows "keepsH R (vncDomain cx rq)"
  unfolding vncDomain_def vncStatus_def vncPost_def vncLocalOnly_def vncProtect_def vncDelete_def ctx Let_def
  by (auto intro!: handler_intros assms dest!: validName_noDash)

lemma keepsH_tpmDomain:
  assumes "\<And>vm. keepsH R (tpmH (tpm_Pin (cxTpmOrder cx) env vm))"
    and "\<And>vm. keepsH R (tpmH (tpm_Unpin (cxTpmOrder cx) env vm))"
  shows "keepsH R (tpmDomain cx rq)"
  unfolding tpmDomain_def tpmStatus_def tpmPost_def tpmDelete_def ctx Let_def
  by (auto intro!: handler_intros assms dest!: validName_noDash)

lemma keepsH_rootHandler:
  assumes "stripRoutePath (cfRoutePath cfg) (rqPath rq) = ''/api/vms'' \<Longrightarrow>
      keepsH R (listVMs cx (rq\<lparr>rqPath := ''/api/vms''\<rparr>))" "\<And>rq. keepsH R (autostartItem cx rq)"
    "\<And>rq. keepsH R (mountsCollection cx rq)" "\<And>rq. keepsH R (mountsItem cx rq)"
    "\<And>rq. keepsH R (scheduleItem cx rq)" "\<And>rq. keepsH R (backupItem cx rq)"
    "\<And>rq. keepsH R (usbDomain cx rq)" "\<And>rq. keepsH R (pciDomain cx rq)"
    "\<And>rq. keepsH R (vncDomain cx rq)" "\<And>rq. keepsH R (tpmDomain cx rq)"
  shows "keepsH R (rootHandler cfg cx rq)"
proof (rule keepsH_root)
  fix p and r :: "'h ctx \<Rightarrow> request \<Rightarrow> (response, 'h) handler" and rq'
  assume "(p, r) \<in> set api_routes" and pat: "patternMatches p (rqPath rq')"
    and rq': "rq' = rq\<lparr>rqPath := stripRoutePath (cfRoutePath cfg) (rqPath rq)\<rparr>"
  moreover have "p = ''/api/vms'' \<Longrightarrow> keepsH R (listVMs cx rq')"
    using assms(1) pat rq' by (simp add: patternMatches_vms)
  ultimately show "keepsH R (r cx rq')"
    unfolding api_routes_def using assms(2-)
    by (auto simp: keepsH_health keepsH_autostartCollection keepsH_snapshotHandler keepsH_usbHost keepsH_pciHost
        keepsH_storageTargets keepsH_metrics keepsH_power keepsH_scheduleCollection keepsH_backupCollection
        keepsH_netNetworks keepsH_netDomain keepsH_settingsHandler)
qed

end

subsection \<open>One store at a time\<close>

text \<open>A call on one store changes that store and the world, and nothing else.\<close>

lemma store_rules:
  "(\<And>s st w. R s (s\<lparr>svUSB := st, svWorld := w\<rparr>)) \<Longrightarrow> keepsH R (usbH f1)"
  "(\<And>s st w. R s (s\<lparr>svPCI := st, svWorld := w\<rparr>)) \<Longrightarrow> keepsH R (pciH f2)"
  "(\<And>s st w. R s (s\<lparr>svVNC := st, svWorld := w\<rparr>)) \<Longrightarrow> keepsH R (vncH f3)"
  "(\<And>s st w. R s (s\<lparr>svTPM := st, svWorld := w\<rparr>)) \<Longrightarrow> keepsH R (tpmH f4)"
  "(\<And>s st w. R s (s\<lparr>svAuto := st, svWorld := w\<rparr>)) \<Longrightarrow> keepsH R (autoH f5)"
  "(\<And>s st w. R s (s\<lparr>svSched := st, svWorld := w\<rparr>)) \<Longrightarrow> keepsH R (schedH f6)"
  "(\<And>s st w. R s (s\<lparr>svMounts := st, svWorld := w\<rparr>)) \<Longrightarrow> keepsH R (mountsH f7)"
  "(\<And>s st w. R s (s\<lparr>svBackup := st, svWorld := w\<rparr>)) \<Longrightarrow> keepsH R (backupH f8)"
  by (auto simp: keepsH_def usbH_def pciH_def vncH_def tpmH_def autoH_def schedH_def mountsH_def backupH_def
      split: prod.splits)

text \<open>A field of the server that neither the world nor the settings are part of.\<close>

interpretation vnc_frame: handlers "\<lambda>_ _. True" "cxEnv cx" "cxVirsh cx" "\<lambda>_. True"
  "\<lambda>s s'. P (svVNC s) \<longrightarrow> P (svVNC s')" cx for P cx
  by unfold_locales (auto simp: keeps_def keepsH_def settingsH_def split: prod.splits)

interpretation usb_frame: handlers "\<lambda>_ _. True" "cxEnv cx" "cxVirsh cx" "\<lambda>_. True"
  "\<lambda>s s'. P (svUSB s) \<longrightarrow> P (svUSB s')" cx for P cx
  by unfold_locales (auto simp: keeps_def keepsH_def settingsH_def split: prod.splits)

interpretation pci_frame: handlers "\<lambda>_ _. True" "cxEnv cx" "cxVirsh cx" "\<lambda>_. True"
  "\<lambda>s s'. P (svPCI s) \<longrightarrow> P (svPCI s')" cx for P cx
  by unfold_locales (auto simp: keeps_def keepsH_def settingsH_def split: prod.splits)

interpretation sched_frame: handlers "\<lambda>_ _. True" "cxEnv cx" "cxVirsh cx" "\<lambda>_. True"
  "\<lambda>s s'. P (svSched s) \<longrightarrow> P (svSched s')" cx for P cx
  by unfold_locales (auto simp: keeps_def keepsH_def settingsH_def split: prod.splits)

interpretation mounts_frame: handlers "\<lambda>_ _. True" "cxEnv cx" "cxVirsh cx" "\<lambda>_. True"
  "\<lambda>s s'. P (svMounts s) \<longrightarrow> P (svMounts s')" cx for P cx
  by unfold_locales (auto simp: keeps_def keepsH_def settingsH_def split: prod.splits)

interpretation backup_frame: handlers "\<lambda>_ _. True" "cxEnv cx" "cxVirsh cx" "\<lambda>_. True"
  "\<lambda>s s'. P (svBackup s) \<longrightarrow> P (svBackup s')" cx for P cx
  by unfold_locales (auto simp: keeps_def keepsH_def settingsH_def split: prod.splits)

subsection \<open>The arguments of virsh\<close>

interpretation safe_frame: handlers "cmdsExt (cmdSafe (cxVirsh cx))" "cxEnv cx" "cxVirsh cx" safeCmd
  "onWorld (cmdsExt (cmdSafe (cxVirsh cx)))" cx for cx
proof unfold_locales
  fix p :: string and w :: "'a world" and args
  assume "p \<in> set otherBins"
  then show "cmdsExt (cmdSafe (cxVirsh cx)) w (snd (os_exec (cxEnv cx) p args w))" for cx :: "'a ctx"
    by (auto simp: cmdsExt_def os_exec_def cmdSafe_def split: prod.splits)
next
  show "keepsH (onWorld (cmdsExt (cmdSafe (cxVirsh cx)))) (settingsH (settings_Set (cxEnv cx) sd))"
    for cx :: "'a ctx" and sd
    by (auto simp: keepsH_def onWorld_def settingsH_def settings_Set_def settings_save_def Let_def
        split: prod.splits intro!: cmdsExt_same dest!: arg_cong [where f = snd])
      (metis publish_frame(2) snd_conv)
qed (auto simp: onWorld_def intro: cmdsExt_trans safeCmd_args safeCmd_detach)

end
