(* ===== verification/StoreProps.thy ===== *)
theory StoreProps
  imports Daemon
begin

section \<open>Properties of the stores\<close>

text \<open>
  What the daemon's files and its memory agree on. The proofs are the lemmas of
  \<open>json_store\<close> at each package's interpretation. \<open>scriptEnv f\<close> is a host for the witnesses: every
  call succeeds, and a program answers \<open>f\<close> of its arguments (nothing, on \<open>quietEnv\<close>).
\<close>

definition scriptEnv :: "(string list \<Rightarrow> string) \<Rightarrow> unit env" where
  "scriptEnv f =
     \<lparr>exec = \<lambda>_ args _ h. (ExecOK (f args), h), osFault = \<lambda>_ _ _. False, osTorn = \<lambda>_ _. None,
      tmpTag = \<lambda>_. ''1'', procMounts = \<lambda>_. Some []\<rparr>"

abbreviation quietEnv :: "unit env" where
  "quietEnv \<equiv> scriptEnv (\<lambda>_. [])"

definition emptyWorld :: "unit world" where
  "emptyWorld = \<lparr>files = \<lambda>_. None, hyp = (), cmds = []\<rparr>"

lemma quiet_simps [simp]:
  "osFault (scriptEnv f) op p fs = False" "exec (scriptEnv f) prog args fs h = (ExecOK (f args), h)"
  by (simp_all add: scriptEnv_def)

definition demoServer :: "unit server" where
  "demoServer =
     \<lparr>svAuto = \<lparr>Path = ''/d/autostart.json'', sdata = []\<rparr>,
      svMounts = \<lparr>mmStore = \<lparr>Path = ''/d/mounts.json'', sdata = []\<rparr>, mmLast = []\<rparr>,
      svUSB = \<lparr>Path = ''/d/usb.json'', sdata = []\<rparr>, svPCI = \<lparr>Path = ''/d/pci.json'', sdata = []\<rparr>,
      svSched = \<lparr>Path = ''/d/schedule.json'', sdata = []\<rparr>, svBackup = [],
      svVNC = \<lparr>Path = ''/d/vnc.json'', sdata = []\<rparr>, svTPM = \<lparr>Path = ''/d/tpm.json'', sdata = []\<rparr>,
      svSettings = \<lparr>ssPath = ''/d/settings.json'', ssData = zeroSettings\<rparr>, svArmed = [],
      svLaunched = [], svWorld = emptyWorld\<rparr>"

definition demoCtx :: "unit env \<Rightarrow> unit ctx" where
  "demoCtx env =
     \<lparr>cxEnv = env, cxVirsh = virsh_New [], cxSnapshotRoot = ''/d/snapshots'', cxNow = 0, cxStamp = ''now'',
      cxNewID = ''00'', cxVersion = ''dev'', cxStatfs = \<lambda>_. None, cxReadlink = \<lambda>_. None,
      cxTargetOrder = id, cxAutoOrder = id, cxMountOrder = id, cxUsbOrder = id, cxPciOrder = id,
      cxSchedOrder = id, cxJobOrder = id, cxVncOrder = id, cxTpmOrder = id, cxLabelOrder = id,
      cxUnitOrder = id\<rparr>"

definition demoCfg :: Config where
  "demoCfg = config_Load (\<lambda>_. [])"

definition demoRequest :: "string \<Rightarrow> string \<Rightarrow> json \<Rightarrow> request" where
  "demoRequest m p b =
     \<lparr>rqMethod = m, rqPath = p, rqQuery = \<lambda>_. [], rqBody = Inr b, rqOrigin = [], rqHost = ''zima''\<rparr>"

definition demoSurroundings :: "unit env \<Rightarrow> unit surroundings" where
  "demoSurroundings env = \<lparr>srCtx = demoCtx env, srSleep = \<lambda>_ h. h, srFmt = \<lambda>_. ''now'',
     srPost = \<lambda>_ _ h. (Inr (200, []), h), srOther = id\<rparr>"

lemma demo_orders: "ordersOk (demoCtx env)" "srCtx (demoSurroundings env) = demoCtx env"
  by (simp_all add: ordersOk_def demoCtx_def demoSurroundings_def)

lemma publish_quiet: "fst (publish (scriptEnv f) p j w) = Inr ()"
  by (simp add: publish_eq os_MkdirAll_def os_WriteFile_def os_Rename_def)

lemma save_quiet: "storeSave enc ord (scriptEnv f) st w = (Inr (), snd (storeSave enc ord (scriptEnv f) st w))"
  by (simp add: storeSave_def prod_eq_iff publish_quiet)

lemma put_quiet:
  "storePut enc key ord (scriptEnv f) e st w =
    (Inr (), st\<lparr>sdata := gput (key e) e (sdata st)\<rparr>,
     snd (storeSave enc ord (scriptEnv f) (st\<lparr>sdata := gput (key e) e (sdata st)\<rparr>) w))"
  unfolding storePut_def Let_def by (subst save_quiet) simp

text \<open>
  C14: saving the USB store is atomic against a crash: in each of the file systems that a crash during
  the save can leave, between two of its file system calls or in the middle of the write, whatever that has written
  by then, opening the store gives what it gave before, or the pins that were being
  saved, and never an error the file did not have before. (A crash of the process: what a power failure does to
  data that the kernel has not written out yet is not modelled; the code does not sync.)
\<close>

theorem usb_save_crash_safe:
  assumes "usb_json.wfStore s" "is_order ord"
    and "\<And>fs. \<not> osFault env OpRead (Path s) fs"
    and "v \<in> set (publishTrace env torn (Path s) (JArr (map (usb_enc \<circ> snd) (ord (sdata s)))) w)"
  shows "usb_NewStore env v (Path s) = usb_NewStore env w (Path s)
    \<or> (\<exists>s'. usb_NewStore env v (Path s) = Inr s' \<and> (\<forall>k. gget k (sdata s') = gget k (sdata s)))"
  using usb_json.open_after_crash [OF assms] unfolding usb_NewStore_def usb_load_def storeOpen_def .

definition demoPin :: UsbPin where
  "demoPin = \<lparr>upVM = ''win'', upVendorID = ''abcd'', upProductID = ''0001'', upDescription = []\<rparr>"

definition demoUsb :: "UsbPin store" where
  "demoUsb = \<lparr>Path = ''/d/usb.json'', sdata = [(usb_key demoPin, demoPin)]\<rparr>"

lemma demoUsb_wf: "usb_json.wfStore demoUsb"
  by (simp add: usb_json.wfStore_def demoUsb_def keyed_def gmap_ok_def)

theorem usb_save_crash_safe_witness:
  "let v = snd (publish quietEnv ''/d/usb.json'' (JArr (map (usb_enc \<circ> snd) (sdata demoUsb))) emptyWorld)
   in usb_NewStore quietEnv v ''/d/usb.json'' = usb_NewStore quietEnv emptyWorld ''/d/usb.json''
    \<or> (\<exists>s'. usb_NewStore quietEnv v ''/d/usb.json'' = Inr s' \<and> (\<forall>k. gget k (sdata s') = gget k (sdata demoUsb)))"
  using usb_save_crash_safe [OF demoUsb_wf is_order_id(2), of quietEnv
      "snd (publish quietEnv ''/d/usb.json'' (JArr (map (usb_enc \<circ> snd) (sdata demoUsb))) emptyWorld)" None emptyWorld]
    publishTrace_done [of quietEnv "''/d/usb.json''" "JArr (map (usb_enc \<circ> snd) (sdata demoUsb))" emptyWorld None]
  by (simp add: demoUsb_def Let_def)

text \<open>
  C27: editing a schedule never resets its run clock, and the edit survives a restart: after a
  successful \<open>Upsert\<close> the stored entry is the one that was sent, with a negative \<open>Keep\<close> raised to
  zero and with the last run of the entry it replaces, and opening the store again finds it.
\<close>

theorem sched_upsert_keeps_clock:
  assumes "sched_json.wfStore s" "is_order ord" "sched_wf e"
    and up: "sched_Upsert ord env e s w = (Inr saved, s1, w1)"
    and "\<not> osFault env OpRead (Path s) (files w1)"
  shows "saved = e\<lparr>seKeep := max 0 (seKeep e),
      seLastRunUnix := (case gget (seVM e) (sdata s) of None \<Rightarrow> seLastRunUnix e | Some old \<Rightarrow> seLastRunUnix old)\<rparr> \<and>
    (seEnabled saved \<longrightarrow> 0 < seIntervalHours saved) \<and>
    (\<exists>s'. sched_NewStore env w1 (Path s) = Inr s' \<and>
      (\<forall>k. gget k (sdata s') = (if k = seVM e then Some saved else gget k (sdata s))))"
proof -
  let ?e = "e\<lparr>seKeep := max 0 (seKeep e), seLastRunUnix := (case gget (seVM e) (sdata s) of
      None \<Rightarrow> seLastRunUnix e | Some old \<Rightarrow> seLastRunUnix old)\<rparr>"
  have norm: "(let e = (if seKeep e < 0 then e\<lparr>seKeep := 0\<rparr> else e)
      in case gget (seVM e) (sdata s) of
           Some prev \<Rightarrow> e\<lparr>seLastRunUnix := seLastRunUnix prev\<rparr> | None \<Rightarrow> e) = ?e"
    by (cases e) (simp add: Let_def max_def split: option.split)
  have put: "storePut sched_enc seVM ord env ?e s w = (Inr (), s1, w1)" and saved: "saved = ?e"
    and int: "seEnabled e \<Longrightarrow> 0 < seIntervalHours e"
    using up norm [symmetric]
    by (auto simp: sched_Upsert_put Let_def split: if_splits prod.splits sum.splits)
  have wf: "sched_wf ?e"
    using assms(1,3)
    by (auto simp: sched_wf_def is_int64_def sched_json.wfStore_def minInt64_def maxInt64_def
        split: option.splits dest!: gget_SomeD)
  from sched_json.open_after_put [OF assms(1) this assms(2) put assms(5)]
  have "\<exists>s'. sched_NewStore env w1 (Path s) = Inr s' \<and>
      (\<forall>k. gget k (sdata s') = (if k = seVM e then Some saved else gget k (sdata s)))"
    unfolding sched_NewStore_def sched_load_def storeOpen_def saved by (simp split del: if_split)
  with saved int show ?thesis by simp
qed

definition demoSched :: SchedEntry where
  "demoSched = \<lparr>seVM = ''win'', seEnabled = True, seIntervalHours = 24, seKeep = -1, seLastRunUnix = 5\<rparr>"

definition oldSched :: "SchedEntry store" where
  "oldSched = \<lparr>Path = ''/d/schedule.json'', sdata = [(''win'', demoSched\<lparr>seKeep := 3, seLastRunUnix := 77\<rparr>)]\<rparr>"

theorem sched_upsert_keeps_clock_witness:
  "\<exists>saved s1 w1. sched_Upsert id quietEnv demoSched oldSched emptyWorld = (Inr saved, s1, w1) \<and>
     seLastRunUnix saved = 77 \<and> seKeep saved = 0 \<and>
     (\<exists>s'. sched_NewStore quietEnv w1 ''/d/schedule.json'' = Inr s' \<and> gget ''win'' (sdata s') = Some saved)"
proof -
  have wf: "sched_json.wfStore oldSched" "sched_wf demoSched"
    by (simp_all add: sched_json.wfStore_def oldSched_def demoSched_def keyed_def gmap_ok_def sched_wf_def
        is_int64_def minInt64_def maxInt64_def)
  obtain saved s1 w1 where r: "sched_Upsert id quietEnv demoSched oldSched emptyWorld = (Inr saved, s1, w1)"
    by (simp add: sched_Upsert_put demoSched_def put_quiet Let_def)
  from sched_upsert_keeps_clock [OF wf(1) is_order_id(1) wf(2) r] r show ?thesis
    by (auto simp: oldSched_def demoSched_def gget_def)
qed

end
