(* ===== verification/VncXmlProofs.thy ===== *)
theory VncXmlProofs
  imports VncXml Validate
begin

section \<open>Correctness of the VNC edits\<close>

text \<open>
  What an edit writes is what the readers of \<open>VncXml\<close> read back. The lemmas go from the search
  for the tag (which depends only on the text before it), through the attributes at the head of
  a tag, to the two edits of the console: its password and its listen address.
\<close>

subsection \<open>Finding the tag\<close>

definition openTagShape :: "string \<Rightarrow> bool" where
  "openTagShape t \<longleftrightarrow> (\<exists>x. t = graphicsHead @ x @ ''>'' \<and> CHR ''>'' \<notin> set x)"

lemma vncOpenTagFrom_Some:
  "vncOpenTagFrom pre s = Some (p, t, q) \<Longrightarrow>
    pre @ s = p @ t @ q \<and> isVncTag t \<and> openTagShape t"
proof (induction pre s rule: vncOpenTagFrom.induct)
  case (1 pre s)
  obtain a r where ar: "Cut s graphicsHead = Some (a, r)"
    using "1.prems" by (subst (asm) vncOpenTagFrom.simps) (auto split: option.splits)
  obtain x post where xp: "Cut r ''>'' = Some (x, post)"
    using "1.prems" ar by (subst (asm) vncOpenTagFrom.simps) (auto split: option.splits)
  have s: "s = a @ graphicsHead @ x @ ''>'' @ post"
    using Cut_SomeD [OF ar] Cut_SomeD [OF xp] by simp
  show ?case
  proof (cases "isVncTag (graphicsHead @ x @ ''>'')")
    case True
    with "1.prems" ar xp s Cut_byte_notin [OF xp] show ?thesis
      by (subst (asm) vncOpenTagFrom.simps) (auto simp: openTagShape_def Let_def)
  next
    case False
    with "1.prems" ar xp
    have "vncOpenTagFrom (pre @ a @ graphicsHead @ x @ ''>'') post = Some (p, t, q)"
      by (subst (asm) vncOpenTagFrom.simps) (simp add: Let_def)
    with "1.IH" [OF ar refl xp refl refl False] s show ?thesis by simp
  qed
qed

lemma vncOpenTag_Some:
  assumes "vncOpenTag s = Some (p, t, q)"
  shows "s = p @ t @ q" "isVncTag t" "openTagShape t"
  using vncOpenTagFrom_Some [of "[]" s p t q] assms by (simp_all add: vncOpenTag_def)

text \<open>Any well-shaped VNC tag put in the place of the one found is found there again.\<close>

lemma vncOpenTagFrom_replace:
  "vncOpenTagFrom pre s = Some (p, t, q) \<Longrightarrow> isVncTag t' \<Longrightarrow> openTagShape t' \<Longrightarrow>
    \<exists>u. p = pre @ u \<and> vncOpenTagFrom pre (u @ t' @ q') = Some (p, t', q')"
proof (induction pre s rule: vncOpenTagFrom.induct)
  case (1 pre s)
  obtain a r where ar: "Cut s graphicsHead = Some (a, r)"
    using "1.prems"(1) by (subst (asm) vncOpenTagFrom.simps) (auto split: option.splits)
  obtain x post where xp: "Cut r ''>'' = Some (x, post)"
    using "1.prems"(1) ar by (subst (asm) vncOpenTagFrom.simps) (auto split: option.splits)
  obtain x' where x': "t' = graphicsHead @ x' @ ''>''" "CHR ''>'' \<notin> set x'"
    using "1.prems"(3) by (auto simp: openTagShape_def)
  show ?case
  proof (cases "isVncTag (graphicsHead @ x @ ''>'')")
    case True
    with "1.prems"(1) ar xp have p: "p = pre @ a"
      by (subst (asm) vncOpenTagFrom.simps) (auto simp: Let_def)
    have "Cut (a @ t' @ q') graphicsHead = Some (a, x' @ ''>'' @ q')"
      using Cut_extend [OF ar, of "x' @ ''>'' @ q'"] x' by simp
    then have "vncOpenTagFrom pre (a @ t' @ q') = Some (pre @ a, t', q')"
      using x' "1.prems"(2) by (subst vncOpenTagFrom.simps) (simp add: Let_def)
    with p show ?thesis by blast
  next
    case False
    let ?t = "graphicsHead @ x @ ''>''"
    from False "1.prems"(1) ar xp
    have "vncOpenTagFrom (pre @ a @ ?t) post = Some (p, t, q)"
      by (subst (asm) vncOpenTagFrom.simps) (simp add: Let_def)
    from "1.IH" [OF ar refl xp refl refl False this "1.prems"(2,3)]
    obtain u where u: "p = (pre @ a @ ?t) @ u"
      "vncOpenTagFrom (pre @ a @ ?t) (u @ t' @ q') = Some (p, t', q')"
      by blast
    have "Cut (a @ ?t @ u @ t' @ q') graphicsHead = Some (a, x @ ''>'' @ u @ t' @ q')"
      using Cut_extend [OF ar, of "x @ ''>'' @ u @ t' @ q'"] by simp
    then have "vncOpenTagFrom pre ((a @ ?t @ u) @ t' @ q') = Some (p, t', q')"
      using False u(2) Cut_byte_notin [OF xp]
      by (subst vncOpenTagFrom.simps) (simp add: Let_def)
    with u(1) show ?thesis by (intro exI [of _ "a @ ?t @ u"]) simp
  qed
qed

lemma vncOpenTag_replace:
  assumes "vncOpenTag s = Some (p, t, q)" "isVncTag t'" "openTagShape t'"
  shows "vncOpenTag (p @ t' @ q') = Some (p, t', q')"
  using vncOpenTagFrom_replace [of "[]" s p t q t' q'] assms by (auto simp: vncOpenTag_def)

subsection \<open>Dropping an attribute\<close>

lemma append_head_split:
  assumes "h @ x = a @ c # b" "c \<notin> set h"
  obtains a' where "a = h @ a'" "x = a' @ c # b"
  using assms by (auto simp: append_eq_append_conv2 Cons_eq_append_conv append_eq_Cons_conv)

lemma tagDropAttrQ_shape:
  assumes "tagDropAttrQ q t attr = Some t'" "openTagShape t" "q \<noteq> CHR ''>''"
  shows "openTagShape t'"
proof -
  obtain x where x: "t = graphicsHead @ x @ ''>''" "CHR ''>'' \<notin> set x"
    using assms(2) by (auto simp: openTagShape_def)
  obtain a rest where ar: "Cut t ('' '' @ attr @ ''='' @ [q]) = Some (a, rest)"
    using assms(1) by (auto simp: tagDropAttrQ_def split: option.splits)
  obtain v b where vb: "Cut rest [q] = Some (v, b)" "t' = a @ b"
    using assms(1) ar by (auto simp: tagDropAttrQ_def)
  let ?k = "attr @ ''='' @ [q] @ v @ [q]"
  have t: "t = a @ CHR '' '' # ?k @ b"
    using Cut_SomeD [OF ar] Cut_SomeD [OF vb(1)] by simp
  have "b \<noteq> []"
  proof
    assume "b = []"
    then have "last t = q" using t by simp
    with x assms(3) show False by simp
  qed
  then obtain y where y: "b = y @ ''>''"
    using t x by (metis append_butlast_last_id last_appendR last_snoc append_is_Nil_conv list.distinct(1) last_ConsR)
  then have "graphicsHead @ x = a @ CHR '' '' # ?k @ y"
    using t x by simp
  moreover have "CHR '' '' \<notin> set graphicsHead"
    by (simp add: graphicsHead_def)
  ultimately obtain a' where "a = graphicsHead @ a'" "x = a' @ CHR '' '' # ?k @ y"
    by (rule append_head_split)
  with vb y x show ?thesis
    unfolding openTagShape_def by (intro exI [of _ "a' @ y"]) auto
qed

lemma tagDropAttr_shape: "openTagShape t \<Longrightarrow> openTagShape (tagDropAttr t attr)"
  unfolding tagDropAttr_def
  by (auto split: option.splits dest: tagDropAttrQ_shape)

lemma openTagShape_insert:
  assumes "openTagShape t" "CHR ''>'' \<notin> set attrs"
  shows "openTagShape (graphicsHead @ attrs @ drop (length graphicsHead) t)"
proof -
  obtain x where "t = graphicsHead @ x @ ''>''" "CHR ''>'' \<notin> set x"
    using assms(1) by (auto simp: openTagShape_def)
  with assms(2) show ?thesis
    unfolding openTagShape_def by (intro exI [of _ "attrs @ x"]) simp
qed

lemma isVncTag_head: "isVncTag (graphicsHead @ s) \<longleftrightarrow> isVncTag s"
  by (simp add: isVncTag_def graphicsHead_def Contains_skip sq_def
      Contains_skip [of _ "''<graphics''", simplified])

lemma isVncTag_append: "isVncTag s \<Longrightarrow> isVncTag (a @ s)"
  by (auto simp: isVncTag_def intro: Contains_append1)

lemma isVncTag_insert:
  assumes "openTagShape t" "isVncTag t"
  shows "isVncTag (graphicsHead @ attrs @ drop (length graphicsHead) t)"
proof -
  obtain x where x: "t = graphicsHead @ x @ ''>''"
    using assms(1) by (auto simp: openTagShape_def)
  with assms(2) have "isVncTag (x @ ''>'')" by (simp add: isVncTag_head)
  then have "isVncTag (attrs @ x @ ''>'')" by (rule isVncTag_append)
  with x show ?thesis by (simp add: isVncTag_head)
qed

subsection \<open>Reading an attribute at the head of a tag\<close>

lemma tagAttr_found:
  assumes "Cut t (attr @ ''='' @ [apos]) = Some (a, v @ apos # r)" "apos \<notin> set v"
  shows "tagAttr t attr = v"
  using assms by (simp add: tagAttr_def tagAttrQ_def)

definition plainText :: "string \<Rightarrow> bool" where
  "plainText v \<longleftrightarrow> CHR ''p'' \<notin> set v \<and> CHR ''a'' \<notin> set v \<and> apos \<notin> set v \<and> CHR ''>'' \<notin> set v"

lemma Cut_over:
  assumes "p \<noteq> []" "hd p \<notin> set v"
  shows "Cut (v @ s) p = map_option (\<lambda>(x, y). (v @ x, y)) (Cut s p)"
  using assms by (rule Cut_skip)

lemma tagAttr_passwd_head:
  assumes "apos \<notin> set pw"
  shows "tagAttr (graphicsHead @ '' passwd='' @ sq pw @ r) ''passwd'' = pw"
  by (rule tagAttr_found [of _ _ _ _ r]) (simp_all add: graphicsHead_def sq_def assms)

lemma plainText_natDigits: "plainText (natDigits n)"
  by (simp add: plainText_def natDigits_notin)

lemma tagAttr_listen_head:
  assumes "plainText L"
  shows "tagAttr (graphicsHead @ listenAttrs L port @ r) ''listen'' = L"
  using assms
  by (cases "0 < port")
    (rule tagAttr_found, simp add: graphicsHead_def listenAttrs_def sq_def, simp add: plainText_def)+

lemma tagAttr_port_head:
  assumes "plainText L" "0 < port"
  shows "tagAttr (graphicsHead @ listenAttrs L port @ r) ''port'' = Itoa port"
proof (rule tagAttr_found)
  show "Cut (graphicsHead @ listenAttrs L port @ r) (''port'' @ ''='' @ [apos]) =
      Some (graphicsHead @ '' listen='' @ sq L @ '' '',
        Itoa port @ apos # '' autoport='' @ sq ''no'' @ r)"
    using assms by (simp add: graphicsHead_def listenAttrs_def sq_def Cut_over plainText_def)
  show "apos \<notin> set (Itoa port)"
    using assms(2) by (simp add: Itoa_pos natDigits_notin)
qed

lemma tagAttr_autoport_head:
  assumes "plainText L"
  shows "tagAttr (graphicsHead @ listenAttrs L port @ r) ''autoport'' =
    (if 0 < port then ''no'' else ''yes'')"
proof (cases "0 < port")
  case True
  have "Cut (graphicsHead @ listenAttrs L port @ r) (''autoport'' @ ''='' @ [apos]) =
      Some (graphicsHead @ '' listen='' @ sq L @ '' port='' @ sq (Itoa port) @ '' '',
        ''no'' @ apos # r)"
    using assms True
    by (simp add: graphicsHead_def listenAttrs_def sq_def Cut_over plainText_def Itoa_pos natDigits_notin)
  from tagAttr_found [OF this] True show ?thesis by simp
next
  case False
  have "Cut (graphicsHead @ listenAttrs L port @ r) (''autoport'' @ ''='' @ [apos]) =
      Some (graphicsHead @ '' listen='' @ sq L @ '' '', ''yes'' @ apos # r)"
    using assms False
    by (simp add: graphicsHead_def listenAttrs_def sq_def Cut_over plainText_def)
  from tagAttr_found [OF this] False show ?thesis by simp
qed

lemma tagAttr_auto_port_head:
  assumes "plainText L" "\<not> 0 < port"
  shows "tagAttr (graphicsHead @ listenAttrs L port @ r) ''port'' = ''yes''"
proof (rule tagAttr_found)
  show "Cut (graphicsHead @ listenAttrs L port @ r) (''port'' @ ''='' @ [apos]) =
      Some (graphicsHead @ '' listen='' @ sq L @ '' auto'', ''yes'' @ apos # r)"
    using assms by (simp add: graphicsHead_def listenAttrs_def sq_def Cut_over plainText_def)
qed simp

subsection \<open>Replacing the listen child\<close>

definition addrText :: "string \<Rightarrow> bool" where
  "addrText v \<longleftrightarrow> list_all (\<lambda>c. isDigit c \<or> c = CHR ''.'' \<or> c = CHR '':'') v"

lemma addrText_notin:
  "addrText v \<Longrightarrow> \<not> isDigit c \<Longrightarrow> c \<noteq> CHR ''.'' \<Longrightarrow> c \<noteq> CHR '':'' \<Longrightarrow> c \<notin> set v"
  by (auto simp: addrText_def list_all_iff)

lemma addrText_plainText: "addrText v \<Longrightarrow> plainText v"
  by (simp add: plainText_def addrText_notin)

lemma tagAttr_listenElement: "addrText L \<Longrightarrow> tagAttr (listenElement L) ''address'' = L"
  by (rule tagAttr_found [of _ _ "''<listen type='' @ sq ''address'' @ '' ''" _ "''/>''"])
    (simp_all add: listenElement_def sq_def addrText_notin)

lemma vncListenChild_replace:
  assumes child: "vncListenChild tag post = child" "child \<noteq> []" and L: "addrText L"
  obtains a b where "Cut post child = Some (a, b)"
    "vncListenChild tag (a @ listenElement L @ b) = listenElement L"
proof -
  let ?G = "''</graphics>''" and ?E = "listenElement L"
  have open_tag: "\<not> HasSuffix (TrimSpace tag) ''/>''"
    using child by (auto simp: vncListenChild_def)
  from child open_tag obtain body rest where g: "Cut post ?G = Some (body, rest)"
    by (auto simp: vncListenChild_def split: option.splits)
  from child open_tag g obtain x r where x: "Cut body ''<listen'' = Some (x, r)"
    by (auto simp: vncListenChild_def split: option.splits)
  from child open_tag g x obtain r1 r2 where r: "Cut r ''>'' = Some (r1, r2)"
    by (auto simp: vncListenChild_def split: option.splits)
  from child open_tag g x r have c: "child = ''<listen'' @ r1 @ ''>''"
    by (simp add: vncListenChild_def)
  have body: "body = x @ child @ r2"
    using Cut_SomeD [OF x] Cut_SomeD [OF r] c by simp
  have post: "post = body @ ?G @ rest"
    by (rule Cut_SomeD [OF g])
  let ?b = "r2 @ ?G @ rest"
  have "Cut post ''<listen'' = Some (x, (r1 @ ''>'') @ ?b)"
    using Cut_append [OF x, of "?G @ rest"] Cut_SomeD [OF r] post by simp
  from Cut_longer [OF this] c have found: "Cut post child = Some (x, ?b)" by simp
  have "Cut (?E @ ?b) ?G = Some (?E @ r2, rest)"
  proof -
    have "Cut ((x @ child) @ ?b) ?G = Some ((x @ child) @ r2, rest)"
      using g body post by simp
    then have b: "Cut ?b ?G = Some (r2, rest)" by (rule Cut_drop_front)
    have "Cut (tl ?E @ ?b) ?G = Some (tl ?E @ r2, rest)"
      by (rule Cut_skip_Some [OF b]) (simp_all add: listenElement_def sq_def addrText_notin [OF L])
    then show ?thesis by (simp add: listenElement_def)
  qed
  moreover have "Cut x ?G = None"
    using Cut_before_None [of post ?G x "child @ r2"] g body by simp
  ultimately have "Cut (x @ ?E @ ?b) ?G = Some (x @ ?E @ r2, rest)"
    using Cut_boundary [of "CHR ''<''" ?G x "tl ?E @ ?b"] by (simp add: listenElement_def)
  moreover have "Cut (x @ ?E @ r2) ''<listen'' = Some (x, drop 7 ?E @ r2)"
    using Cut_extend [OF x, of "drop 7 ?E @ r2"] by (simp add: listenElement_def)
  moreover have "Cut (drop 7 ?E @ r2) ''>'' = Some (drop 7 (butlast ?E), r2)"
    using Cut_byte [of "CHR ''>''" "drop 7 (butlast ?E)" r2] addrText_notin [OF L, of "CHR ''>''"]
    by (simp add: listenElement_def sq_def butlast_append)
  moreover have "''<listen'' @ drop 7 (butlast ?E) @ ''>'' = ?E"
    by (simp add: listenElement_def sq_def butlast_append)
  ultimately have "vncListenChild tag (x @ ?E @ ?b) = ?E"
    using open_tag by (simp add: vncListenChild_def)
  with found show ?thesis by (rule that)
qed

subsection \<open>The two edits\<close>

definition dropListenAttrs :: "string \<Rightarrow> string" where
  "dropListenAttrs tag = tagDropAttr (tagDropAttr (tagDropAttr tag ''listen'') ''port'') ''autoport''"

lemma newTag_password:
  assumes "openTagShape tag" "isVncTag (tagDropAttr tag ''passwd'')" "CHR ''>'' \<notin> set pw"
  defines "t \<equiv> graphicsHead @ '' passwd='' @ sq pw @ drop (length graphicsHead) (tagDropAttr tag ''passwd'')"
  shows "openTagShape t" "isVncTag t"
  using openTagShape_insert [OF tagDropAttr_shape [OF assms(1)], of "'' passwd='' @ sq pw"]
    isVncTag_insert [OF tagDropAttr_shape [OF assms(1)] assms(2), of "'' passwd='' @ sq pw"] assms(3)
  by (simp_all add: t_def sq_def)

lemma newTag_listen:
  fixes tag L :: string and port :: int
  assumes "openTagShape tag" "isVncTag (dropListenAttrs tag)" "addrText L"
  defines "t \<equiv> graphicsHead @ listenAttrs L port @ drop (length graphicsHead) (dropListenAttrs tag)"
  shows "openTagShape t" "isVncTag t"
proof -
  have shape: "openTagShape (dropListenAttrs tag)"
    unfolding dropListenAttrs_def by (intro tagDropAttr_shape assms(1))
  have "CHR ''>'' \<notin> set (listenAttrs L port)"
    using assms(3) by (simp add: listenAttrs_def sq_def addrText_notin Itoa_pos natDigits_notin)
  from openTagShape_insert [OF shape this] isVncTag_insert [OF shape assms(2), of "listenAttrs L port"]
  show "openTagShape t" "isVncTag t" by (simp_all add: t_def)
qed

text \<open>
  C25: setting a valid password on a domain whose VNC tag was found always succeeds; the result
  differs from the document in that one tag only, so the namespaced metadata block survives; and the
  tag reads back with exactly that password and is reported as protected. The hypothesis on the tag
  says that its \<open>type='vnc'\<close> is not part of the password value that is replaced.
\<close>

theorem vnc_password_readback:
  assumes found: "vncOpenTag domXML = Some (pre, tag, post)"
    and vnc: "isVncTag (tagDropAttr tag ''passwd'')"
    and pw: "ValidPassword pw"
  shows "\<exists>tag'. setGraphicsPasswordXML domXML pw = Inr (pre @ tag' @ post)
    \<and> vncOpenTag (pre @ tag' @ post) = Some (pre, tag', post)
    \<and> tagAttr tag' ''passwd'' = pw
    \<and> fst (vncGraphicsInfo (pre @ tag' @ post)) \<and> fst (snd (vncGraphicsInfo (pre @ tag' @ post)))"
proof -
  let ?t = "graphicsHead @ '' passwd='' @ sq pw @ drop (length graphicsHead) (tagDropAttr tag ''passwd'')"
  note pwd = ValidPassword_shape [OF pw]
  have t: "openTagShape ?t" "isVncTag ?t"
    using newTag_password [OF vncOpenTag_Some(3) [OF found] vnc pwd(6)] by simp_all
  have again: "vncOpenTag (pre @ ?t @ post) = Some (pre, ?t, post)"
    by (rule vncOpenTag_replace [OF found t(2,1)])
  have attr: "tagAttr ?t ''passwd'' = pw"
    by (rule tagAttr_passwd_head [OF pwd(3)])
  have "setGraphicsPasswordXML domXML pw = Inr (pre @ ?t @ post)"
    using found pwd(1) by (simp add: setGraphicsPasswordXML_def Let_def)
  moreover have "fst (vncGraphicsInfo (pre @ ?t @ post))"
      "fst (snd (vncGraphicsInfo (pre @ ?t @ post)))"
    using again attr pwd(1) by (simp_all add: vncGraphicsInfo_def Let_def)
  ultimately show ?thesis using again attr by blast
qed

text \<open>
  C6: the address and port that are set are the ones the readers report afterwards, whether the document had a
  \<open>listen\<close> child of any type or none: the address, and the fixed port or the automatic one. This holds for
  the two addresses that the program sets and ports up to 65535, on a document whose VNC tag is found and
  still says \<open>type='vnc'\<close> after the attributes \<open>listen\<close>, \<open>port\<close> and \<open>autoport\<close> were cut out of
  it by the program's textual match. The last condition is a real one: the match
  does not know where an attribute value begins, so an attribute whose value holds one of these
  names can lose more than was meant, and then nothing is claimed here.
\<close>

theorem vnc_listen_readback:
  assumes found: "vncOpenTag domXML = Some (pre, tag, post)"
    and vnc: "isVncTag (tagDropAttr (tagDropAttr (tagDropAttr tag ''listen'') ''port'') ''autoport'')"
    and L: "listen \<in> {''127.0.0.1'', ''0.0.0.0''}" and port: "port \<le> 65535"
  shows "\<exists>out. setGraphicsListenXML domXML listen port = Inr out
    \<and> fst (vncGraphicsInfo out) \<and> snd (snd (vncGraphicsInfo out)) = listen
    \<and> vncGraphicsPort out = (if 0 < port then (port, False) else (0, True))"
proof -
  let ?t = "graphicsHead @ listenAttrs listen port @ drop (length graphicsHead) (dropListenAttrs tag)"
  have A: "addrText listen" "listen \<noteq> []"
    using L by (auto simp: addrText_def isDigit_def less_eq_char_def)
  note plain = addrText_plainText [OF A(1)]
  have t: "openTagShape ?t" "isVncTag ?t"
    using newTag_listen [OF vncOpenTag_Some(3) [OF found], of listen port] vnc A(1)
    by (simp_all add: dropListenAttrs_def)
  have again: "vncOpenTag (pre @ ?t @ q) = Some (pre, ?t, q)" for q
    by (rule vncOpenTag_replace [OF found t(2,1)])
  have portOK: "vncGraphicsPort (pre @ ?t @ q) = (if 0 < port then (port, False) else (0, True))" for q
  proof (cases "0 < port")
    case True
    then have "Atoi (tagAttr ?t ''port'') = Some port"
      using plain port by (simp add: tagAttr_port_head Atoi_Itoa_pos maxInt64_def)
    moreover have "tagAttr ?t ''autoport'' = ''no''"
      using tagAttr_autoport_head [OF plain, of port] True by simp
    ultimately show ?thesis using again [of q] True by (simp add: vncGraphicsPort_def Let_def)
  next
    case False
    then have "Atoi (tagAttr ?t ''port'') = None"
      unfolding tagAttr_auto_port_head [OF plain False]
      by (simp add: Atoi_def isDigit_def less_eq_char_def Let_def)
    moreover have "tagAttr ?t ''autoport'' \<noteq> ''no''"
      using tagAttr_autoport_head [OF plain, of port] False by simp
    ultimately show ?thesis using again [of q] False by (simp add: vncGraphicsPort_def Let_def)
  qed
  show ?thesis
  proof (cases "vncListenChild ?t post")
    case Nil
    then have "setGraphicsListenXML domXML listen port = Inr (pre @ ?t @ post)"
      using found again [of post] by (simp add: setGraphicsListenXML_def dropListenAttrs_def Let_def)
    with Nil again [of post] portOK [of post] plain show ?thesis
      by (simp add: vncGraphicsInfo_def tagAttr_listen_head Let_def)
  next
    case (Cons c cs)
    then have child: "vncListenChild ?t post = c # cs" "c # cs \<noteq> []" by simp_all
    from vncListenChild_replace [OF child A(1)] obtain a b where
      ab: "Cut post (c # cs) = Some (a, b)"
        "vncListenChild ?t (a @ listenElement listen @ b) = listenElement listen"
      by blast
    let ?q = "a @ listenElement listen @ b"
    have "setGraphicsListenXML domXML listen port = Inr (pre @ ?t @ ?q)"
      using found again [of post] child(1) ab(1)
      by (simp add: setGraphicsListenXML_def dropListenAttrs_def Let_def)
    with ab(2) again [of ?q] portOK [of ?q] A(2) tagAttr_listenElement [OF A(1)]
      tagAttr_listen_head [OF plain]
    show ?thesis
      by (simp add: vncGraphicsInfo_def Let_def)
  qed
qed

subsection \<open>A document\<close>

definition demoTag :: string where
  "demoTag = ''<graphics type='' @ sq ''vnc'' @ '' port='' @ sq ''-1'' @ '' listen='' @ sq ''::'' @ ''>''"

definition demoTail :: string where
  "demoTail = ''<listen type='' @ sq ''address'' @ '' address='' @ sq ''::'' @ ''/></graphics></devices></domain>''"

definition demoDoc :: string where
  "demoDoc = ''<domain><devices>'' @ demoTag @ demoTail"

lemma demo_tag: "vncOpenTag demoDoc = Some (''<domain><devices>'', demoTag, demoTail)"
  by code_simp

theorem vnc_password_readback_witness:
  "\<exists>tag'. setGraphicsPasswordXML demoDoc ''secret'' = Inr (''<domain><devices>'' @ tag' @ demoTail)
    \<and> tagAttr tag' ''passwd'' = ''secret''"
proof -
  have "isVncTag (tagDropAttr demoTag ''passwd'')" "ValidPassword ''secret''" by code_simp+
  from vnc_password_readback [OF demo_tag this] show ?thesis by blast
qed

theorem vnc_listen_readback_witness:
  "\<exists>out. setGraphicsListenXML demoDoc ''127.0.0.1'' 5901 = Inr out
    \<and> snd (snd (vncGraphicsInfo out)) = ''127.0.0.1'' \<and> vncGraphicsPort out = (5901, False)"
proof -
  have "isVncTag (tagDropAttr (tagDropAttr (tagDropAttr demoTag ''listen'') ''port'') ''autoport'')" by code_simp
  from vnc_listen_readback [OF demo_tag this, of "''127.0.0.1''" 5901] show ?thesis by auto
qed

end
