(* ===== verification/TpmXmlProofs.thy ===== *)
theory TpmXmlProofs
  imports TpmXml VncXmlProofs
begin

section \<open>Correctness of the TPM edit\<close>

text \<open>
  The device the edit inserts is found by the expression that looks for it, wherever it stands; in
  a document that had none it reads back as a CRB device with a 2.0 emulator; and taking it out
  again gives the document back, but for the blanks in front of the closing tag.
\<close>

definition tpmMark :: string where
  "tpmMark = ''<tpm''"

lemma tpmFind_None_append:
  "tpmMatch v \<noteq> None \<Longrightarrow> tpmFind (u @ v) \<noteq> None"
proof (induction u)
  case Nil
  then show ?case by (cases v) (auto simp: tpmMatch_def)
next
  case (Cons c u)
  then show ?case by (auto split: option.splits)
qed

text \<open>The element inserted, in front of a text that does not start with white space.\<close>

lemma tpmMatch_device:
  "t = [] \<or> \<not> reSpace (hd t) \<Longrightarrow> tpmMatch (tpmDevice @ t) = Some t"
  by (cases t) (simp_all add: tpmMatch_def tpmDevice_def tpmElementRest_def isBlank_def reSpace_def
      reWord_def isAlnum_def isDigit_def sq_def less_eq_char_def Let_def suffix_def)

lemma devices_not_space: "\<not> reSpace (hd (''</devices>'' @ b))"
  by (simp add: reSpace_def)

lemma tpmMatch_needs_mark: "tpmMatch s \<noteq> None \<Longrightarrow> Contains s tpmMark"
proof -
  assume "tpmMatch s \<noteq> None"
  then obtain t where "dropWhile isBlank s = tpmMark @ t"
    by (auto simp: tpmMatch_def tpmMark_def Let_def prefix_def split: if_splits)
  then have "s = takeWhile isBlank s @ tpmMark @ t"
    by (metis takeWhile_dropWhile_id)
  then show ?thesis by (metis Contains_self)
qed

lemma Contains_Cons: "Contains s p \<Longrightarrow> Contains (c # s) p"
  using Contains_append1 [of s p "[c]"] by simp

lemma tpmFind_no_mark: "\<not> Contains s tpmMark \<Longrightarrow> tpmFind s = None"
proof (induction s)
  case Nil
  then show ?case by simp
next
  case (Cons c s)
  then have "tpmMatch (c # s) = None" "\<not> Contains s tpmMark"
    using tpmMatch_needs_mark [of "c # s"] Contains_Cons by blast+
  with Cons show ?case by simp
qed

text \<open>The leftmost match after a text without a TPM element starts at the blanks in front of it.\<close>

lemma no_match_before:
  assumes "\<not> Contains (u @ w) tpmMark" "u \<noteq> []" "\<not> isBlank (last u)"
  shows "tpmMatch (u @ w @ CHR '' '' # d) = None"
proof -
  have "\<exists>c v. dropWhile isBlank u = c # v"
    using assms(2,3) by (cases "dropWhile isBlank u") (auto simp: dropWhile_eq_Nil_conv)
  then obtain c v where cv: "dropWhile isBlank u = c # v" by blast
  then have "dropWhile isBlank (u @ w @ CHR '' '' # d) = c # v @ w @ CHR '' '' # d"
    by (metis append_Cons dropWhile_append1 dropWhile_eq_Nil_conv list.distinct(1))
  moreover have "\<not> prefix ''<tpm'' ((c # v @ w) @ CHR '' '' # d)"
  proof
    assume "prefix ''<tpm'' ((c # v @ w) @ CHR '' '' # d)"
    then have "prefix ''<tpm'' (c # v @ w)"
      by (auto simp: prefix_append prefix_Cons Cons_eq_append_conv append_eq_Cons_conv)
    then obtain t where "c # v @ w = tpmMark @ t" by (auto simp: tpmMark_def prefix_def)
    moreover have "u @ w = takeWhile isBlank u @ c # v @ w"
      using cv by (metis append.assoc append_Cons takeWhile_dropWhile_id)
    ultimately have "Contains (u @ w) tpmMark" by (metis Contains_self)
    with assms(1) show False ..
  qed
  ultimately show ?thesis by (auto simp: tpmMatch_def)
qed

lemma tpmFind_device:
  assumes "\<not> Contains (u @ w) tpmMark" "u = [] \<or> \<not> isBlank (last u)" "list_all isBlank w"
    "t = [] \<or> \<not> reSpace (hd t)"
  shows "tpmFind (u @ w @ tpmDevice @ t) = Some (u, w @ tpmDevice, t)"
  using assms(1,2)
proof (induction u)
  case Nil
  have "dropWhile isBlank (w @ tpmDevice @ t) = dropWhile isBlank (tpmDevice @ t)"
    using assms(3) by (auto simp: list_all_iff dropWhile_append)
  then have "tpmMatch (w @ tpmDevice @ t) = Some t"
    using tpmMatch_device [OF assms(4)] by (simp add: tpmMatch_def)
  moreover obtain c s where "w @ tpmDevice @ t = c # s"
    by (cases "w @ tpmDevice @ t") (auto simp: tpmDevice_def)
  moreover have "w @ tpmDevice @ t = (w @ tpmDevice) @ t" by simp
  ultimately show ?case
    by (metis (no_types, lifting) append_Nil append_eq_conv_conj append_take_drop_id diff_add_inverse2
        length_append option.simps(5) tpmFind.simps(2))
next
  case (Cons c u)
  have "tpmMatch ((c # u) @ w @ tpmDevice @ t) = None"
    using no_match_before [of "c # u" w] Cons.prems by (auto simp: tpmDevice_def)
  moreover have "tpmFind (u @ w @ tpmDevice @ t) = Some (u, w @ tpmDevice, t)"
    using Cons Contains_Cons [of "u @ w" tpmMark c] by (cases u) auto
  ultimately show ?case by simp
qed

subsection \<open>Reading the inserted device\<close>

lemma tpmInfo_device:
  assumes "\<not> Contains (u @ w) tpmMark" "u = [] \<or> \<not> isBlank (last u)" "list_all isBlank w"
    "t = [] \<or> \<not> reSpace (hd t)"
  shows "tpmInfoXML (u @ w @ tpmDevice @ t) = (True, ''tpm-crb'', ''2.0'')"
proof -
  have blank: "c \<notin> set w" if "\<not> isBlank c" for c
    using assms(3) that by (auto simp: list_all_iff)
  have nb: "\<not> isBlank (CHR ''>'')" "\<not> isBlank (CHR ''<'')" "\<not> isBlank (CHR ''m'')"
    by (simp_all add: isBlank_def)
  have gt: "Cut (w @ tpmDevice) ''>'' = Some (w @ ''    <tpm model='' @ sq ''tpm-crb'', drop 25 tpmDevice)"
    using blank [OF nb(1)] by (simp add: Cut_over tpmDevice_def sq_def)
  have model: "tagAttr ((w @ ''    <tpm model='' @ sq ''tpm-crb'') @ ''>'') ''model'' = ''tpm-crb''"
    by (rule tagAttr_found [of _ _ "w @ ''    <tpm ''" _ "''>''"])
      (use blank [OF nb(3)] in \<open>simp_all add: Cut_over sq_def\<close>)
  have bk: "Cut (w @ tpmDevice) ''<backend'' =
      Some (w @ take 32 tpmDevice, drop 40 tpmDevice)"
    using blank [OF nb(2)] by (simp add: Cut_over tpmDevice_def sq_def)
  have version: "Cut (drop 40 tpmDevice) ''>'' =
      Some ('' type='' @ sq ''emulator'' @ '' version='' @ sq ''2.0'' @ ''/'', nl # ''    </tpm>'' @ [nl])"
    by (simp add: tpmDevice_def sq_def)
  have "tagAttr (''<backend'' @ ('' type='' @ sq ''emulator'' @ '' version='' @ sq ''2.0'' @ ''/'') @ ''>'')
      ''version'' = ''2.0''"
    by (rule tagAttr_found [of _ _ "''<backend type='' @ sq ''emulator'' @ '' ''" _ "''/>''"])
      (simp_all add: sq_def)
  with tpmFind_device [OF assms] gt model bk version show ?thesis
    by (simp add: tpmInfoXML_def Let_def)
qed

lemma split_trailing_blanks:
  obtains u w where "a = u @ w" "u = [] \<or> \<not> isBlank (last u)" "list_all isBlank w"
    "u = TrimRightFunc isBlank a"
  using TrimRightFunc_prefix [of a isBlank] TrimRightFunc_last [of isBlank a] by metis

lemma tpmInfo_present_iff: "fst (tpmInfoXML s) \<longleftrightarrow> tpmFind s \<noteq> None"
  by (auto simp: tpmInfoXML_def Let_def split: option.splits)

lemma tpmRemoveAll_device:
  assumes "\<not> Contains (u @ w) tpmMark" "u = [] \<or> \<not> isBlank (last u)" "list_all isBlank w"
    "t = [] \<or> \<not> reSpace (hd t)" "\<not> Contains t tpmMark"
  shows "tpmRemoveAll (u @ w @ tpmDevice @ t) = u @ t"
  by (simp add: tpmRemoveAll.simps [of "u @ w @ tpmDevice @ t"] tpmFind_device [OF assms(1-4)]
      tpmRemoveAll.simps [of t] tpmFind_no_mark [OF assms(5)])

lemma tpm_enable_result:
  "(case setTPMXML domXML True of Inl _ \<Rightarrow> CutLast domXML ''</devices>'' = None \<and> \<not> fst (tpmInfoXML domXML)
    | Inr out \<Rightarrow> fst (tpmInfoXML out) \<and> setTPMXML out True = Inr out)"
proof (cases "fst (tpmInfoXML domXML)")
  case True
  then show ?thesis by (auto simp: setTPMXML_def Let_def)
next
  case False
  show ?thesis
  proof (cases "CutLast domXML ''</devices>''")
    case None
    with False show ?thesis by (auto simp: setTPMXML_def Let_def)
  next
    case (Some ab)
    obtain a b where ab: "CutLast domXML ''</devices>'' = Some (a, b)"
      using Some by (cases ab) auto
    let ?out = "a @ tpmDevice @ ''</devices>'' @ b"
    have "tpmMatch (tpmDevice @ ''</devices>'' @ b) \<noteq> None"
      using tpmMatch_device [of "''</devices>'' @ b"] devices_not_space by simp
    then have "fst (tpmInfoXML ?out)"
      unfolding tpmInfo_present_iff by (rule tpmFind_None_append)
    moreover have "setTPMXML domXML True = Inr ?out"
      using False ab by (auto simp: setTPMXML_def Let_def)
    ultimately show ?thesis by (simp add: setTPMXML_def Let_def)
  qed
qed

lemma tpm_enable_present: "fst (tpmInfoXML domXML) \<Longrightarrow> setTPMXML domXML True = Inr domXML"
  by (simp add: setTPMXML_def Let_def)

lemma tpm_enable_absent:
  "\<not> fst (tpmInfoXML domXML) \<Longrightarrow> CutLast domXML ''</devices>'' = Some (a, b) \<Longrightarrow>
   setTPMXML domXML True = Inr (a @ tpmDevice @ ''</devices>'' @ b)"
  by (simp add: setTPMXML_def Let_def)

text \<open>
  C32: adding a TPM never touches a device that is there. A document that declares a TPM, whatever its model and
  its backend, is returned byte for byte, so one configured by hand is left alone; into any other document the
  device is inserted in front of the last closing devices tag and nothing else changes. It fails
  only for a document that has neither a TPM nor such a tag. Whatever it returns declares a
  TPM, so a second call returns the same document: the reconciler that finds the device present
  never defines the domain again.
\<close>

theorem tpm_enable_effective:
  "(case setTPMXML domXML True of Inl _ \<Rightarrow> CutLast domXML ''</devices>'' = None \<and> \<not> fst (tpmInfoXML domXML)
    | Inr out \<Rightarrow> fst (tpmInfoXML out) \<and> setTPMXML out True = Inr out \<and>
        (if fst (tpmInfoXML domXML) then out = domXML
         else \<exists>a b. domXML = a @ ''</devices>'' @ b \<and> \<not> Contains b ''</devices>'' \<and>
           out = a @ tpmDevice @ ''</devices>'' @ b))"
proof (cases "fst (tpmInfoXML domXML)")
  case True
  then show ?thesis using tpm_enable_present [OF True] by simp
next
  case False
  show ?thesis
  proof (cases "CutLast domXML ''</devices>''")
    case None
    with tpm_enable_result [of domXML] False show ?thesis
      by (simp add: setTPMXML_def Let_def)
  next
    case (Some ab)
    obtain a b where ab: "CutLast domXML ''</devices>'' = Some (a, b)"
      using Some by (cases ab) auto
    have "domXML = a @ ''</devices>'' @ b" "\<not> Contains b ''</devices>''"
      using CutLast_SomeD [OF ab] CutLast_last [OF _ ab] by simp_all
    then show ?thesis
      using tpm_enable_result [of domXML] tpm_enable_absent [OF False ab] False by auto
  qed
qed

text \<open>
  C19: on a document without a TPM element, adding the device and reading it back gives a CRB model
  with a 2.0 backend; removing it gives the document back, except that blanks in front of the last
  closing devices tag are gone.
\<close>

theorem tpm_add_remove_roundtrip:
  assumes fresh: "\<not> Contains domXML ''<tpm''"
    and dev: "CutLast domXML ''</devices>'' = Some (a, b)"
  shows "\<exists>out. setTPMXML domXML True = Inr out \<and> tpmInfoXML out = (True, ''tpm-crb'', ''2.0'')
    \<and> setTPMXML out False = Inr (TrimRightFunc isBlank a @ ''</devices>'' @ b)"
proof -
  obtain u w where uw: "a = u @ w" "u = [] \<or> \<not> isBlank (last u)" "list_all isBlank w"
    and u: "u = TrimRightFunc isBlank a"
    by (rule split_trailing_blanks)
  let ?t = "''</devices>'' @ b"
  have doc: "domXML = (u @ w) @ ?t"
    using CutLast_SomeD [OF dev] uw(1) by simp
  have nm: "\<not> Contains (u @ w) tpmMark" "\<not> Contains ?t tpmMark"
    using fresh Contains_append1 [of ?t tpmMark "u @ w"] Contains_append2 [of "u @ w" tpmMark ?t]
    unfolding doc tpmMark_def by blast+
  have sp: "?t = [] \<or> \<not> reSpace (hd ?t)" using devices_not_space by blast
  let ?out = "u @ w @ tpmDevice @ ?t"
  have "\<not> fst (tpmInfoXML domXML)"
    unfolding tpmInfo_present_iff using tpmFind_no_mark [of domXML] fresh by (simp add: tpmMark_def)
  then have "setTPMXML domXML True = Inr ?out"
    using dev uw(1) by (simp add: setTPMXML_def Let_def)
  moreover have info: "tpmInfoXML ?out = (True, ''tpm-crb'', ''2.0'')"
    by (rule tpmInfo_device [OF nm(1) uw(2,3) sp])
  moreover have "setTPMXML ?out False = Inr (u @ ?t)"
    using info tpmRemoveAll_device [OF nm(1) uw(2,3) sp nm(2)] by (simp add: setTPMXML_def Let_def)
  ultimately show ?thesis using u by blast
qed

subsection \<open>A document\<close>

theorem tpm_add_remove_roundtrip_witness:
  "\<exists>out. setTPMXML ''<domain><devices> </devices></domain>'' True = Inr out
    \<and> tpmInfoXML out = (True, ''tpm-crb'', ''2.0'')
    \<and> setTPMXML out False = Inr ''<domain><devices></devices></domain>''"
proof -
  have "\<not> Contains ''<domain><devices> </devices></domain>'' ''<tpm''"
    "CutLast ''<domain><devices> </devices></domain>'' ''</devices>'' = Some (''<domain><devices> '', ''</domain>'')"
    "TrimRightFunc isBlank ''<domain><devices> '' = ''<domain><devices>''"
    by code_simp+
  with tpm_add_remove_roundtrip [OF this(1,2)] show ?thesis by simp
qed

end
