(* ===== verification/ConsoleProps.thy ===== *)
theory ConsoleProps
  imports HandlerFrames StoreProps VncXmlProofs TpmXmlProofs
begin

section \<open>Properties of the console and TPM handlers\<close>

text \<open>
  Which consoles the daemon keeps on the network, and what its status answers claim. \<open>vncEntryOk\<close> is
  what the guards of the POST handler are there for; the invariant follows it through every event.
\<close>

definition vncEntryOk :: "VncEntry \<Rightarrow> bool" where
  "vncEntryOk e \<longleftrightarrow>
     (veListen e = ''0.0.0.0'' \<longrightarrow> ValidPassword (vePassword e)) \<and>
     (vePassword e = [] \<or> ValidPassword (vePassword e)) \<and>
     \<not> badListen (veListen e) \<and> \<not> badPort (vePort e)"

definition vncStoreOk :: "VncEntry store \<Rightarrow> bool" where
  "vncStoreOk st \<longleftrightarrow> (\<forall>(k, e) \<in> set (sdata st). vncEntryOk e)"

lemma vncStoreOk_put:
  "vncStoreOk st \<Longrightarrow> vncEntryOk e \<Longrightarrow> vncStoreOk (fst (snd (vnc_Set ord env e st w)))"
  using set_gput [of "veVM e" e "sdata st"]
  by (auto simp: vncStoreOk_def vnc_Set_put store_simps)

lemma vncStoreOk_del: "vncStoreOk st \<Longrightarrow> vncStoreOk (fst (snd (vnc_Remove ord env vm st w)))"
  using set_gdel [of vm "sdata st"]
  by (auto simp: vncStoreOk_def vnc_Remove_del store_simps)

lemma pinnedPassword_ok: "vncStoreOk st \<Longrightarrow> pinnedPassword st vm = [] \<or> ValidPassword (pinnedPassword st vm)"
  by (auto simp: vncStoreOk_def pinnedPassword_def vnc_Get_def vncEntryOk_def split: option.split
      dest!: gget_SomeD)

abbreviation keepsVnc :: "('a, 'h) handler \<Rightarrow> bool" where
  "keepsVnc \<equiv> keepsH (\<lambda>s s'. vncStoreOk (svVNC s) \<longrightarrow> vncStoreOk (svVNC s'))"

lemma vncH_store: "svVNC (snd (vncH f s)) = fst (snd (f (svVNC s) (svWorld s)))"
  by (simp add: vncH_def split: prod.split)

lemma keepsVnc_set: "vncEntryOk e \<Longrightarrow> keepsVnc (vncH (vnc_Set ord env e))"
  by (simp add: keepsH_def vncH_store vncStoreOk_put)

lemma keepsVnc_remove: "keepsVnc (vncH (vnc_Remove ord env vm))"
  by (simp add: keepsH_def vncH_store vncStoreOk_del)

text \<open>A read of the server whose result the rest may use, with what the store is known to satisfy.\<close>

lemma keepsVnc_gets:
  "(\<And>s. vncStoreOk (svVNC s) \<Longrightarrow> keepsVnc (k (f s))) \<Longrightarrow> keepsVnc (bindH (getsH f) k)"
  by (simp add: keepsH_def)

lemma keepsVnc_localOnly:
  assumes "vrListen req = ''127.0.0.1''" "\<not> badPort (vrPort req)" "noDash vm"
  shows "keepsVnc (vncLocalOnly cx vm req)"
  unfolding vncLocalOnly_def
proof (intro keepsVnc_gets vnc_frame.S.keepsH_bind vnc_frame.keepsH_virshH vnc_frame.keeps_calls2 assms keepsVnc_set
    vnc_frame.S.keepsH_orFail vnc_frame.S.keepsH_ret)
  fix s :: "'a server"
  assume "vncStoreOk (svVNC s)"
  from pinnedPassword_ok [OF this, of vm] assms(1,2)
  show "vncEntryOk \<lparr>veVM = vm, vePassword = pinnedPassword (svVNC s) vm, veListen = vrListen req, vePort = vrPort req\<rparr>"
    by (simp add: vncEntryOk_def badListen_def)
qed

lemma keepsVnc_protect:
  assumes "\<not> badListen (vrListen req)" "\<not> badPort (vrPort req)" "noDash vm"
  shows "keepsVnc (vncProtect cx vm req)"
  unfolding vncProtect_def using assms
  by (auto intro!: vnc_frame.handler_intros keepsVnc_set simp: vncEntryOk_def)

lemma keepsVnc_domain: "keepsVnc (vncDomain cx rq)"
proof -
  have post: "keepsVnc (vncPost cx rq vm)" if "noDash vm" for vm
    unfolding vncPost_def using that
    by (intro vnc_frame.S.keepsH_bind vnc_frame.S.keepsH_orFail vnc_frame.S.keepsH_gets vnc_frame.S.keepsH_guard
        vnc_frame.S.keepsH_if keepsVnc_localOnly keepsVnc_protect) auto
  have status: "keepsVnc (vncStatus cx vm)" "keepsVnc (vncDelete cx vm)" if "noDash vm" for vm
    unfolding vncStatus_def vncDelete_def using that
    by (auto intro!: vnc_frame.handler_intros keepsVnc_remove)
  show ?thesis
    unfolding vncDomain_def Let_def
    by (auto intro!: vnc_frame.S.keepsH_intros post status dest!: validName_noDash)
qed

lemma vncStoreOk_request: "keepsVnc (rootHandler cfg cx rq)"
  by (intro vnc_frame.keepsH_rootHandler vnc_frame.keepsH_listVMs vnc_frame.keepsH_vmEntry_any vnc_frame.keepsH_autostartItem
      vnc_frame.keepsH_mountsCollection vnc_frame.keepsH_mountsItem vnc_frame.keepsH_scheduleItem
      vnc_frame.keepsH_backupItem vnc_frame.keepsH_usbDomain vnc_frame.keepsH_pciDomain
      vnc_frame.keepsH_tpmDomain keepsVnc_domain store_rules) auto

lemma vncStoreOk_step: "vncStoreOk (svVNC s) \<Longrightarrow> vncStoreOk (svVNC (step cfg sr ev s))"
  using vnc_frame.S.keepsH_run [OF vncStoreOk_request, where s = s]
  by (auto simp: step_def Let_def serve_def onWorldS_def runBackups_def split: event.split prod.split list.split)

text \<open>
  C5: no console is ever pinned to all interfaces without a password. In every state the daemon reaches
  from a store that satisfies it, through any requests, ticks and changes of the host, each VNC entry
  that listens on 0.0.0.0 has a valid password, each password is empty or valid, and each address and
  port is one the handler accepts.
\<close>

theorem vnc_pins_guarded:
  assumes "reachable cfg s0 s" "vncStoreOk (svVNC s0)"
  shows "vncStoreOk (svVNC s)"
  using assms by (induction) (auto intro: vncStoreOk_step)

definition exposeRequest :: request where
  "exposeRequest = demoRequest ''POST'' ''/api/vnc/win''
     (JObj [(''password'', JStr ''secret''), (''listen'', JStr ''0.0.0.0'')])"

text \<open>An exposed console; a request exposes it again with another password, then the reconciler runs.\<close>

definition exposedConsole :: VncEntry where
  "exposedConsole = \<lparr>veVM = ''win'', vePassword = ''geheim'', veListen = ''0.0.0.0'', vePort = 5901\<rparr>"

theorem vnc_pins_guarded_witness:
  "let s0 = demoServer\<lparr>svVNC := \<lparr>Path = ''/d/vnc.json'', sdata = [(''win'', exposedConsole)]\<rparr>\<rparr>
   in vncEntryOk exposedConsole \<and>
     vncStoreOk (svVNC (step demoCfg (demoSurroundings quietEnv) VncTick
       (step demoCfg (demoSurroundings quietEnv) (Request exposeRequest) s0)))"
proof -
  have ok: "vncEntryOk exposedConsole" by code_simp
  have "vncStoreOk (svVNC (step demoCfg (demoSurroundings quietEnv) VncTick
      (step demoCfg (demoSurroundings quietEnv) (Request exposeRequest)
        (demoServer\<lparr>svVNC := \<lparr>Path = ''/d/vnc.json'', sdata = [(''win'', exposedConsole)]\<rparr>\<rparr>))))"
    by (rule vnc_pins_guarded [OF reachable.more [OF reachable.more [OF reachable.init]]])
      (simp_all add: vncStoreOk_def demo_orders ok)
  with ok show ?thesis by (simp only: Let_def)
qed

end
