(* ===== verification/Dialogue.thy ===== *)
theory Dialogue
  imports VirshProofs
begin

section \<open>What was run, and what it answered\<close>

text \<open>
  A world records the programs that were run, with the files each could see. Their results are not recorded, but they
  follow: \<open>replay\<close> asks the host again from the state it was in. \<open>dialogueOf env w w'\<close> are the programs run between the
  two worlds, with their arguments and their results, so that a property can say that a command was run because
  of what an earlier one answered. (It is the truth where nothing but programs changes the state of the
  host in between; \<open>talks\<close> says that this was so.)
\<close>

type_synonym said = "string \<times> string list \<times> exec_result"

fun replay :: "'h env \<Rightarrow> cmd list \<Rightarrow> 'h \<Rightarrow> said list \<times> 'h" where
  "replay env [] h = ([], h)"
| "replay env (x # xs) h =
     (case exec env (cProg x) (cArgs x) (cSeen x) h of
        (r, h1) \<Rightarrow> (case replay env xs h1 of (ds, h2) \<Rightarrow> ((cProg x, cArgs x, r) # ds, h2)))"

definition dialogueOf :: "'h env \<Rightarrow> 'h world \<Rightarrow> 'h world \<Rightarrow> said list" where
  "dialogueOf env w w' = fst (replay env (drop (length (cmds w)) (cmds w')) (hyp w))"

definition talks :: "'h env \<Rightarrow> 'h world \<Rightarrow> 'h world \<Rightarrow> said list \<Rightarrow> bool" where
  "talks env w w' ds \<longleftrightarrow> (\<exists>xs. cmds w' = cmds w @ xs \<and> replay env xs (hyp w) = (ds, hyp w'))"

lemma talks_dialogue: "talks env w w' ds \<Longrightarrow> dialogueOf env w w' = ds"
  by (auto simp: talks_def dialogueOf_def)

lemma replay_append:
  "replay env (xs @ ys) h =
     (case replay env xs h of (d1, h1) \<Rightarrow> (case replay env ys h1 of (d2, h2) \<Rightarrow> (d1 @ d2, h2)))"
  by (induction xs arbitrary: h) (auto split: prod.split)

lemma talks_trans: "talks env a b d1 \<Longrightarrow> talks env b c d2 \<Longrightarrow> talks env a c (d1 @ d2)"
  unfolding talks_def by (auto simp: replay_append)

lemma talks_refl [simp]: "talks env w w []"
  by (simp add: talks_def)

lemma talks_quiet: "hyp w' = hyp w \<Longrightarrow> cmds w' = cmds w \<Longrightarrow> talks env w w' []"
  by (simp add: talks_def)

lemma talks_exec: "os_exec env p args w = (r, w') \<Longrightarrow> talks env w w' [(p, args, r)]"
  by (auto simp: talks_def os_exec_def split: prod.splits)

text \<open>A fold over the calls of a loop: one block of programs for each element.\<close>

lemma talks_fold:
  assumes "\<And>x w. \<exists>b. talks env w (f x w) b \<and> B x b"
  shows "\<exists>bs. talks env w (fold f xs w) (concat bs) \<and> list_all2 B xs bs"
proof (induction xs arbitrary: w)
  case (Cons x xs)
  obtain b where b: "talks env w (f x w) b" "B x b" using assms by blast
  obtain bs where "talks env (f x w) (fold f xs (f x w)) (concat bs)" "list_all2 B xs bs"
    using Cons.IH by blast
  with b talks_trans [OF b(1)] show ?case
    by (intro exI [of _ "b # bs"]) simp
qed (simp add: exI [of _ "[]"])

subsection \<open>The calls on virsh\<close>

text \<open>What a call makes of a result of \<open>virsh\<close>: \<open>f\<close> of what was printed, or an error.\<close>

definition readsAs :: "(string \<Rightarrow> 'a) \<Rightarrow> 'a res \<Rightarrow> exec_result \<Rightarrow> bool" where
  "readsAs f x r \<longleftrightarrow> (case r of ExecOK out \<Rightarrow> x = Inr (f out) | ExecFail _ _ _ \<Rightarrow> \<exists>e. x = Inl e)"

lemma talks_run: "Client_run env c args w = (x, w') \<Longrightarrow> \<exists>r. talks env w w' [(Bin c, args, r)] \<and> readsAs id x r"
proof -
  assume run: "Client_run env c args w = (x, w')"
  obtain r v where r: "os_exec env (Bin c) args w = (r, v)" by fastforce
  with run have "v = w'" "readsAs id x r"
    by (auto simp: Client_run_def readsAs_def split: exec_result.splits)
  with talks_exec [OF r] show ?thesis by blast
qed

lemma talks_bind:
  assumes "bindAct (Client_run env c args) (\<lambda>out. retAct (f out)) w = (x, w')"
  shows "\<exists>r. talks env w w' [(Bin c, args, r)] \<and> readsAs f x r"
proof -
  obtain y v where y: "Client_run env c args w = (y, v)" by fastforce
  from talks_run [OF y] obtain r where r: "talks env w v [(Bin c, args, r)]" "readsAs id y r" by blast
  from assms y have "v = w'" "(case y of Inl e \<Rightarrow> x = Inl e | Inr out \<Rightarrow> x = Inr (f out))"
    by (auto simp: bindAct_def retAct_def split: sum.splits)
  with r show ?thesis by (auto simp: readsAs_def split: exec_result.splits)
qed

lemma talks_State: "virsh_State env c d w = (x, w') \<Longrightarrow> \<exists>r. talks env w w' [(Bin c, [''domstate'', d], r)] \<and> readsAs TrimSpace x r"
  unfolding virsh_State_def by (rule talks_bind)

lemma talks_runCmd: "runCmd env c args w = (x, w') \<Longrightarrow> \<exists>r. talks env w w' [(Bin c, args, r)] \<and> readsAs (\<lambda>_. ()) x r"
  unfolding runCmd_def by (rule talks_bind)

lemma talks_Start: "virsh_Start env c d w = (x, w') \<Longrightarrow> \<exists>r. talks env w w' [(Bin c, [''start'', d], r)] \<and> readsAs (\<lambda>_. ()) x r"
  unfolding virsh_Start_def by (rule talks_runCmd)

lemma talks_DomainDisks:
  "virsh_DomainDisks env c d w = (x, w') \<Longrightarrow>
   \<exists>r. talks env w w' [(Bin c, [''domblklist'', ''--details'', d], r)] \<and> readsAs parseDisks x r"
  unfolding virsh_DomainDisks_def by (rule talks_bind)

text \<open>The answer to a question for the state of a domain, by what it says.\<close>

definition saysState :: "(string \<Rightarrow> bool) \<Rightarrow> exec_result \<Rightarrow> bool" where
  "saysState P r \<longleftrightarrow> (case r of ExecOK out \<Rightarrow> P (TrimSpace out) | ExecFail _ _ _ \<Rightarrow> False)"

lemma readsAs_state: "readsAs TrimSpace x r \<Longrightarrow> saysState P r \<longleftrightarrow> (case x of Inl _ \<Rightarrow> False | Inr s \<Rightarrow> P s)"
  by (cases r) (auto simp: readsAs_def saysState_def)

subsection \<open>Calls whose commands are all of one kind\<close>

definition talksOnly :: "'h env \<Rightarrow> Client \<Rightarrow> (string list \<Rightarrow> bool) \<Rightarrow> 'h world \<Rightarrow> 'h world \<Rightarrow> bool" where
  "talksOnly env c P w w' \<longleftrightarrow> (\<exists>ds. talks env w w' ds \<and> list_all (\<lambda>(p, a, _). p = Bin c \<and> P a) ds)"

lemma talksOnly_refl: "talksOnly env c P w w"
  by (auto simp: talksOnly_def intro!: exI [of _ "[]"])

lemma talksOnly_trans: "talksOnly env c P a b \<Longrightarrow> talksOnly env c P b d \<Longrightarrow> talksOnly env c P a d"
  unfolding talksOnly_def by (fastforce intro: talks_trans)

lemma talksOnly_run: "P args \<Longrightarrow> keeps (talksOnly env c P) (Client_run env c args)"
  unfolding keeps_def
proof
  fix w
  assume "P args"
  obtain x w' where x: "Client_run env c args w = (x, w')" by fastforce
  from talks_run [OF x] obtain r where "talks env w w' [(Bin c, args, r)]" by blast
  with \<open>P args\<close> have "talksOnly env c P w w'"
    unfolding talksOnly_def by (intro exI [of _ "[(Bin c, args, r)]"]) simp
  with x show "talksOnly env c P w (snd (Client_run env c args w))" by simp
qed

interpretation talk_frame: virsh_frame "talksOnly env c P" env c P for env c P
proof unfold_locales
  show "keeps (talksOnly env c P) (withTempXML env content k)"
    if "\<And>tmp. isTmp tmp \<Longrightarrow> keeps (talksOnly env c P) (k tmp)"
    for content and k :: "string \<Rightarrow> (unit, 'a world) act"
  proof (rule withTempXML_rule [OF talksOnly_refl talksOnly_trans _ that])
    show "talksOnly env c P w w'" if "hyp w' = hyp w" "cmds w' = cmds w" for w w' :: "'a world"
      using talks_quiet [OF that] by (auto simp: talksOnly_def intro!: exI [of _ "[]"])
  qed
qed (auto intro: talksOnly_refl talksOnly_trans talksOnly_run)

end
