(* ===== verification/ScheduleProps.thy ===== *)
theory ScheduleProps
  imports HandlerFrames StoreProps Dialogue
begin

section \<open>Properties of the snapshot scheduler\<close>

text \<open>
  Which snapshots a tick takes and which it deletes.
\<close>

lemma cmds_DeleteSnapshot:
  "\<exists>x. cArgs x = [''snapshot-delete'', d, n] \<and> cProg x = Bin c \<and>
     cmds (snd (virsh_DeleteSnapshot env c d n False w)) = cmds w @ [x]"
  using cmds_runCmd [of "[''snapshot-delete'', d, n]" c env w] by (simp add: virsh_DeleteSnapshot_def)

lemma ran_deletes:
  "\<exists>xs. cmds (fold (\<lambda>n w. snd (virsh_DeleteSnapshot env c d n False w)) ns w) = cmds w @ xs \<and>
     map cArgs xs = map (\<lambda>n. [''snapshot-delete'', d, n]) ns"
proof (induction ns arbitrary: w)
  case (Cons n ns)
  obtain x where x: "cArgs x = [''snapshot-delete'', d, n]"
    "cmds (snd (virsh_DeleteSnapshot env c d n False w)) = cmds w @ [x]"
    using cmds_DeleteSnapshot [of d n c env w] by blast
  with Cons.IH [of "snd (virsh_DeleteSnapshot env c d n False w)"] show ?case by force
qed simp

text \<open>
  C12: pruning deletes exactly the surplus of the snapshots whose names start with \<open>auto-\<close>, those with the
  smallest names: when libvirt lists the snapshots of a domain, the only programs run after that are the deletions of some names; those
  and the names kept are together the listed names with that prefix, the names kept are as
  many as \<open>Keep\<close> allows, and no name kept comes before a deleted one in the order of the names, which for the
  names of the scheduler (the prefix and a time stamp of fixed width) is the order of time. A snapshot
  whose name does not start with the prefix is never deleted; one that a user named that way counts as automatic.
\<close>

theorem prune_keeps_newest:
  assumes keep: "0 < seKeep e"
    and listed: "virsh_ListSnapshots env c (seVM e) w = (Inr snaps, w1)"
  shows "\<exists>gone kept. ranSince w1 (sched_prune (sched_controller env c) e w)
        = map (\<lambda>n. [''snapshot-delete'', seVM e, n]) gone
    \<and> mset gone + mset kept = mset (filter (\<lambda>n. HasPrefix n AutoPrefix) (map snName snaps))
    \<and> length kept = min (nat (seKeep e)) (length (autoNames snaps))
    \<and> (\<forall>g\<in>set gone. \<forall>k\<in>set kept. g \<le> k)"
proof (intro exI conjI ballI)
  let ?a = "sort (autoNames snaps)" and ?n = "length (autoNames snaps) - nat (seKeep e)"
  let ?gone = "pruneVictims (seKeep e) snaps" and ?kept = "drop ?n ?a"
  have pos: "0 \<le> seKeep e" using keep by simp
  have "sched_prune (sched_controller env c) e w =
      fold (\<lambda>n w. snd (virsh_DeleteSnapshot env c (seVM e) n False w)) ?gone w1"
    using keep listed by (simp add: sched_prune_def sched_controller_def)
  with ran_deletes [of env c "seVM e" ?gone w1]
  show "ranSince w1 (sched_prune (sched_controller env c) e w)
      = map (\<lambda>n. [''snapshot-delete'', seVM e, n]) ?gone"
    by (auto simp: ranSince_def)
  show "mset ?gone + mset ?kept = mset (filter (\<lambda>n. HasPrefix n AutoPrefix) (map snName snaps))"
    using mset_pruneVictims [OF pos, of snaps] by (simp add: autoNames_def)
  show "length ?kept = min (nat (seKeep e)) (length (autoNames snaps))" by simp
  fix g k
  assume "g \<in> set ?gone" "k \<in> set ?kept"
  moreover have "?gone = take ?n ?a" using pos by (auto simp: pruneVictims_def Let_def)
  ultimately show "g \<le> k" using sorted_take_le_drop [OF sorted_sort] by metis
qed

definition pruneScript :: "string list \<Rightarrow> string" where
  "pruneScript args =
     (if args = [''snapshot-list'', ''win'', ''--parent''] then
        '' Name  Creation Time  State  Parent'' @ [nl] @ ''------'' @ [nl] @
        '' auto-2  2026-01-02  shutoff'' @ [nl] @ '' mine  2026-01-02  shutoff'' @ [nl] @
        '' auto-1  2026-01-01  shutoff'' @ [nl]
      else [])"

theorem prune_keeps_newest_witness:
  "\<exists>w1 gone kept. ranSince w1 (sched_prune (sched_controller (scriptEnv pruneScript) (virsh_New []))
       (demoSched\<lparr>seKeep := 1\<rparr>) emptyWorld) = map (\<lambda>n. [''snapshot-delete'', ''win'', n]) gone
     \<and> mset gone + mset kept = {#''auto-1'', ''auto-2''#} \<and> length kept = 1"
proof -
  let ?l = "virsh_ListSnapshots (scriptEnv pruneScript) (virsh_New []) ''win'' emptyWorld"
  have "map snName (case fst ?l of Inl _ \<Rightarrow> [] | Inr s \<Rightarrow> s) = [''auto-2'', ''mine'', ''auto-1'']" by code_simp
  then obtain snaps where snaps: "?l = (Inr snaps, snd ?l)" "map snName snaps = [''auto-2'', ''mine'', ''auto-1'']"
    by (cases "fst ?l") (auto simp: prod_eq_iff)
  from snaps(2) have autos: "autoNames snaps = [''auto-2'', ''auto-1'']"
    by (simp add: autoNames_def AutoPrefix_def)
  let ?e = "demoSched\<lparr>seKeep := 1\<rparr>"
  have e: "seVM ?e = ''win''" "0 < seKeep ?e" "seKeep ?e = 1" by (simp_all add: demoSched_def)
  from prune_keeps_newest [OF e(2), of "scriptEnv pruneScript" "virsh_New []" emptyWorld snaps "snd ?l"] snaps(1)
  obtain gone kept where r: "ranSince (snd ?l) (sched_prune (sched_controller (scriptEnv pruneScript) (virsh_New []))
      ?e emptyWorld) = map (\<lambda>n. [''snapshot-delete'', ''win'', n]) gone"
    "mset gone + mset kept = mset (autoNames snaps)" "length kept = min (nat 1) (length (autoNames snaps))"
    unfolding e autoNames_def by auto
  from r(2,3) have "mset gone + mset kept = {#''auto-1'', ''auto-2''#}" "length kept = 1"
    unfolding autos by simp_all
  with r(1) show ?thesis by blast
qed

subsection \<open>A tick\<close>

lemma int64_id: "minInt64 \<le> i \<Longrightarrow> i \<le> maxInt64 \<Longrightarrow> int64 i = i"
  unfolding int64_def minInt64_def maxInt64_def by (rule signed_take_bit_int_eq_self) simp_all

text \<open>An interval of more than 2562047 hours does not fit a duration: it wraps, and is due at each tick.\<close>

lemma interval_overflow:
  assumes "seEnabled e" "seIntervalHours e = 2562048" "seLastRunUnix e * second \<le> now"
  shows "isDue now e"
proof -
  have "int64 (2562048 * hour) < 0" by code_simp
  with assms show ?thesis by (auto simp: isDue_def time_Sub_def maxInt64_def)
qed

text \<open>A list of calls each of which keeps the daemon's files.\<close>

lemma sched_calls_sameFiles:
  "keeps sameFiles (virsh_State env c d)" "keeps sameFiles (virsh_ListSnapshots env c d)"
  "keeps sameFiles (virsh_CreateSnapshot env c d n x b dir)" "keeps sameFiles (virsh_DeleteSnapshot env c d n b)"
  by (simp_all add: files_frame.keeps_State files_frame.keeps_ListSnapshots files_frame.keeps_CreateSnapshot
      files_frame.keeps_DeleteSnapshot)

lemma sched_prune_sameFiles: "sameFiles w (sched_prune (sched_controller env c) e w)"
proof -
  have "sameFiles w (fold (\<lambda>n w. snd (virsh_DeleteSnapshot env c (seVM e) n False w)) ns w)" for ns w
    by (rule files_frame.keeps_fold) (rule keepsD [OF sched_calls_sameFiles(4)])
  then show ?thesis
    by (auto simp: sched_prune_def sched_controller_def split: prod.split sum.split
        dest: keepsE [OF sched_calls_sameFiles(2)] intro: sameFiles_trans)
qed

lemma sched_snapshot_sameFiles: "sameFiles w (sched_snapshot fmt env (sched_controller env c) root now e w)"
  unfolding sched_snapshot_def sched_controller_def Let_def
  by (auto split: prod.split sum.split dest!: keepsE [OF sched_calls_sameFiles(1)]
      keepsE [OF sched_calls_sameFiles(3)] intro: sameFiles_trans
      sched_prune_sameFiles [unfolded sched_controller_def])

lemma interval_ns: "1 \<le> h \<Longrightarrow> h \<le> 2562047 \<Longrightarrow> int64 (h * hour) = h * hour"
  by (rule int64_id) (simp_all add: hour_def second_def minInt64_def maxInt64_def)

lemma isDue_marked:
  assumes "isDue now e0" "second \<le> now" "now \<le> now'" "seIntervalHours e0 \<le> 2562047"
  shows "isDue now' (markRun now e0) \<longleftrightarrow> seIntervalHours e0 * hour \<le> now' - now div second * second"
proof -
  let ?h = "seIntervalHours e0"
  have h: "1 \<le> ?h" "seEnabled e0" using assms(1) by (simp_all add: isDue_def)
  have "?h * hour \<le> maxInt64"
    using assms(4) by (simp add: hour_def second_def maxInt64_def)
  moreover have "now div second * second \<le> now" "now div second \<noteq> 0"
    using assms(2) by (simp_all add: second_def)
  ultimately show ?thesis
    using assms(1,3) h interval_ns [OF h(1) assms(4)]
    by (auto simp: markRun_def isDue_def time_Sub_def minInt64_def)
qed

lemma gget_map_values: "gget k (map (\<lambda>(k, e). (k, f e)) m) = map_option f (gget k m)"
  by (simp add: gget_def map_of_map)

text \<open>The store after a tick, as the file the tick saved holds it.\<close>

lemma sched_tick_saved:
  assumes wf: "sched_json.wfStore s" and ord: "is_order ord" and now: "0 \<le> now" "now \<le> maxInt64"
    and tick: "sched_tick fmt ord env (sched_controller env c) root now s w = (s1, w1)"
    and due: "sched_due ord now s \<noteq> []" "\<And>fs. \<not> osFault env OpRead (Path s) fs" "\<not> isTmp (Path s)"
    and saved: "is_ok (fst (sched_saveLocked ord env s1 w))"
  shows "\<exists>s2. sched_NewStore env w1 (Path s) = Inr s2 \<and> (\<forall>vm. gget vm (sdata s2) = gget vm (sdata s1))"
proof -
  let ?w0 = "snd (sched_saveLocked ord env s1 w)"
  have s1: "s1 = s\<lparr>sdata := map (\<lambda>(k, e). (k, markRun now e)) (sdata s)\<rparr>"
    and w1: "w1 = fold (sched_snapshot fmt env (sched_controller env c) root now) (sched_due ord now s) ?w0"
    using tick due(1) by (auto simp: sched_tick_def Let_def)
  have sec: "minInt64 \<le> now div second" "now div second \<le> maxInt64"
    using now by (simp_all add: second_def minInt64_def maxInt64_def)
  have wf1: "sched_json.wfStore s1"
    using wf sec unfolding s1
    by (auto simp: sched_json.wfStore_def keyed_def gmap_ok_def markRun_def sched_wf_def is_int64_def comp_def
        case_prod_beta)
  have ok: "storeSave sched_enc ord env s1 w = (Inr (), ?w0)"
    using saved by (auto simp: is_ok_iff prod_eq_iff sched_saveLocked_def)
  from sched_json.open_after_save [OF wf1 ord ok, where msg = "''schedule store decode: %w''"] due(2) s1
  obtain s2 where s2: "storeOpen sched_dec seVM ''schedule store decode: %w'' env ?w0 (Path s) = Inr s2"
    "\<forall>vm. gget vm (sdata s2) = gget vm (sdata s1)" by auto
  have "sameFiles ?w0 w1"
    unfolding w1 by (rule files_frame.keeps_fold) (rule sched_snapshot_sameFiles)
  then have "os_ReadFile env (Path s) w1 = os_ReadFile env (Path s) ?w0"
    using due(2,3) by (simp add: os_ReadFile_def sameFiles_def split: option.split)
  then have "sched_NewStore env w1 (Path s) = Inr s2"
    using s2(1) by (simp add: sched_NewStore_def sched_load_def storeOpen_def storeLoad_def)
  with s2(2) show ?thesis by blast
qed

subsection \<open>What a tick says to virsh\<close>

definition takenArgs :: "string \<Rightarrow> string \<Rightarrow> string list" where
  "takenArgs stamp vm = [''snapshot-create-as'', vm, AutoPrefix @ stamp, ''--description'', ''scheduled snapshot'']"

definition pruneArgs :: "string \<Rightarrow> string list \<Rightarrow> bool" where
  "pruneArgs vm a \<longleftrightarrow>
     (\<exists>verb rest. a = verb # vm # rest \<and> verb \<in> {''snapshot-list'', ''snapshot-current'', ''snapshot-delete''})"

text \<open>After a snapshot was taken there is only pruning; after a failure there is nothing.\<close>

definition thenPrunes :: "Client \<Rightarrow> string \<Rightarrow> exec_result \<Rightarrow> said list \<Rightarrow> bool" where
  "thenPrunes c vm q tail \<longleftrightarrow>
     (case q of ExecFail _ _ _ \<Rightarrow> tail = [] | ExecOK _ \<Rightarrow> list_all (\<lambda>(p, a, _). p = Bin c \<and> pruneArgs vm a) tail)"

text \<open>
  What is said after a domain was found running or paused: nothing, if the directory for the overlays cannot
  be made; else its disks and its state are asked for, and the snapshot is taken with a file for each disk.
\<close>

definition liveBlock :: "'h env \<Rightarrow> Client \<Rightarrow> string \<Rightarrow> string \<Rightarrow> string \<Rightarrow> said list \<Rightarrow> bool" where
  "liveBlock env c stamp dir vm b \<longleftrightarrow>
     b = [] \<and> (dir = [] \<or> (\<exists>fs. osFault env OpMkdir dir fs)) \<or>
     (\<exists>q more. b = (Bin c, [''domblklist'', ''--details'', vm], q) # more \<and>
        (case q of
           ExecFail _ _ _ \<Rightarrow> more = []
         | ExecOK out \<Rightarrow>
             \<exists>r2 q2 tail. more = (Bin c, [''domstate'', vm], r2) #
                 (Bin c, takenArgs stamp vm @ diskSpecs dir (fileStem (AutoPrefix @ stamp)) 0 (parseDisks out)
                    @ memSpec dir (fileStem (AutoPrefix @ stamp))
                        (if saysState (\<lambda>st. st \<in> {''running'', ''paused''}) r2 then Inr ''running'' else Inr [])
                    @ [''--atomic''], q2) # tail \<and> thenPrunes c vm q2 tail))"

text \<open>What is said for one due entry: its state is asked for, and if there is an answer a snapshot is taken.\<close>

definition snapBlock :: "'h env \<Rightarrow> Client \<Rightarrow> string \<Rightarrow> string \<Rightarrow> string \<Rightarrow> said list \<Rightarrow> bool" where
  "snapBlock env c stamp root vm b \<longleftrightarrow>
     (\<exists>r rest. b = (Bin c, [''domstate'', vm], r) # rest \<and>
        (case r of
           ExecFail _ _ _ \<Rightarrow> rest = []
         | ExecOK out \<Rightarrow>
             if TrimSpace out \<in> {''running'', ''paused''} then liveBlock env c stamp (JoinPath [root, vm]) vm rest
             else \<exists>q tail. rest = (Bin c, takenArgs stamp vm, q) # tail \<and> thenPrunes c vm q tail))"

lemma pruneArgs_simps [simp]:
  "pruneArgs vm (''snapshot-list'' # vm # x)" "pruneArgs vm (''snapshot-current'' # vm # x)"
  "pruneArgs vm (''snapshot-delete'' # vm # x)"
  by (simp_all add: pruneArgs_def)

lemma prune_talks: "talksOnly env c (pruneArgs (seVM e)) w (sched_prune (sched_controller env c) e w)"
proof -
  have del: "talksOnly env c (pruneArgs (seVM e)) w (fold (\<lambda>n w. snd (virsh_DeleteSnapshot env c (seVM e) n False w)) ns w)" for ns w
    by (rule talk_frame.keeps_fold) (rule keepsD [OF talk_frame.keeps_DeleteSnapshot]; simp)
  obtain x w1 where x: "virsh_ListSnapshots env c (seVM e) w = (x, w1)" by fastforce
  have "talksOnly env c (pruneArgs (seVM e)) w w1"
    by (rule keepsE [OF talk_frame.keeps_ListSnapshots x]) simp_all
  with del [of w1] x show ?thesis
    by (auto simp: sched_prune_def sched_controller_def talksOnly_refl intro: talksOnly_trans split: sum.split)
qed

text \<open>A call that takes the snapshot, and the pruning after it.\<close>

lemma taken_talks:
  assumes "runCmd env c args w = (x, w1)"
  shows "\<exists>q tail. talks env w (case x of Inl _ \<Rightarrow> w1 | Inr _ \<Rightarrow> sched_prune (sched_controller env c) e w1)
    ((Bin c, args, q) # tail) \<and> thenPrunes c (seVM e) q tail"
proof -
  from talks_runCmd [OF assms] obtain q where q: "talks env w w1 [(Bin c, args, q)]" "readsAs (\<lambda>_. ()) x q" by blast
  show ?thesis
  proof (cases q)
    case (ExecOK out)
    then have x: "x = Inr ()" using q(2) by (simp add: readsAs_def)
    obtain ds where ds: "talks env w1 (sched_prune (sched_controller env c) e w1) ds"
      "list_all (\<lambda>(p, a, _). p = Bin c \<and> pruneArgs (seVM e) a) ds"
      using prune_talks unfolding talksOnly_def by blast
    from talks_trans [OF q(1) ds(1)] ds(2) ExecOK x show ?thesis
      by (intro exI [of _ q] exI [of _ ds]) (simp add: thenPrunes_def)
  next
    case (ExecFail a b d)
    then obtain err where "x = Inl err" using q(2) by (auto simp: readsAs_def)
    with q(1) ExecFail show ?thesis by (intro exI [of _ q] exI [of _ "[]"]) (simp add: thenPrunes_def)
  qed
qed

lemma memSpec_running:
  "memSpec dir stem x = memSpec dir stem (if (case x of Inl _ \<Rightarrow> False | Inr s \<Rightarrow> s \<in> {''running'', ''paused''})
     then Inr ''running'' else Inr [])"
  by (cases x) (simp_all add: memSpec_def)

lemma live_talks:
  assumes "dir \<noteq> []"
    and create: "virsh_CreateSnapshot env c (seVM e) (AutoPrefix @ stamp) ''scheduled snapshot'' True dir w = (x, w1)"
  shows "\<exists>b. talks env w (case x of Inl _ \<Rightarrow> w1 | Inr _ \<Rightarrow> sched_prune (sched_controller env c) e w1) b \<and>
    liveBlock env c stamp dir (seVM e) b"
proof -
  let ?vm = "seVM e" and ?stem = "fileStem (AutoPrefix @ stamp)"
  obtain d v where d: "virsh_DomainDisks env c ?vm w = (d, v)" by fastforce
  from talks_DomainDisks [OF d] obtain q where
    q: "talks env w v [(Bin c, [''domblklist'', ''--details'', ?vm], q)]" "readsAs parseDisks d q" by blast
  show ?thesis
  proof (cases q)
    case (ExecFail a b f)
    then obtain err where "d = Inl err" using q(2) by (auto simp: readsAs_def)
    with create assms(1) d have "x = Inl err" "w1 = v" by (simp_all add: virsh_CreateSnapshot_def bindAct_def)
    with q(1) ExecFail show ?thesis
      by (intro exI [of _ "[(Bin c, [''domblklist'', ''--details'', ?vm], q)]"]) (simp add: liveBlock_def)
  next
    case (ExecOK out)
    then have ds: "d = Inr (parseDisks out)" using q(2) by (simp add: readsAs_def)
    obtain st v2 where st: "virsh_State env c ?vm v = (st, v2)" by fastforce
    from talks_State [OF st] obtain r where
      r: "talks env v v2 [(Bin c, [''domstate'', ?vm], r)]" "readsAs TrimSpace st r" by blast
    let ?args = "takenArgs stamp ?vm @ diskSpecs dir ?stem 0 (parseDisks out)
       @ memSpec dir ?stem (if saysState (\<lambda>st. st \<in> {''running'', ''paused''}) r then Inr ''running'' else Inr []) @ [''--atomic'']"
    have mem: "memSpec dir ?stem (if saysState (\<lambda>st. st \<in> {''running'', ''paused''}) r then Inr ''running'' else Inr []) =
        memSpec dir ?stem st"
      unfolding readsAs_state [OF r(2)] by (rule memSpec_running [symmetric])
    have "runCmd env c ?args v2 = (x, w1)"
      unfolding mem using create assms(1) d ds st
      by (simp add: virsh_CreateSnapshot_def bindAct_def tryAct_def takenArgs_def)
    from taken_talks [OF this, of e] obtain q2 tail where
      t: "talks env v2 (case x of Inl _ \<Rightarrow> w1 | Inr _ \<Rightarrow> sched_prune (sched_controller env c) e w1) ((Bin c, ?args, q2) # tail)"
        "thenPrunes c ?vm q2 tail" by blast
    from talks_trans [OF q(1) talks_trans [OF r(1) t(1)]] t(2) ExecOK show ?thesis
      by (intro exI conjI) (assumption, auto simp: liveBlock_def)
  qed
qed

lemma controller_sel:
  "scState (sched_controller env c) = virsh_State env c"
  "scCreateSnapshot (sched_controller env c) = virsh_CreateSnapshot env c"
  by (simp_all add: sched_controller_def)

lemma snapshot_talks:
  "\<exists>b. talks env w (sched_snapshot fmt env (sched_controller env c) root now e w) b \<and> snapBlock env c (fmt now) root (seVM e) b"
proof -
  let ?vm = "seVM e" and ?dir = "JoinPath [root, seVM e]" and ?name = "AutoPrefix @ fmt now"
  obtain x v where x: "virsh_State env c ?vm w = (x, v)" by fastforce
  from talks_State [OF x] obtain r where
    r: "talks env w v [(Bin c, [''domstate'', ?vm], r)]" "readsAs TrimSpace x r" by blast
  let ?out = "sched_snapshot fmt env (sched_controller env c) root now e w"
  have block: "?thesis" if "talks env v ?out rest" "snapBlock env c (fmt now) root ?vm ((Bin c, [''domstate'', ?vm], r) # rest)" for rest
    using talks_trans [OF r(1) that(1)] that(2) by auto
  show ?thesis
  proof (cases r)
    case (ExecFail a b d)
    then obtain err where "x = Inl err" using r(2) by (auto simp: readsAs_def)
    with x have "?out = v" by (simp add: sched_snapshot_def sched_controller_def)
    then show ?thesis using ExecFail by (intro block [of "[]"]) (simp_all add: snapBlock_def)
  next
    case (ExecOK out)
    then have st: "x = Inr (TrimSpace out)" using r(2) by (simp add: readsAs_def)
    show ?thesis
    proof (cases "TrimSpace out \<in> {''running'', ''paused''}")
      case True
      obtain y w1 where y: "virsh_CreateSnapshot env c ?vm ?name ''scheduled snapshot'' True ?dir v = (y, w1)" by fastforce
      have out: "?out = (if \<not> is_ok (os_MkdirAll env ?dir v) then v
          else case y of Inl _ \<Rightarrow> w1 | Inr _ \<Rightarrow> sched_prune (sched_controller env c) e w1)"
        using x st y True by (auto simp: sched_snapshot_def controller_sel Let_def)
      have live: "snapBlock env c (fmt now) root ?vm ((Bin c, [''domstate'', ?vm], r) # rest) \<longleftrightarrow>
          liveBlock env c (fmt now) ?dir ?vm rest" for rest
        using ExecOK True by (simp add: snapBlock_def)
      consider "\<not> is_ok (os_MkdirAll env ?dir v)" | "is_ok (os_MkdirAll env ?dir v)" "?dir = []"
        | "is_ok (os_MkdirAll env ?dir v)" "?dir \<noteq> []" by blast
      then show ?thesis
      proof cases
        case 1
        then have "osFault env OpMkdir ?dir (files v)" by (simp add: os_MkdirAll_def split: if_splits)
        with out 1 show ?thesis by (intro block [of "[]"]) (auto simp: live liveBlock_def)
      next
        case 2
        with y have "\<exists>err. y = Inl err" "w1 = v" by (auto simp: virsh_CreateSnapshot_def failAct_def)
        with out 2 show ?thesis by (intro block [of "[]"]) (auto simp: live liveBlock_def)
      next
        case 3
        from live_talks [OF 3(2) y] obtain b where b:
          "talks env v (case y of Inl _ \<Rightarrow> w1 | Inr _ \<Rightarrow> sched_prune (sched_controller env c) e w1) b"
          "liveBlock env c (fmt now) ?dir ?vm b" by blast
        with out 3(1) show ?thesis by (intro block [of b]) (simp_all add: live)
      qed
    next
      case False
      obtain y w1 where y: "runCmd env c (takenArgs (fmt now) ?vm) v = (y, w1)" by fastforce
      have "?out = (case y of Inl _ \<Rightarrow> w1 | Inr _ \<Rightarrow> sched_prune (sched_controller env c) e w1)"
        using x st y False
        by (auto simp: sched_snapshot_def controller_sel virsh_CreateSnapshot_def takenArgs_def Let_def)
      with taken_talks [OF y, of e] obtain q tail where "talks env v ?out ((Bin c, takenArgs (fmt now) ?vm, q) # tail)"
        "thenPrunes c ?vm q tail" by auto
      then show ?thesis using ExecOK False by (intro block) (auto simp: snapBlock_def)
    qed
  qed
qed

lemma seVM_markRun [simp]: "seVM (markRun now e) = seVM e"
  by (simp add: markRun_def)

lemma tick_talks:
  "\<exists>bs. talks env w (snd (sched_tick fmt ord env (sched_controller env c) root now s w)) (concat bs) \<and>
     list_all2 (snapBlock env c (fmt now) root) (map seVM (filter (isDue now) (map snd (ord (sdata s))))) bs"
proof -
  let ?s = "s\<lparr>sdata := map (\<lambda>(k, e). (k, markRun now e)) (sdata s)\<rparr>" and ?due = "sched_due ord now s"
  let ?w0 = "if ?due \<noteq> [] then snd (sched_saveLocked ord env ?s w) else w"
  have "talks env w ?w0 []"
    by (auto simp: sched_saveLocked_def storeSave_def frame_simps intro: talks_quiet)
  moreover obtain bs where bs: "talks env ?w0 (fold (sched_snapshot fmt env (sched_controller env c) root now) ?due ?w0) (concat bs)"
    "list_all2 (\<lambda>e. snapBlock env c (fmt now) root (seVM e)) ?due bs"
    using talks_fold [where f = "sched_snapshot fmt env (sched_controller env c) root now"
        and B = "\<lambda>e. snapBlock env c (fmt now) root (seVM e)" and env = env, OF snapshot_talks] by blast
  ultimately have "talks env w (snd (sched_tick fmt ord env (sched_controller env c) root now s w)) (concat bs)"
    using talks_trans by (fastforce simp: sched_tick_def Let_def)
  moreover have "list_all2 (snapBlock env c (fmt now) root) (map seVM ?due) bs"
    using bs(2) by (simp add: list_all2_map1)
  moreover have "map seVM ?due = map seVM (filter (isDue now) (map snd (ord (sdata s))))"
    by (simp add: sched_due_def comp_def)
  ultimately show ?thesis by metis
qed

lemma due_names:
  assumes "sched_json.wfStore s" "is_order ord"
  shows "distinct (map seVM (filter (isDue now) (map snd (ord (sdata s))))) \<and>
    set (map seVM (filter (isDue now) (map snd (ord (sdata s))))) = {vm. \<exists>e. gget vm (sdata s) = Some e \<and> isDue now e}"
proof -
  have keys: "keyed seVM (ord (sdata s))"
    using assms by (simp add: sched_json.wfStore_def)
  have "distinct (map seVM (map snd (ord (sdata s))))"
    unfolding keyed_map_fst [OF keys, symmetric] using keys by (simp add: keyed_def gmap_ok_def)
  then have "distinct (map seVM (filter (isDue now) (map snd (ord (sdata s)))))"
    by (rule distinct_map_filter)
  moreover have "gget vm (sdata s) = Some e \<longleftrightarrow> e \<in> snd ` set (sdata s) \<and> seVM e = vm" for vm e
    using assms(1) by (force simp: sched_json.wfStore_def keyed_def gmap_ok_def gget_def)
  ultimately show ?thesis using assms(2) by auto
qed



end
