(* ===== verification/RequestProps.thy ===== *)
theory RequestProps
  imports HandlerFrames StoreProps
begin

section \<open>Requests that only read\<close>

text \<open>
  The cross-origin check of the root handler looks at the three methods that change state. The
  theorem of this theory is what makes that enough: a request with any other method leaves every store,
  every file and every domain as it is, whatever handler it reaches. The programs it may start are the
  two host listings and \<open>virsh\<close> with one of \<open>readVerbs\<close>. There is one exception, which the relations carry as a
  parameter: the metrics of a domain \<open>d\<close> (parameter \<open>Some d\<close>) may ask the balloon driver of \<open>d\<close> for its
  statistics, a change of the live domain, and note when that was done.
\<close>

definition readVerbs :: "string list" where
  "readVerbs = [''list'', ''dominfo'', ''domstate'', ''dumpxml'', ''snapshot-list'', ''snapshot-current'',
     ''domstats'', ''domblklist'', ''net-list'']"

definition readArgs :: "string option \<Rightarrow> string list \<Rightarrow> bool" where
  "readArgs arm args \<longleftrightarrow>
     hd args \<in> set readVerbs \<or>
     (case arm of None \<Rightarrow> False | Some vm \<Rightarrow> args = [''dommemstat'', vm, ''--period'', Itoa memStatsPeriodSec, ''--live''])"

definition readCmd :: "string option \<Rightarrow> Client \<Rightarrow> cmd \<Rightarrow> bool" where
  "readCmd arm c x \<longleftrightarrow> (cProg x = Bin c \<and> readArgs arm (cArgs x)) \<or> cProg x \<in> {''/usr/bin/lsusb'', ''/usr/bin/lspci''}"

definition readOnly :: "string option \<Rightarrow> Client \<Rightarrow> 'h world \<Rightarrow> 'h world \<Rightarrow> bool" where
  "readOnly arm c w w' \<longleftrightarrow> sameFiles w w' \<and> cmdsExt (readCmd arm c) w w'"

definition sameStores :: "string option \<Rightarrow> 'h server \<Rightarrow> 'h server \<Rightarrow> bool" where
  "sameStores arm s s' \<longleftrightarrow>
     s' = s\<lparr>svArmed := svArmed s', svWorld := svWorld s'\<rparr> \<and>
     (case arm of None \<Rightarrow> svArmed s' = svArmed s
      | Some vm \<Rightarrow> \<forall>d. d \<noteq> vm \<longrightarrow> gget d (svArmed s') = gget d (svArmed s))"

definition onlyReads :: "string option \<Rightarrow> Client \<Rightarrow> 'h server \<Rightarrow> 'h server \<Rightarrow> bool" where
  "onlyReads arm c s s' \<longleftrightarrow> sameStores arm s s' \<and> readOnly arm c (svWorld s) (svWorld s')"

text \<open>The domain whose balloon driver a request for the path may ask.\<close>

definition armedBy :: "string \<Rightarrow> string option" where
  "armedBy p = (if HasPrefix p ''/api/metrics/'' then Some (drop (length ''/api/metrics/'') p) else None)"

lemma readOnly_refl [simp, intro]: "readOnly arm c w w"
  by (simp add: readOnly_def)

lemma readOnly_trans: "readOnly arm c u v \<Longrightarrow> readOnly arm c v w \<Longrightarrow> readOnly arm c u w"
  unfolding readOnly_def by (blast intro: sameFiles_trans cmdsExt_trans)

lemma readOnly_exec: "readCmd arm c \<lparr>cProg = p, cArgs = args, cSeen = files w\<rparr> \<Longrightarrow> readOnly arm c w (snd (os_exec env p args w))"
  by (auto simp: readOnly_def os_exec_def sameFiles_def cmdsExt_def split: prod.split)

lemma snd_Client_run: "snd (Client_run env c args w) = snd (os_exec env (Bin c) args w)"
  by (auto simp: Client_run_def split: prod.split exec_result.split)

interpretation read_frame: virsh_frame "readOnly arm c" env c "readArgs arm" for arm env c
proof unfold_locales
  show "keeps (readOnly arm c) (withTempXML env content k)"
    if "\<And>tmp. isTmp tmp \<Longrightarrow> keeps (readOnly arm c) (k tmp)"
    for content and k :: "string \<Rightarrow> (unit, 'a world) act" and env :: "'a env"
    using that by (intro withTempXML_rule readOnly_refl) (auto simp: readOnly_def intro: cmdsExt_same sameFiles_trans cmdsExt_trans)
qed (auto simp: keeps_def snd_Client_run readCmd_def intro: readOnly_trans readOnly_exec)

interpretation read_lift: lifted "readOnly arm c" env c "readArgs arm" "onlyReads arm c" for arm env c
proof unfold_locales
  show "onlyReads arm c a b \<Longrightarrow> onlyReads arm c b d \<Longrightarrow> onlyReads arm c a d" for a b d :: "'a server"
    unfolding onlyReads_def sameStores_def using readOnly_trans
    by (cases arm; cases a; cases b; cases d) auto
qed (auto simp: onlyReads_def sameStores_def split: option.split)

lemma read_calls:
  "keeps (readOnly arm c) (virsh_ListDomains env c)" "keeps (readOnly arm c) (virsh_IsAutostart env c d)"
  "keeps (readOnly arm c) (virsh_State env c d)" "keeps (readOnly arm c) (virsh_HasUEFI env c d)"
  "keeps (readOnly arm c) (virsh_Title env c d)" "keeps (readOnly arm c) (virsh_DomainStats env c d)"
  "keeps (readOnly arm c) (virsh_CurrentSnapshot env c d)"
  "keeps (readOnly arm c) (virsh_ListSnapshots env c d)" "keeps (readOnly arm c) (virsh_NetworkList env c)"
  "keeps (readOnly arm c) (virsh_DomainInterfaces env c d)" "keeps (readOnly arm c) (virsh_VNCInfo env c d)"
  "keeps (readOnly arm c) (virsh_VNCListenInfo env c d)" "keeps (readOnly arm c) (virsh_VNCLiveInfo env c d)"
  "keeps (readOnly arm c) (virsh_VNCLiveListen env c d)" "keeps (readOnly arm c) (virsh_TPMInfo env c d)"
  "keeps (readOnly arm c) (virsh_TPMLiveInfo env c d)" "keeps (readOnly arm c) (virsh_FirmwareInfo env c d)"
  by (auto simp: readVerbs_def readArgs_def intro!: read_frame.keeps_ListDomains read_frame.keeps_IsAutostart read_frame.keeps_State
      read_frame.keeps_document read_frame.keeps_DomainStats
      read_frame.keeps_CurrentSnapshot read_frame.keeps_ListSnapshots read_frame.keeps_NetworkList
      read_frame.keeps_DomainInterfaces read_frame.keeps_readInactive read_frame.keeps_readLive)


lemma read_hosts: "keeps (readOnly arm c) (usb_HostSlice env [])" "keeps (readOnly arm c) (pci_HostList env rl [])"
proof -
  have "readOnly arm c w (snd (os_exec env p args w))" if "p \<in> {''/usr/bin/lsusb'', ''/usr/bin/lspci''}" for p args w
    using that by (intro readOnly_exec) (auto simp: readCmd_def)
  then show "keeps (readOnly arm c) (usb_HostSlice env [])" "keeps (readOnly arm c) (pci_HostList env rl [])"
    by (auto simp: keeps_def usb_HostSlice_def pci_HostList_def split: prod.splits exec_result.splits)
      (metis insertI1 insertI2 snd_conv)+
qed

lemmas read_intros = read_lift.S.keepsH_intros read_lift.S.keepsH_if read_lift.keepsH_virshH read_lift.keepsH_virshOr
  read_lift.lift read_lift.S.keepsH_forH read_calls read_hosts

lemma read_arm: "keepsH (onlyReads (Some vm) (cxVirsh cx)) (armMemStats cx vm stats)"
proof (rule read_lift.arm_rule [OF _ _ read_calls(6)])
  show "onlyReads (Some vm) (cxVirsh cx) s (s\<lparr>svArmed := gput vm (cxNow cx) (svArmed s)\<rparr>)" for s
    by (simp add: onlyReads_def sameStores_def)
  show "keeps (readOnly (Some vm) (cxVirsh cx)) (virsh_SetMemStatsPeriod (cxEnv cx) (cxVirsh cx) vm memStatsPeriodSec)"
    by (rule read_frame.keeps_SetMemStatsPeriod) (simp add: readArgs_def)
qed

text \<open>Only the metrics of a domain are not a plain read.\<close>

lemma read_metrics:
  assumes "HasPrefix (rqPath rq) ''/api/metrics/''"
  shows "keepsH (onlyReads (armedBy (rqPath rq)) (cxVirsh cx)) (metricsHandler cx rq)"
proof -
  have "armedBy (rqPath rq) = Some (TrimPrefix (rqPath rq) ''/api/metrics/'')"
    using assms by (simp add: armedBy_def TrimPrefix_def)
  then show ?thesis
    unfolding metricsHandler_def Let_def by (auto intro!: read_intros read_arm)
qed

lemma read_handlers:
  assumes "\<not> stateChanging (rqMethod rq)" and "(p, r) \<in> set (api_routes :: 'h route list)"
    and "patternMatches p (rqPath rq)"
  shows "keepsH (onlyReads (armedBy (rqPath rq)) (cxVirsh cx)) (r cx rq)"
proof -
  from assms(1) have m: "rqMethod rq \<noteq> ''POST''" "rqMethod rq \<noteq> ''PUT''" "rqMethod rq \<noteq> ''DELETE''"
    by (simp_all add: stateChanging_def)
  let ?k = "keepsH (onlyReads (armedBy (rqPath rq)) (cxVirsh cx))"
  have "?k (vmEntry cx n)" for n
    unfolding vmEntry_def by (intro read_intros)
  then have "?k (listVMs cx rq)"
    unfolding listVMs_def by (intro read_intros)
  moreover have "?k (health cx rq)" "?k (autostartCollection cx rq)" "?k (autostartItem cx rq)"
    "?k (powerHandler cx rq)" "?k (mountsCollection cx rq)" "?k (mountsItem cx rq)" "?k (storageTargets cx rq)"
    "?k (settingsHandler cx rq)" "?k (scheduleCollection cx rq)" "?k (scheduleItem cx rq)"
    "?k (backupCollection cx rq)" "?k (backupItem cx rq)"
    unfolding health_def autostartCollection_def autostartItem_def powerHandler_def mountsCollection_def mountsItem_def
      mountAction_def storageTargets_def settingsHandler_def scheduleCollection_def scheduleItem_def
      backupCollection_def backupItem_def Let_def
    by (auto simp: m intro!: read_intros)
  moreover have "HasPrefix (rqPath rq) ''/api/metrics/'' \<Longrightarrow> ?k (metricsHandler cx rq)"
    by (rule read_metrics)
  moreover have "?k (snapshotHandler cx rq)"
    unfolding snapshotHandler_def snapshotList_def snapshotItem_def snapshotExists_def Let_def
    by (auto simp: m intro!: read_intros read_frame.keeps_bind read_frame.keeps_ret)
  moreover have "?k (usbHost cx rq)" "?k (usbDomain cx rq)" "?k (pciHost cx rq)" "?k (pciDomain cx rq)"
    "?k (netNetworks cx rq)" "?k (netDomain cx rq)"
    unfolding usbDomain_def usbHost_def pciDomain_def pciHost_def netDomain_def netNetworks_def Let_def
    by (auto simp: m intro!: read_intros)
  moreover have "?k (vncDomain cx rq)" "?k (tpmDomain cx rq)"
    unfolding vncDomain_def vncStatus_def tpmDomain_def tpmStatus_def Let_def
    by (auto simp: m intro!: read_intros)
  ultimately show ?thesis using assms(2,3) by (auto simp: api_routes_def patternMatches_def suffix_def)
qed

text \<open>
  C1: a request that a browser sends for a page of another host does no harm. If its origin is not the host that it
  is addressed to (an origin that does not parse included), then, whatever the path and the body: with a method that changes state it is
  refused before anything happens, with the whole state as it was; and with any other method the stores, the settings, the
  list of backup jobs and every file stay as they are, and every program that is run is a host listing or a
  \<open>virsh\<close> command that only reads. The one exception is the path of the metrics of a domain, which may
  set the period of the statistics of that domain's balloon driver (\<open>dommemstat --period 5 --live\<close>)
  and remember the time of it.
\<close>

theorem cross_origin_harmless:
  assumes "rqOrigin rq \<noteq> []" "url_Host (rqOrigin rq) \<noteq> Some (rqHost rq)"
  shows "(stateChanging (rqMethod rq) \<longrightarrow>
      serve cfg cx rq s = ((403, jstr ''cross-origin request rejected''), s)) \<and>
    onlyReads (armedBy (stripRoutePath (cfRoutePath cfg) (rqPath rq))) (cxVirsh cx) s (snd (serve cfg cx rq s))"
proof (intro conjI impI)
  assume "stateChanging (rqMethod rq)"
  with assms have "crossOrigin rq" by (simp add: crossOrigin_def)
  then show "serve cfg cx rq s = ((403, jstr ''cross-origin request rejected''), s)"
    by (simp add: serve_def rootHandler_def)
next
  show "onlyReads (armedBy (stripRoutePath (cfRoutePath cfg) (rqPath rq))) (cxVirsh cx) s (snd (serve cfg cx rq s))"
    unfolding serve_def
  proof (rule read_lift.S.keepsH_run, rule read_lift.keepsH_root)
    fix p and r :: "'a ctx \<Rightarrow> request \<Rightarrow> (response, 'a) handler" and rq'
    assume a: "(p, r) \<in> set api_routes" "patternMatches p (rqPath rq')" "\<not> crossOrigin rq"
      "rq' = rq\<lparr>rqPath := stripRoutePath (cfRoutePath cfg) (rqPath rq)\<rparr>"
    then have "keepsH (onlyReads (armedBy (rqPath rq')) (cxVirsh cx)) (r cx rq')"
      using assms by (intro read_handlers) (auto simp: crossOrigin_def)
    with a(4) show "keepsH (onlyReads (armedBy (stripRoutePath (cfRoutePath cfg) (rqPath rq))) (cxVirsh cx)) (r cx rq')"
      by simp
  qed
qed

definition evilRequest :: request where
  "evilRequest = (demoRequest ''DELETE'' ''/api/vnc/win'' JNull)\<lparr>rqOrigin := ''https://evil.example''\<rparr>"

theorem cross_origin_harmless_witness:
  "serve demoCfg (demoCtx quietEnv) evilRequest demoServer =
    ((403, jstr ''cross-origin request rejected''), demoServer)"
proof -
  have "rqOrigin evilRequest \<noteq> []" "url_Host (rqOrigin evilRequest) \<noteq> Some (rqHost evilRequest)"
    "stateChanging (rqMethod evilRequest)"
    by code_simp+
  then show ?thesis
    using cross_origin_harmless [of evilRequest demoCfg "demoCtx quietEnv" demoServer] by blast
qed

text \<open>
  C34: the check tells the daemon's own pages from those of other hosts. A request whose origin is a host name
  or an IPv4 address, with or without a port, over either scheme, is refused as a cross-origin one exactly if its method
  changes state and that host is not, byte for byte, the one the request was sent to; so the daemon's own
  pages are never locked out.
\<close>

theorem own_origin_accepted:
  assumes host: "hostPort h"
    and origin: "rqOrigin rq \<in> {''http://'' @ h, ''https://'' @ h}"
  shows "crossOrigin rq \<longleftrightarrow> stateChanging (rqMethod rq) \<and> h \<noteq> rqHost rq"
  using origin url_Host_web [OF host] by (auto simp: crossOrigin_def)

theorem own_origin_accepted_witness:
  "\<not> crossOrigin (evilRequest\<lparr>rqOrigin := ''http://zima:8090'', rqHost := ''zima:8090''\<rparr>) \<and>
   crossOrigin (evilRequest\<lparr>rqOrigin := ''http://zima:8090'', rqHost := ''zima:9090''\<rparr>)"
proof -
  have "hostPort ''zima:8090''"
    unfolding hostPort_def
    by (rule exI [of _ "''zima''"], rule exI [of _ "'':8090''"])
      (simp add: nameHost_def validOptionalPort_def isAlnum_def isDigit_def less_eq_char_def)
  note own_origin_accepted [OF this, of "evilRequest\<lparr>rqOrigin := ''http://zima:8090'', rqHost := ''zima:8090''\<rparr>"]
    own_origin_accepted [OF this, of "evilRequest\<lparr>rqOrigin := ''http://zima:8090'', rqHost := ''zima:9090''\<rparr>"]
  then show ?thesis by (simp add: evilRequest_def demoRequest_def stateChanging_def)
qed

end
