(* ===== verification/FileProps.thy ===== *)
theory FileProps
  imports VirshProofs Backup
begin

section \<open>Properties of paths and file names\<close>

text \<open>
  Where the daemon lets the caller's words reach the file system: the directories it refuses, the
  names of snapshot overlays and backup images.
\<close>

subsection \<open>System directories\<close>

lemma below_dirs:
  assumes p: "IsAbs p" "\<not> Contains p ''..''" and ds: "\<forall>d\<in>set ds. CHR ''/'' \<notin> set d \<and> d \<noteq> []"
  shows "list_ex (atOrBelow (Clean p)) (''/'' # map (\<lambda>d. ''/'' @ d) ds)
    \<longleftrightarrow> pathElems p = [] \<or> hd (pathElems p) \<in> set ds"
proof -
  have es: "\<forall>e\<in>set (pathElems p). e \<noteq> [] \<and> CHR ''/'' \<notin> set e"
    using pathElems_elem by blast
  have "atOrBelow (Clean p) (''/'' @ d) \<longleftrightarrow> (\<exists>rest. pathElems p = d # rest)" if "d \<in> set ds" for d
    unfolding atOrBelow_def Clean_abs [OF p] using below_iff_first_elem [of "pathElems p" d] es ds that by blast
  moreover have "atOrBelow (Clean p) ''/'' \<longleftrightarrow> pathElems p = []"
    unfolding atOrBelow_def Clean_abs [OF p] using root_iff_no_elem [OF es] by simp
  ultimately show ?thesis
    by (cases "pathElems p") (auto simp: list_ex_iff)
qed

text \<open>
  C23: the test for a system directory is the test by path component: an absolute path without
  \<open>..\<close> is refused exactly when it names the root, or when its first component other than \<open>.\<close>
  is one of nine names, however many slashes and dots are written in between. So \<open>/etcetera\<close> is
  allowed, \<open>//./etc/x\<close> is not.
\<close>

theorem forbidden_dir_iff:
  assumes "IsAbs p" "\<not> Contains p ''..''"
  shows "forbiddenSnapshotDir p \<longleftrightarrow> pathElems p = [] \<or>
    hd (pathElems p) \<in> {''proc'', ''sys'', ''dev'', ''run'', ''var'', ''usr'', ''etc'', ''boot'', ''tmp''}"
  using below_dirs [OF assms, of "[''proc'', ''sys'', ''dev'', ''run'', ''var'', ''usr'', ''etc'', ''boot'', ''tmp'']"]
  by (simp add: forbiddenSnapshotDir_def forbiddenDirs_def)

theorem forbidden_dir_iff_witness:
  "forbiddenSnapshotDir ''//./etc/x'' \<and> \<not> forbiddenSnapshotDir ''/etcetera''"
proof -
  have "IsAbs ''//./etc/x''" "\<not> Contains ''//./etc/x'' ''..''" "pathElems ''//./etc/x'' = [''etc'', ''x'']"
    "IsAbs ''/etcetera''" "\<not> Contains ''/etcetera'' ''..''" "pathElems ''/etcetera'' = [''etcetera'']"
    by code_simp+
  with forbidden_dir_iff [of "''//./etc/x''"] forbidden_dir_iff [of "''/etcetera''"] show ?thesis by simp
qed

subsection \<open>Names with an index\<close>

lemma natDigits_inj: "natDigits i = natDigits j \<Longrightarrow> i = j"
  by (metis digitsValue_natDigits option.inject)

lemma last_dash:
  assumes "a @ CHR ''-'' # u = b @ CHR ''-'' # v" "CHR ''-'' \<notin> set u" "CHR ''-'' \<notin> set v"
  shows "u = v"
proof -
  have "rev u @ CHR ''-'' # rev a = rev v @ CHR ''-'' # rev b"
    using assms(1) by (metis append.assoc append_Cons append_Nil rev.simps(2) rev_append rev_rev_ident)
  then have "takeWhile (\<lambda>c. c \<noteq> CHR ''-'') (rev u @ CHR ''-'' # rev a) = takeWhile (\<lambda>c. c \<noteq> CHR ''-'') (rev v @ CHR ''-'' # rev b)"
    by simp
  moreover have "takeWhile (\<lambda>c. c \<noteq> CHR ''-'') (rev w @ CHR ''-'' # x) = rev w" if "CHR ''-'' \<notin> set w" for w x :: string
    using that by (subst takeWhile_append2) auto
  ultimately show ?thesis using assms(2,3) by simp
qed

lemma index_inj:
  assumes "a @ ''-'' @ natDigits i @ ''.qcow2'' = b @ ''-'' @ natDigits j @ ''.qcow2''"
  shows "i = j"
proof -
  have n: "CHR ''-'' \<notin> set (natDigits n @ ''.qcow2'')" for n
    using natDigits_notin [of "CHR ''-''" n] by (simp add: isDigit_def less_eq_char_def)
  have "a @ CHR ''-'' # (natDigits i @ ''.qcow2'') = b @ CHR ''-'' # (natDigits j @ ''.qcow2'')"
    using assms by simp
  then have "natDigits i @ ''.qcow2'' = natDigits j @ ''.qcow2''"
    by (rule last_dash [OF _ n n])
  then show ?thesis using natDigits_inj by simp
qed

lemma distinct_indexed:
  assumes "\<And>i d j e. f i d = f j e \<Longrightarrow> i = j"
  shows "distinct (map (\<lambda>(i, d). f i d) (enumerate n ds))"
proof (induction ds arbitrary: n)
  case (Cons d ds)
  have "f n d \<notin> (\<lambda>(i, d). f i d) ` set (enumerate (Suc n) ds)"
    using assms by (force simp: in_set_enumerate_eq)
  with Cons show ?case by simp
qed simp

text \<open>The arguments for one disk whose overlay is the file \<open>f\<close>; a removable one is left out of the snapshot.\<close>

definition specArgs :: "Disk \<Rightarrow> string \<Rightarrow> string list" where
  "specArgs d f = [''--diskspec'', dkTarget d @
     (if isRemovable d then '',snapshot=no'' else '',snapshot=external,file='' @ f)]"

lemma diskSpecs_map2:
  "diskSpecs dir stem i ds =
     concat (map2 specArgs ds (map (\<lambda>(i, d). overlayPath dir stem i d) (enumerate i ds)))"
  by (induction ds arbitrary: i) (simp_all add: specArgs_def)

text \<open>
  C36: the overlays of one external snapshot never share a file. The arguments that are passed to \<open>virsh\<close> for the
  disks are those of one file for each disk, in the order of the disks, and these files are all different, even when libvirt
  lists two disks with the same target; they are all in the directory asked for, and none of them is the
  file that the memory of a running domain is saved to.
\<close>

theorem overlays_distinct:
  "\<exists>overlays mem.
     diskSpecs dir stem 0 disks = concat (map2 specArgs disks overlays) \<and>
     memSpec dir stem (Inr ''running'') = [''--memspec'', ''file='' @ mem @ '',snapshot=external''] \<and>
     length overlays = length disks \<and> distinct (mem # overlays) \<and>
     list_all (\<lambda>f. HasPrefix f (TrimRight dir ''/'' @ ''/'' @ stem)) (mem # overlays)"
proof (intro exI conjI)
  let ?fs = "map (\<lambda>(i, d). overlayPath dir stem i d) (enumerate 0 disks)"
  let ?mem = "TrimRight dir ''/'' @ ''/'' @ stem @ ''-memory.save''"
  let ?pre = "\<lambda>d. TrimRight dir ''/'' @ ''/'' @ stem @ ''-'' @ dkTarget d"
  show "diskSpecs dir stem 0 disks = concat (map2 specArgs disks ?fs)" by (rule diskSpecs_map2)
  show "memSpec dir stem (Inr ''running'') = [''--memspec'', ''file='' @ ?mem @ '',snapshot=external'']"
    by (simp add: memSpec_def)
  show "length ?fs = length disks" by simp
  have "distinct ?fs"
  proof (rule distinct_indexed)
    show "overlayPath dir stem i d = overlayPath dir stem j e \<Longrightarrow> i = j" for i d j e
      by (rule index_inj [of "?pre d" _ "?pre e"]) (simp only: overlayPath_def append_assoc)
  qed
  moreover have "?mem \<notin> set ?fs"
  proof
    assume "?mem \<in> set ?fs"
    then obtain i d where "overlayPath dir stem i d = ?mem" by (auto simp del: append_assoc)
    then have "last (?pre d @ ''-'' @ natDigits i @ ''.qcow2'') = last ?mem"
      by (simp only: overlayPath_def append_assoc)
    then show False by simp
  qed
  ultimately show "distinct (?mem # ?fs)" by (simp only: distinct.simps not_False_eq_True simp_thms)
  show "list_all (\<lambda>f. HasPrefix f (TrimRight dir ''/'' @ ''/'' @ stem)) (?mem # ?fs)"
    by (auto simp: list_all_iff overlayPath_def prefix_def)
qed

text \<open>
  C37: the file name made of a snapshot name is harmless for every name: it is not empty, has only
  letters, digits, dots, dashes and underscores (so no slash, comma or blank), does not start or end
  with a dot or an underscore, and making a name of it again changes nothing.
\<close>

theorem file_stem_safe:
  "fileStem name \<noteq> [] \<and> list_all stemChar (fileStem name) \<and> CHR ''/'' \<notin> set (fileStem name) \<and>
   hd (fileStem name) \<notin> {CHR ''.'', CHR ''_''} \<and> last (fileStem name) \<notin> {CHR ''.'', CHR ''_''} \<and>
   fileStem (fileStem name) = fileStem name"
proof -
  have "\<not> stemChar (CHR ''/'')" by code_simp
  then have "CHR ''/'' \<notin> set (fileStem name)"
    using fileStem_shape(2) [of name] by (auto simp: list_all_iff)
  with fileStem_shape [of name] fileStem_idem show ?thesis by auto
qed

end
