(* ===== verification/BackupProps.thy ===== *)
theory BackupProps
  imports FileProps HandlerFrames StoreProps
begin

section \<open>Properties of the backup jobs\<close>

text \<open>
  The job table stays small and consistent whatever is requested, a job is only taken for a domain
  that is shut off, and its run copies every disk to a file of its own and always comes to an end state.
\<close>

subsection \<open>The copies\<close>

definition copied :: "Disk list \<Rightarrow> nat \<Rightarrow> (nat \<times> Disk) list" where
  "copied ds i = filter (\<lambda>(_, d). \<not> isRemovable d) (enumerate i ds)"

definition convertArgs :: "Job \<Rightarrow> nat \<times> Disk \<Rightarrow> string list" where
  "convertArgs job x = (case x of (i, d) \<Rightarrow>
     [''convert'', ''-O'', ''qcow2'', dkSource d, JoinPath [jDest job, diskFile i d]])"

text \<open>The conversions one after the other; nothing as soon as one of them fails.\<close>

fun convertsAll :: "'h env \<Rightarrow> Job \<Rightarrow> (nat \<times> Disk) list \<Rightarrow> 'h world \<Rightarrow> 'h world option" where
  "convertsAll env job [] w = Some w"
| "convertsAll env job (x # xs) w =
     (case os_exec env qemuImgBin (convertArgs job x) w of
        (ExecFail _ _ _, _) \<Rightarrow> None
      | (ExecOK _, w) \<Rightarrow> convertsAll env job xs w)"

text \<open>
  A complete backup: the description of the domain was written, every conversion succeeded, and then the
  list of the copies was written (an error of that last write is ignored).
\<close>

definition completeBackup ::
  "'h env \<Rightarrow> string \<Rightarrow> Job \<Rightarrow> string \<Rightarrow> Disk list \<Rightarrow> 'h world \<Rightarrow> 'h world \<Rightarrow> bool" where
  "completeBackup env created job xml disks w w' \<longleftrightarrow>
     (\<exists>w1 w2. os_WriteFile env (JoinPath [jDest job, ''domain.xml'']) (Text xml) w = (Inr (), w1) \<and>
        convertsAll env job (copied disks 0) w1 = Some w2 \<and>
        w' = snd (os_WriteFile env (JoinPath [jDest job, ''manifest.json''])
               (Doc (manifestOf created job (map (\<lambda>(i, d). diskFile i d) (copied disks 0)))) w2))"

lemma backup_disks_effect:
  assumes "backup_disks env job i ds saved m w = (r, m', w')"
  shows "case r of
      Inl _ \<Rightarrow> convertsAll env job (copied ds i) w = None
    | Inr out \<Rightarrow> out = saved @ map (\<lambda>(i, d). diskFile i d) (copied ds i) \<and> convertsAll env job (copied ds i) w = Some w'"
  using assms
proof (induction ds arbitrary: i saved m w)
  case (Cons d ds)
  let ?m = "backup_set job (''converting disk '' @ dkTarget d) m"
  let ?args = "[''convert'', ''-O'', ''qcow2'', dkSource d, JoinPath [jDest job, diskFile i d]]"
  show ?case
  proof (cases "isRemovable d")
    case True
    then have "copied (d # ds) i = copied ds (i + 1)" "backup_disks env job (i + 1) ds saved m w = (r, m', w')"
      using Cons.prems by (simp_all add: copied_def)
    with Cons.IH show ?thesis by metis
  next
    case False
    obtain q w1 where ex: "os_exec env qemuImgBin ?args w = (q, w1)" by fastforce
    have here: "copied (d # ds) i = (i, d) # copied ds (i + 1)" "convertArgs job (i, d) = ?args"
      using False by (simp_all add: copied_def convertArgs_def)
    show ?thesis
    proof (cases q)
      case (ExecOK out)
      with Cons.prems False ex have "backup_disks env job (i + 1) ds (saved @ [diskFile i d]) ?m w1 = (r, m', w')"
        by (simp add: Let_def)
      from Cons.IH [OF this] ex ExecOK show ?thesis by (cases r) (simp_all add: here)
    next
      case (ExecFail out err e)
      with Cons.prems False ex show ?thesis by (auto simp: Let_def here)
    qed
  qed
qed (auto simp: copied_def)

lemma convertsAll_ran: "convertsAll env job xs w = Some w' \<Longrightarrow> ranSince w w' = map (convertArgs job) xs"
proof -
  have "\<exists>ys. cmds w' = cmds w @ ys \<and> map cArgs ys = map (convertArgs job) xs" if "convertsAll env job xs w = Some w'" for w
    using that
  proof (induction xs arbitrary: w)
    case (Cons x xs)
    obtain q w1 where ex: "os_exec env qemuImgBin (convertArgs job x) w = (q, w1)" by fastforce
    with Cons.prems have "convertsAll env job xs w1 = Some w'" by (auto split: exec_result.splits)
    from Cons.IH [OF this] cmds_os_exec [of env qemuImgBin "convertArgs job x" w] ex show ?case by force
  qed simp
  then show "convertsAll env job xs w = Some w' \<Longrightarrow> ranSince w w' = map (convertArgs job) xs"
    by (fastforce simp: ranSince_def)
qed

lemma completeBackup_ran:
  assumes "completeBackup env created job xml disks w w'"
  shows "ranSince w w' = map (convertArgs job) (copied disks 0)"
proof -
  obtain w1 w2 where w: "os_WriteFile env (JoinPath [jDest job, ''domain.xml'']) (Text xml) w = (Inr (), w1)"
    "convertsAll env job (copied disks 0) w1 = Some w2" "cmds w' = cmds w2"
    using assms by (auto simp: completeBackup_def os_WriteFile_def)
  from w(1) have "cmds w1 = cmds w" by (auto simp: os_WriteFile_def split: if_splits)
  with convertsAll_ran [OF w(2)] w(3) show ?thesis by (simp add: ranSince_def)
qed

lemma gget_updateJob: "gget k (updateJob i f m) = (if k = i then map_option f (gget k m) else gget k m)"
  by (induction m) (auto simp: updateJob_def gget_def)

definition sameJobs :: "string \<Rightarrow> Manager \<Rightarrow> Manager \<Rightarrow> bool" where
  "sameJobs i m m' \<longleftrightarrow> (\<forall>k. k \<noteq> i \<longrightarrow> gget k m' = gget k m) \<and> map fst m' = map fst m"

lemma sameJobs_None: "sameJobs i m m' \<Longrightarrow> gget i m' = None \<longleftrightarrow> gget i m = None"
  unfolding sameJobs_def gget_def map_of_eq_None_iff by (metis list.set_map)

lemma sameJobs_update [simp]: "sameJobs (jID job) m (backup_set job t m)" "sameJobs (jID job) m (backup_finish now job r m)"
  by (simp_all add: sameJobs_def backup_set_def backup_finish_def gget_updateJob)
    (simp_all add: updateJob_def comp_def case_prod_beta)

lemma sameJobs_trans: "sameJobs i a b \<Longrightarrow> sameJobs i b c \<Longrightarrow> sameJobs i a c"
  by (simp add: sameJobs_def)

lemma sameJobs_disks: "sameJobs (jID job) m (fst (snd (backup_disks env job i ds saved m w)))"
proof (induction ds arbitrary: i saved m w)
  case (Cons d ds)
  have "sameJobs (jID job) m (fst (snd (backup_disks env job (i + 1) ds out (backup_set job t m) v)))" for t out v
    by (rule sameJobs_trans [OF sameJobs_update(1) Cons.IH])
  then show ?case
    using Cons.IH by (auto simp: Let_def split: prod.split exec_result.split simp del: append_Cons)
qed (simp add: sameJobs_def)

lemma finished_job:
  "gget (jID job) m = Some j \<Longrightarrow> \<exists>j'. gget (jID job) (backup_finish now job r m) = Some j' \<and>
    jEndedUnix j' = now \<and> jState j' = (if is_ok r then ''done'' else ''failed'')"
  by (cases r) (auto simp: backup_finish_def gget_updateJob)

text \<open>The run as its end: it is reported done exactly if the backup is complete.\<close>

lemma backup_run_end:
  "\<exists>r m1 w1. backup_run env created now (job, xml, disks) m w = (backup_finish now job r m1, w1) \<and>
    sameJobs (jID job) m m1 \<and> (is_ok r \<longleftrightarrow> completeBackup env created job xml disks w w1)"
proof -
  define m1 where "m1 = backup_set job ''writing domain.xml'' m"
  have same1: "sameJobs (jID job) m m1" by (simp add: m1_def)
  obtain r1 w1 where wr: "os_WriteFile env (JoinPath [jDest job, ''domain.xml'']) (Text xml) w = (r1, w1)" by fastforce
  show ?thesis
  proof (cases r1)
    case (Inl e)
    have "backup_run env created now (job, xml, disks) m w = (backup_finish now job (Inl e) m1, w1)"
      unfolding backup_run_def prod.case Let_def m1_def [symmetric] wr Inl sum.case ..
    moreover have "\<not> completeBackup env created job xml disks w w1"
      using wr Inl by (simp add: completeBackup_def)
    ultimately show ?thesis using same1 by (meson is_ok_simps)
  next
    case (Inr u)
    obtain r2 m2 w2 where dk: "backup_disks env job 0 disks [] m1 w1 = (r2, m2, w2)" by (metis prod_cases3)
    note conv = backup_disks_effect [OF dk]
    have same2: "sameJobs (jID job) m m2"
      using sameJobs_disks [of job m1 env 0 disks "[]" w1] unfolding dk fst_conv snd_conv by (rule sameJobs_trans [OF same1])
    show ?thesis
    proof (cases r2)
      case e: (Inl e)
      have "backup_run env created now (job, xml, disks) m w = (backup_finish now job (Inl e) m2, w2)"
        unfolding backup_run_def prod.case Let_def m1_def [symmetric] wr Inr sum.case dk e ..
      moreover have "\<not> completeBackup env created job xml disks w w2"
        using wr conv e by (simp add: completeBackup_def)
      ultimately show ?thesis using same2 by (meson is_ok_simps)
    next
      case s: (Inr saved)
      define w3 where "w3 = snd (os_WriteFile env (JoinPath [jDest job, ''manifest.json''])
        (Doc (manifestOf created job saved)) w2)"
      define m3 where "m3 = backup_set job ''writing manifest'' m2"
      have "backup_run env created now (job, xml, disks) m w = (backup_finish now job (Inr ()) m3, w3)"
        unfolding backup_run_def prod.case Let_def m1_def [symmetric] wr Inr sum.case dk s w3_def m3_def ..
      moreover have "completeBackup env created job xml disks w w3"
        using wr conv s Inr by (simp add: completeBackup_def w3_def)
      moreover have "sameJobs (jID job) m m3" unfolding m3_def by (rule sameJobs_trans [OF same2 sameJobs_update(1)])
      ultimately show ?thesis by (meson is_ok_simps)
    qed
  qed
qed

text \<open>
  C11: a backup always comes to an end state, and \<open>done\<close> means complete. Whatever fails on the way, the
  job that was running is marked done or failed with its end time, and no other job
  is touched. It is marked done exactly if the domain's description was written and every run of \<open>qemu-img\<close>
  succeeded, one for each disk that is not removable, in the order libvirt lists them and each to a file of its own,
  and the world it leaves is the one after these and the write of the list of the copies. (An error of that last write
  is ignored by the code, so \<open>done\<close> says nothing of it.)
\<close>

theorem backup_run_ends:
  assumes running: "gget (jID job) m \<noteq> None"
    and run: "backup_run env created now (job, xml, disks) m w = (m', w')"
  shows "\<exists>j. gget (jID job) m' = Some j \<and> jState j \<in> {''done'', ''failed''} \<and> jEndedUnix j = now \<and>
    (\<forall>k. k \<noteq> jID job \<longrightarrow> gget k m' = gget k m) \<and>
    (jState j = ''done'' \<longleftrightarrow> completeBackup env created job xml disks w w') \<and>
    (jState j = ''done'' \<longrightarrow>
      ranSince w w' = map (convertArgs job) (copied disks 0) \<and>
      distinct (map (\<lambda>(i, d). diskFile i d) (copied disks 0)))"
proof -
  from backup_run_end [of env created now job xml disks m w] run
  obtain r m3 where m': "m' = backup_finish now job r m3" and m3: "sameJobs (jID job) m m3"
    and full: "is_ok r \<longleftrightarrow> completeBackup env created job xml disks w w'"
    by auto
  have dist: "distinct (map (\<lambda>(i, d). diskFile i d) (copied disks 0))"
    unfolding copied_def
    by (rule distinct_map_filter) (rule distinct_indexed, rule index_inj, simp add: diskFile_def)
  from m3 running obtain j3 where j3: "gget (jID job) m3 = Some j3"
    by (metis not_None_eq sameJobs_None)
  from finished_job [OF j3, of now r] m'
  obtain j where j: "gget (jID job) m' = Some j" "jEndedUnix j = now" "jState j = (if is_ok r then ''done'' else ''failed'')"
    by auto
  have "gget k m' = gget k m" if "k \<noteq> jID job" for k
    using that m3 unfolding m' by (simp add: sameJobs_def backup_finish_def gget_updateJob)
  moreover have st: "jState j = ''done'' \<longleftrightarrow> completeBackup env created job xml disks w w'"
    using j(3) full by auto
  moreover have "ranSince w w' = map (convertArgs job) (copied disks 0)" if "jState j = ''done''"
    using that st completeBackup_ran by blast
  ultimately show ?thesis using j dist by auto
qed

subsection \<open>The job table\<close>

definition jobsOk :: "Manager \<Rightarrow> bool" where
  "jobsOk m \<longleftrightarrow> gmap_ok m \<and> length m \<le> maxJobs"

lemma pruneLocked_newest:
  assumes "gmap_ok m" "is_order ord"
  shows "set (pruneLocked ord m) \<subseteq> set m" "length (pruneLocked ord m) = min 50 (length m)"
    "x \<in> set (pruneLocked ord m) \<Longrightarrow> y \<in> set m - set (pruneLocked ord m) \<Longrightarrow> jStartedUnix (snd y) \<le> jStartedUnix (snd x)"
proof -
  let ?l = "newestFirst (ord m)"
  have key: "(\<lambda>(_ :: string, j). - jStartedUnix j) = (\<lambda>x. - jStartedUnix (snd x))" by auto
  have ms: "mset ?l = mset m" using is_order_newestFirst [of "ord m"] is_order_mset [OF assms(2), of m] by simp
  then have sl: "set ?l = set m" "length ?l = length m" by (metis set_mset_mset, metis size_mset)
  have p: "gmap_ok (pruneLocked ord m)" "set (pruneLocked ord m) = set (take 50 ?l)"
    using pruneLocked_set [OF assms] by (simp_all add: maxJobs_def)
  show "set (pruneLocked ord m) \<subseteq> set m"
    unfolding p(2) sl(1) [symmetric] by (rule set_take_subset)
  have "mset (map fst ?l) = mset (map fst m)" using ms by simp
  then have "distinct (map fst ?l)"
    using assms(1) unfolding gmap_ok_def by (metis mset_eq_imp_distinct_iff)
  then have "distinct ?l" by (simp add: distinct_map)
  then have "length (pruneLocked ord m) = length (take 50 ?l)"
    using p by (metis distinct_card distinct_take distinct_map gmap_ok_def)
  then show "length (pruneLocked ord m) = min 50 (length m)" using sl by simp
  show "jStartedUnix (snd y) \<le> jStartedUnix (snd x)"
    if "x \<in> set (pruneLocked ord m)" "y \<in> set m - set (pruneLocked ord m)"
  proof -
    have "y \<in> set (drop 50 ?l)"
      using that(2) p(2) sl(1) by (metis DiffE append_take_drop_id set_append UnE)
    moreover have "sorted (map (\<lambda>x. - jStartedUnix (snd x)) (take 50 ?l @ drop 50 ?l))"
      unfolding newestFirst_def append_take_drop_id key by (rule sorted_sort_key)
    ultimately have "- jStartedUnix (snd x) \<le> - jStartedUnix (snd y)"
      using that(1) p(2) unfolding map_append sorted_append by auto
    then show ?thesis by simp
  qed
qed

lemma jobsOk_Start:
  assumes "is_order ord" "jobsOk m"
  shows "jobsOk (fst (snd (backup_Start ord env vc i stamp now vm dest m w)))"
  using assms pruneLocked_set [of "gput i j m" ord for j] length_gmap_pruneLocked [of "gput i j m" ord for j]
  unfolding backup_Start_def Let_def jobsOk_def
  by (auto split: prod.split sum.split)

lemma jobsOk_run: "jobsOk m \<Longrightarrow> jobsOk (fst (backup_run env created now l m w))"
proof -
  assume ok: "jobsOk m"
  obtain job xml ds where l: "l = (job, xml, ds)" by (cases l)
  obtain r m1 w1 where run: "backup_run env created now l m w = (backup_finish now job r m1, w1)"
    and same: "sameJobs (jID job) m m1"
    using backup_run_end unfolding l by metis
  have "sameJobs (jID job) m (backup_finish now job r m1)"
    by (rule sameJobs_trans [OF same sameJobs_update(2)])
  then have keys: "map fst (backup_finish now job r m1) = map fst m" by (simp add: sameJobs_def)
  have "length (backup_finish now job r m1) = length m" using keys by (metis length_map)
  moreover have "gmap_ok (backup_finish now job r m1) = gmap_ok m" by (simp only: gmap_ok_def keys)
  ultimately show ?thesis using ok run by (simp add: jobsOk_def)
qed

lemma jobsOk_run': "jobsOk m \<Longrightarrow> backup_run env created now l m w = (m', w') \<Longrightarrow> jobsOk m'"
  using jobsOk_run by (metis fst_conv)

lemma backupH_store: "svBackup (snd (backupH f s)) = fst (snd (f (svBackup s) (svWorld s)))"
  by (simp add: backupH_def split: prod.split)

lemma jobsOk_request:
  "is_order (cxJobOrder cx) \<Longrightarrow> keepsH (\<lambda>s s'. jobsOk (svBackup s) \<longrightarrow> jobsOk (svBackup s')) (rootHandler cfg cx rq)"
  by (intro backup_frame.keepsH_rootHandler backup_frame.keepsH_listVMs backup_frame.keepsH_vmEntry_any
      backup_frame.keepsH_autostartItem backup_frame.keepsH_mountsCollection backup_frame.keepsH_mountsItem
      backup_frame.keepsH_scheduleItem backup_frame.keepsH_backupItem backup_frame.keepsH_usbDomain
      backup_frame.keepsH_pciDomain backup_frame.keepsH_vncDomain backup_frame.keepsH_tpmDomain store_rules(1-7))
    (auto simp: keepsH_def backupH_store jobsOk_Start)

lemma jobsOk_step:
  "ordersOk (srCtx sr) \<Longrightarrow> jobsOk (svBackup s) \<Longrightarrow> jobsOk (svBackup (step cfg sr ev s))"
proof (cases ev)
  case (Request rq)
  assume "ordersOk (srCtx sr)" "jobsOk (svBackup s)"
  then show ?thesis
    using Request backup_frame.S.keepsH_run [OF jobsOk_request, where s = s]
    by (simp add: step_def Let_def serve_def ordersOk_def)
next
  case RunBackup
  assume "jobsOk (svBackup s)"
  then show ?thesis
    using RunBackup by (auto simp: step_def Let_def runBackups_def split: list.split prod.split
        dest!: jobsOk_run' [rotated])
qed (auto simp: step_def Let_def onWorldS_def split: prod.split)

text \<open>
  C33: the list of backup jobs never grows beyond fifty and never holds two jobs under one
  identifier, in every state the daemon reaches, even if identifiers repeat.
\<close>

theorem backup_jobs_bounded:
  assumes "reachable cfg s0 s" "svBackup s0 = []"
  shows "length (svBackup s) \<le> 50 \<and> distinct (map fst (svBackup s))"
proof -
  have "jobsOk (svBackup s)"
    using assms by (induction) (auto intro: jobsOk_step, simp add: jobsOk_def)
  then show ?thesis by (simp add: jobsOk_def maxJobs_def gmap_ok_def)
qed

text \<open>
  C10: a backup is only taken of a domain that is shut off, and what is forgotten for it is older: if
  \<open>Start\<close> takes the job then libvirt reported \<open>shut off\<close> for the domain just before, and of the new job
  and those known so far only the newest fifty are kept. If it refuses, the table is unchanged.
\<close>

theorem backup_start_safe:
  assumes "gmap_ok m" "is_order ord"
    and start: "backup_Start ord env (backup_controller env c) i stamp now vm dest m w = (r, m', w')"
  shows "case r of
      Inl _ \<Rightarrow> m' = m
    | Inr (job, xml, disks) \<Rightarrow>
        fst (virsh_State env c vm w) = Inr ''shut off'' \<and> jState job = ''running'' \<and> jVM job = vm \<and>
        set m' \<subseteq> set (gput i job m) \<and> length m' = min 50 (length (gput i job m)) \<and>
        (\<forall>x y. x \<in> set m' \<and> y \<in> set (gput i job m) - set m' \<longrightarrow> jStartedUnix (snd y) \<le> jStartedUnix (snd x))"
proof (cases r)
  case (Inl e)
  with start show ?thesis
    by (auto simp: backup_Start_def Let_def split: prod.splits sum.splits if_splits)
next
  case (Inr l)
  obtain job xml disks where l: "l = (job, xml, disks)" by (cases l)
  have st: "fst (virsh_State env c vm w) = Inr ''shut off''" "jState job = ''running''" "jVM job = vm"
    and m': "m' = pruneLocked ord (gput i job m)"
    using start Inr l
    by (auto simp: backup_Start_def backup_controller_def Let_def split: prod.splits sum.splits if_splits)
  have M: "gmap_ok (gput i job m)" using assms(1) by simp
  note P = pruneLocked_newest [OF M assms(2)]
  show ?thesis unfolding Inr l sum.case prod.case m' using st P by blast
qed

subsection \<open>Witnesses\<close>

definition demoDisks :: "Disk list" where
  "demoDisks =
     [\<lparr>dkType = ''file'', dkDevice = ''disk'', dkTarget = ''vda'', dkSource = ''/DATA/win.qcow2''\<rparr>,
      \<lparr>dkType = ''file'', dkDevice = ''cdrom'', dkTarget = ''sda'', dkSource = ''/DATA/win.iso''\<rparr>]"

definition demoJob :: Job where
  "demoJob = \<lparr>jID = ''00'', jVM = ''win'', jDest = ''/b/win'', jState = ''running'', jStep = ''starting'',
     jStartedUnix = 7, jEndedUnix = 0, jError = None\<rparr>"

theorem backup_run_ends_witness:
  "\<exists>j. gget ''00'' (fst (backup_run quietEnv ''now'' 9 (demoJob, ''<domain/>'', demoDisks) [(''00'', demoJob)] emptyWorld)) = Some j
    \<and> jState j \<in> {''done'', ''failed''} \<and> jEndedUnix j = 9"
proof -
  have "gget (jID demoJob) [(''00'', demoJob)] \<noteq> None" by (simp add: demoJob_def gget_def)
  from backup_run_ends [OF this, of quietEnv "''now''" 9 "''<domain/>''" demoDisks emptyWorld, OF prod.collapse [symmetric]]
  show ?thesis by (auto simp: demoJob_def)
qed

theorem backup_jobs_bounded_witness:
  "let s = step demoCfg (demoSurroundings quietEnv)
      (Request (demoRequest ''POST'' ''/api/backup/win'' (JObj [(''dest_dir'', JStr ''/DATA/b'')]))) demoServer
   in length (svBackup s) \<le> 50 \<and> distinct (map fst (svBackup s))"
  unfolding Let_def
  by (rule backup_jobs_bounded [OF reachable.more [OF reachable.init]]) (simp_all add: demo_orders, simp add: demoServer_def)

definition shutOffScript :: "string list \<Rightarrow> string" where
  "shutOffScript args = (if args = [''domstate'', ''win''] then ''shut off'' @ [nl] else [])"

theorem backup_start_safe_witness:
  "\<exists>job xml disks m' w'. backup_Start id (scriptEnv shutOffScript) (backup_controller (scriptEnv shutOffScript) (virsh_New []))
      ''01'' ''now'' 8 ''win'' ''/DATA/b'' [(''00'', demoJob)] emptyWorld = (Inr (job, xml, disks), m', w')
    \<and> length m' = 2 \<and> jState job = ''running'' \<and> jVM job = ''win''"
proof -
  let ?r = "backup_Start id (scriptEnv shutOffScript) (backup_controller (scriptEnv shutOffScript) (virsh_New []))
      ''01'' ''now'' 8 ''win'' ''/DATA/b'' [(''00'', demoJob)] emptyWorld"
  have ok: "gmap_ok [(''00'', demoJob)]" by (simp add: gmap_ok_def)
  have "is_ok (fst ?r)" by code_simp
  then obtain job xml disks m' w' where r: "?r = (Inr (job, xml, disks), m', w')"
    by (cases ?r) (auto simp: is_ok_iff)
  from backup_start_safe [OF ok is_order_id(1) r]
  have "length m' = 2 \<and> jState job = ''running'' \<and> jVM job = ''win''" by (simp add: gput_def)
  with r show ?thesis by blast
qed

end
