(* ===== verification/DeviceProps.thy ===== *)
theory DeviceProps
  imports HandlerFrames StoreProps
begin

section \<open>Properties of device passthrough\<close>

text \<open>
  What is ever pinned, that a detached device does not come back, and what the host lists offer.
  \<open>usbPinOk\<close> and \<open>pciPinOk\<close> are what the guards of the attach handlers are there for.
\<close>

definition usbPinOk :: "UsbPin \<Rightarrow> bool" where
  "usbPinOk p \<longleftrightarrow> validName (upVM p) \<and> validHexID (upVendorID p) \<and> validHexID (upProductID p) \<and>
     \<not> IsRootHub (upVendorID p)"

definition pciPinOk :: "PciPin \<Rightarrow> bool" where
  "pciPinOk p \<longleftrightarrow> validName (ppVM p) \<and> ValidAddress (ppAddress p)"

definition usbStoreOk :: "UsbPin store \<Rightarrow> bool" where
  "usbStoreOk st \<longleftrightarrow> keyed usb_key (sdata st) \<and> (\<forall>(k, p) \<in> set (sdata st). usbPinOk p)"

definition pciStoreOk :: "PciPin store \<Rightarrow> bool" where
  "pciStoreOk st \<longleftrightarrow> keyed pci_key (sdata st) \<and> (\<forall>(k, p) \<in> set (sdata st). pciPinOk p)"

lemma usbStoreOk_ops:
  "usbStoreOk st \<Longrightarrow> usbPinOk p \<Longrightarrow> usbStoreOk (fst (snd (usb_Add ord env p st w)))"
  "usbStoreOk st \<Longrightarrow> usbStoreOk (fst (snd (usb_Remove ord env vm v q st w)))"
  by (auto simp: usbStoreOk_def usb_Add_put usb_Remove_del store_simps
      dest!: subsetD [OF set_gput] subsetD [OF set_gdel])

lemma pciStoreOk_ops:
  "pciStoreOk st \<Longrightarrow> pciPinOk p \<Longrightarrow> pciStoreOk (fst (snd (pci_Add ord env p st w)))"
  "pciStoreOk st \<Longrightarrow> pciStoreOk (fst (snd (pci_Remove ord env vm a st w)))"
  by (auto simp: pciStoreOk_def pci_Add_put pci_Remove_del store_simps
      dest!: subsetD [OF set_gput] subsetD [OF set_gdel])

lemma usbH_store: "svUSB (snd (usbH f s)) = fst (snd (f (svUSB s) (svWorld s)))"
  by (simp add: usbH_def split: prod.split)

lemma pciH_store: "svPCI (snd (pciH f s)) = fst (snd (f (svPCI s) (svWorld s)))"
  by (simp add: pciH_def split: prod.split)

abbreviation keepsUsb :: "('a, 'h) handler \<Rightarrow> bool" where
  "keepsUsb \<equiv> keepsH (\<lambda>s s'. usbStoreOk (svUSB s) \<longrightarrow> usbStoreOk (svUSB s'))"

abbreviation keepsPci :: "('a, 'h) handler \<Rightarrow> bool" where
  "keepsPci \<equiv> keepsH (\<lambda>s s'. pciStoreOk (svPCI s) \<longrightarrow> pciStoreOk (svPCI s'))"

lemma keepsUsb_ops:
  "usbPinOk p \<Longrightarrow> keepsUsb (usbH (usb_Add ord env p))" "keepsUsb (usbH (usb_Remove ord env vm v q))"
  by (simp_all add: keepsH_def usbH_store usbStoreOk_ops)

lemma keepsPci_ops:
  "pciPinOk p \<Longrightarrow> keepsPci (pciH (pci_Add ord env p))" "keepsPci (pciH (pci_Remove ord env vm a))"
  by (simp_all add: keepsH_def pciH_store pciStoreOk_ops)

lemma keepsUsb_domain: "keepsUsb (usbDomain cx rq)"
  unfolding usbDomain_def usbAttach_def usbDetach_def Let_def
  by (auto intro!: usb_frame.handler_intros usb_frame.keepsH_usbHost keepsUsb_ops
      simp: usbPinOk_def dest: validName_noDash split: option.splits)

lemma keepsPci_domain: "keepsPci (pciDomain cx rq)"
  unfolding pciDomain_def pciAttach_def pciDetach_def Let_def
  by (auto intro!: pci_frame.handler_intros pci_frame.keepsH_pciHost keepsPci_ops
      simp: pciPinOk_def dest: validName_noDash)

lemma pins_request: "keepsUsb (rootHandler cfg cx rq)" "keepsPci (rootHandler cfg cx rq)"
  by (intro usb_frame.keepsH_rootHandler usb_frame.keepsH_listVMs usb_frame.keepsH_vmEntry_any
      usb_frame.keepsH_autostartItem usb_frame.keepsH_mountsCollection usb_frame.keepsH_mountsItem
      usb_frame.keepsH_scheduleItem usb_frame.keepsH_backupItem keepsUsb_domain usb_frame.keepsH_pciDomain
      usb_frame.keepsH_vncDomain usb_frame.keepsH_tpmDomain store_rules; simp)
    (intro pci_frame.keepsH_rootHandler pci_frame.keepsH_listVMs pci_frame.keepsH_vmEntry_any
      pci_frame.keepsH_autostartItem pci_frame.keepsH_mountsCollection pci_frame.keepsH_mountsItem
      pci_frame.keepsH_scheduleItem pci_frame.keepsH_backupItem keepsPci_domain pci_frame.keepsH_usbDomain
      pci_frame.keepsH_vncDomain pci_frame.keepsH_tpmDomain store_rules; simp)

lemma pins_step:
  "usbStoreOk (svUSB s) \<Longrightarrow> usbStoreOk (svUSB (step cfg sr ev s))"
  "pciStoreOk (svPCI s) \<Longrightarrow> pciStoreOk (svPCI (step cfg sr ev s))"
  using usb_frame.S.keepsH_run [OF pins_request(1), where s = s] pci_frame.S.keepsH_run [OF pins_request(2), where s = s]
  by (auto simp: step_def Let_def serve_def onWorldS_def runBackups_def split: event.split prod.split list.split)

text \<open>
  C17: whatever is requested, only well-formed pins are ever kept: in every state the daemon reaches
  from empty stores, each USB pin names a valid domain and two four-digit hexadecimal numbers whose
  vendor is not that of the root hubs, each PCI pin a valid domain and a well-formed address, each
  pin is stored under its own key, and no key occurs twice.
\<close>

theorem pins_valid:
  assumes "reachable cfg s0 s" "sdata (svUSB s0) = []" "sdata (svPCI s0) = []"
  shows "keyed usb_key (sdata (svUSB s)) \<and> list_all (\<lambda>(k, p). usbPinOk p) (sdata (svUSB s)) \<and>
    keyed pci_key (sdata (svPCI s)) \<and> list_all (\<lambda>(k, p). pciPinOk p) (sdata (svPCI s))"
proof -
  have "usbStoreOk (svUSB s) \<and> pciStoreOk (svPCI s)"
    using assms by (induction) (auto intro: pins_step, auto simp: usbStoreOk_def pciStoreOk_def)
  then show ?thesis by (simp add: usbStoreOk_def pciStoreOk_def list_all_iff)
qed

definition pinRequest :: request where
  "pinRequest = demoRequest ''POST'' ''/api/usb/win''
     (JObj [(''vendor_id'', JStr ''046D''), (''product_id'', JStr ''c52b''), (''persistent'', JBool True)])"

theorem pins_valid_witness:
  "let s = step demoCfg (demoSurroundings quietEnv) (Request pinRequest) demoServer
   in keyed usb_key (sdata (svUSB s)) \<and> list_all (\<lambda>(k, p). usbPinOk p) (sdata (svUSB s))"
  using pins_valid [OF reachable.more [OF reachable.init], of "demoSurroundings quietEnv" demoServer demoCfg
      "Request pinRequest"]
  by (simp add: demo_orders demoServer_def Let_def)

subsection \<open>Detaching\<close>

lemma hexID_notin: "validHexID v \<Longrightarrow> \<not> isHexDigit c \<Longrightarrow> c \<notin> set v"
  by (auto simp: validHexID_def list_all_iff split: if_splits)

lemma not_hexDigit: "\<not> isHexDigit (CHR ''/'')" "\<not> isHexDigit (CHR '':'')"
  by (simp_all add: isHexDigit_def isLowerHex_def isDigit_def less_eq_char_def)

lemma hexID_not_Nil: "validHexID v \<Longrightarrow> v \<noteq> []"
  by (auto simp: validHexID_def)

lemma pathParts_two:
  assumes "CHR ''/'' \<notin> set a" "CHR ''/'' \<notin> set b" "b \<noteq> []"
  shows "pathParts (a @ ''/'' @ b) = [a, b]"
proof -
  have "\<not> suffix ''/'' (a @ ''/'' @ b)"
    using assms(2,3) by (auto simp: suffix_def append_eq_append_conv2 Cons_eq_append_conv append_eq_Cons_conv)
  with assms show ?thesis by (simp add: pathParts_def TrimSuffix_def Split_at Split_plain)
qed



end
