(* ===== verification/HostListProps.thy ===== *)
theory HostListProps
  imports StoreProps
begin

section \<open>Properties of what the host reports\<close>

text \<open>
  \<open>lsusb\<close> and \<open>lspci\<close> print one line and one record per device. \<open>lsusbText\<close> and \<open>lspciText\<close> are
  that documented form, the parsers read it back.
\<close>

definition plainWord :: "string \<Rightarrow> bool" where
  "plainWord w \<longleftrightarrow> w \<noteq> [] \<and> list_all (\<lambda>c. \<not> isSpace c) w"

lemma isSpace_simps [simp]: "isSpace (CHR '' '')" "isSpace nl" "isSpace tab"
  by (simp_all add: isSpace_def)

lemma splitOn_word: "list_all (\<lambda>c. \<not> isSpace c) w \<Longrightarrow> splitOn isSpace w = [w]"
  by (rule splitOn_single) (simp add: list_all_iff)

lemma splitOn_Join:
  "ws \<noteq> [] \<Longrightarrow> list_all plainWord ws \<Longrightarrow> splitOn isSpace (Join ws '' '') = ws"
  by (induction ws rule: induct_list012) (simp_all add: plainWord_def splitOn_word splitOn_append)

lemma Fields_Join: "list_all plainWord ws \<Longrightarrow> Fields (Join ws '' '') = ws"
proof (cases "ws = []")
  case False
  assume ok: "list_all plainWord ws"
  then have "filter (\<lambda>w. w \<noteq> []) ws = ws"
    by (induction ws) (auto simp: plainWord_def)
  with splitOn_Join [OF False ok] show ?thesis by (simp add: Fields_def)
qed (simp add: Fields_def)

text \<open>A text that neither starts nor ends with a space is not changed by trimming.\<close>

lemma Join_ends:
  "ws \<noteq> [] \<Longrightarrow> list_all plainWord ws \<Longrightarrow>
    Join ws '' '' \<noteq> [] \<and> \<not> isSpace (hd (Join ws '' '')) \<and> \<not> isSpace (last (Join ws '' ''))"
  by (induction ws rule: induct_list012) (auto simp: plainWord_def list_all_iff)

lemma TrimSpace_Join: "list_all plainWord ws \<Longrightarrow> TrimSpace (Join ws '' '') = Join ws '' ''"
  using Join_ends [of ws] unfolding TrimSpace_def
  by (cases "ws = []") (simp_all add: TrimFunc_id)

lemma Split_lines:
  "list_all (\<lambda>l. nl \<notin> set l) ls \<Longrightarrow> Split (concat (map (\<lambda>l. l @ [nl]) ls)) nl = ls @ [[]]"
proof (induction ls)
  case (Cons l ls)
  then show ?case using Split_at [of l nl "concat (map (\<lambda>l. l @ [nl]) ls)"] by (simp add: Split_plain)
qed (simp add: Split_def)

subsection \<open>lsusb\<close>

definition lsusbWords :: "UsbDevice \<Rightarrow> string list" where
  "lsusbWords d =
     [''Bus'', udBus d, ''Device'', udDeviceID d @ '':'', ''ID'', udVendorID d @ '':'' @ udProductID d]
       @ Fields (udDescription d)"

definition lsusbText :: "UsbDevice \<Rightarrow> string" where
  "lsusbText d = Join (lsusbWords d) '' ''"

definition lsusbOk :: "UsbDevice \<Rightarrow> bool" where
  "lsusbOk d \<longleftrightarrow> plainWord (udBus d) \<and> plainWord (udDeviceID d) \<and>
     validHexID (udVendorID d) \<and> ToLower (udVendorID d) = udVendorID d \<and>
     validHexID (udProductID d) \<and> ToLower (udProductID d) = udProductID d \<and>
     Join (Fields (udDescription d)) '' '' = udDescription d"

lemma Fields_plain: "list_all plainWord (Fields s)"
  by (auto simp: Fields_def plainWord_def list_all_iff dest: splitOn_elems)

lemma plainWord_append: "plainWord a \<Longrightarrow> plainWord b \<Longrightarrow> plainWord (a @ b)"
  by (simp add: plainWord_def)

lemma plainWord_ids: "validHexID v \<Longrightarrow> plainWord v"
  by (auto simp: validHexID_def plainWord_def list_all_iff isHexDigit_def isLowerHex_def isDigit_def
      isSpace_def less_eq_char_def split: if_splits)

lemma plainWord_literals: "plainWord ''Bus''" "plainWord ''Device''" "plainWord '':''" "plainWord ''ID''"
  by (code_simp)+

lemma lsusbWords_plain: "lsusbOk d \<Longrightarrow> list_all plainWord (lsusbWords d)"
  by (simp del: append_Cons add: lsusbWords_def lsusbOk_def plainWord_literals plainWord_append plainWord_ids Fields_plain)

lemma lsusbLine_text: "lsusbOk d \<Longrightarrow> lsusbLine (lsusbText d) = [d]"
proof -
  assume ok: "lsusbOk d"
  let ?w = "lsusbWords d"
  have trim: "TrimSpace (lsusbText d) = lsusbText d" and fields: "Fields (lsusbText d) = ?w"
    using lsusbWords_plain [OF ok] by (simp_all add: lsusbText_def TrimSpace_Join Fields_Join)
  have ne: "lsusbText d \<noteq> []"
    using Join_ends [of ?w] lsusbWords_plain [OF ok] by (simp add: lsusbText_def lsusbWords_def)
  have w: "\<not> length ?w < 6" "?w ! 0 = ''Bus''" "?w ! 1 = udBus d" "?w ! 2 = ''Device''"
    "?w ! 3 = udDeviceID d @ '':''" "?w ! 4 = ''ID''" "?w ! 5 = udVendorID d @ '':'' @ udProductID d"
    "(if 6 < length ?w then Join (drop 6 ?w) '' '' else []) = Join (Fields (udDescription d)) '' ''"
    by (simp_all add: lsusbWords_def)
  have cut: "Cut (udVendorID d @ '':'' @ udProductID d) '':'' = Some (udVendorID d, udProductID d)"
  proof -
    have "CHR '':'' \<notin> set (udVendorID d)"
      using ok by (auto simp: lsusbOk_def validHexID_def list_all_iff isHexDigit_def isLowerHex_def isDigit_def
          less_eq_char_def split: if_splits)
    then show ?thesis by simp
  qed
  have "TrimSuffix (udDeviceID d @ '':'') '':'' = udDeviceID d" by (simp add: TrimSuffix_def)
  with ok show ?thesis
    unfolding lsusbLine_def Let_def trim fields w(2-) cut
    by (simp add: ne w lsusbOk_def)
qed

lemma parseLsusb_text:
  assumes "list_all lsusbOk ds"
  shows "parseLsusb (concat (map (\<lambda>d. lsusbText d @ [nl]) ds)) = ds"
proof -
  have "nl \<notin> set (Join ws '' '')" if "list_all plainWord ws" for ws
    using that by (induction ws rule: induct_list012) (auto simp: plainWord_def list_all_iff)
  then have "list_all (\<lambda>l. nl \<notin> set l) (map lsusbText ds)"
    using assms lsusbWords_plain by (fastforce simp: list_all_iff lsusbText_def)
  from Split_lines [OF this] have "Split (concat (map (\<lambda>d. lsusbText d @ [nl]) ds)) nl = map lsusbText ds @ [[]]"
    by (simp add: comp_def)
  moreover have "concat (map lsusbLine (map lsusbText ds)) = ds"
    using assms by (induction ds) (simp_all add: lsusbLine_text)
  moreover have "lsusbLine [] = []" by code_simp
  ultimately show ?thesis by (simp add: parseLsusb_def)
qed

text \<open>
  C30: the USB list is exactly what the host has, less the root hubs. If \<open>lsusb\<close> prints one line for each
  of some devices, in its documented form, the list is those devices in the same order, each
  field as it was printed, without the ones whose vendor is that of the root hubs.
\<close>

theorem usb_list_readback:
  assumes "list_all lsusbOk ds"
    and "exec env ''/usr/bin/lsusb'' [] (files w) (hyp w) = (ExecOK (concat (map (\<lambda>d. lsusbText d @ [nl]) ds)), h)"
  shows "fst (usb_HostList env [] w) = Inr (filter (\<lambda>d. udVendorID d \<noteq> ''1d6b'') ds)"
proof -
  have "IsRootHub (udVendorID d) \<longleftrightarrow> udVendorID d = ''1d6b''" if "d \<in> set ds" for d
    using assms(1) that by (auto simp: IsRootHub_def blockedVendors_def list_all_iff lsusbOk_def)
  then have "filter (\<lambda>d. \<not> IsRootHub (udVendorID d)) ds = filter (\<lambda>d. udVendorID d \<noteq> ''1d6b'') ds"
    by (auto intro: filter_cong)
  with assms(2) show ?thesis
    by (simp add: usb_HostList_eq os_exec_def parseLsusb_text [OF assms(1)])
qed

definition demoHub :: UsbDevice where
  "demoHub = \<lparr>udBus = ''001'', udDeviceID = ''001'', udVendorID = ''1d6b'', udProductID = ''0002'',
     udDescription = ''Linux Foundation 2.0 root hub''\<rparr>"

definition demoStick :: UsbDevice where
  "demoStick = \<lparr>udBus = ''001'', udDeviceID = ''004'', udVendorID = ''0bda'', udProductID = ''8153'',
     udDescription = []\<rparr>"

theorem usb_list_readback_witness:
  "fst (usb_HostList (scriptEnv (\<lambda>_. concat (map (\<lambda>d. lsusbText d @ [nl]) [demoHub, demoStick]))) [] emptyWorld) =
    Inr [demoStick]"
proof -
  have "list_all lsusbOk [demoHub, demoStick]" by code_simp
  note usb_list_readback [OF this, of "scriptEnv (\<lambda>_. concat (map (\<lambda>d. lsusbText d @ [nl]) [demoHub, demoStick]))"
      emptyWorld "()"]
  then show ?thesis by (simp add: demoHub_def demoStick_def)
qed

subsection \<open>lspci\<close>

record HostPci =
  hpSlot :: string
  hpClassName :: string
  hpClass :: string
  hpVendor :: string
  hpVendorID :: string
  hpDevice :: string
  hpDeviceID :: string
  hpDriver :: string

definition lspciTagged :: "string \<Rightarrow> string \<Rightarrow> string" where
  "lspciTagged k v = k @ CHR '':'' # tab # v"

definition lspciNamed :: "string \<Rightarrow> string \<Rightarrow> string" where
  "lspciNamed name i = name @ CHR '' '' # CHR ''['' # i @ [CHR '']'']"

text \<open>A record of \<open>lspci -vmm\<close>: lines of a tag and a value, and a blank line after the last one.\<close>

definition lspciLines :: "(string \<times> string) list \<Rightarrow> string list" where
  "lspciLines fs = map (\<lambda>(k, v). lspciTagged k v) fs"

definition lspciText :: "(string \<times> string) list \<Rightarrow> string" where
  "lspciText fs = concat (map (\<lambda>l. l @ [nl]) (lspciLines fs @ [[]]))"

definition tidy :: "string \<Rightarrow> bool" where
  "tidy s \<longleftrightarrow> s \<noteq> [] \<and> \<not> isSpace (hd s) \<and> \<not> isSpace (last s) \<and> nl \<notin> set s"

definition hostPciOk :: "HostPci \<Rightarrow> bool" where
  "hostPciOk h \<longleftrightarrow> tidy (hpSlot h) \<and> tidy (hpClassName h) \<and> tidy (hpVendor h) \<and> tidy (hpDevice h) \<and>
     validHexID (hpClass h) \<and> validHexID (hpVendorID h) \<and> validHexID (hpDeviceID h) \<and>
     (hpDriver h = [] \<or> tidy (hpDriver h))"

text \<open>
  The record of a device: its slot, its class and its driver (if it has one) stand in it once, and its vendor and
  its device once, in this order. There may be any other lines, before, after and between them.
\<close>

definition lspciForm :: "HostPci \<Rightarrow> (string \<times> string) list \<Rightarrow> bool" where
  "lspciForm h fs \<longleftrightarrow> hostPciOk h \<and>
     list_all (\<lambda>(k, v). CHR '':'' \<notin> set k \<and> nl \<notin> set k \<and> nl \<notin> set v) fs \<and>
     filter (\<lambda>kv. fst kv = ''Slot'') fs = [(''Slot'', hpSlot h)] \<and>
     filter (\<lambda>kv. fst kv = ''Class'') fs = [(''Class'', lspciNamed (hpClassName h) (hpClass h))] \<and>
     filter (\<lambda>kv. fst kv = ''Vendor'' \<or> fst kv = ''Device'') fs =
       [(''Vendor'', lspciNamed (hpVendor h) (hpVendorID h)), (''Device'', lspciNamed (hpDevice h) (hpDeviceID h))] \<and>
     filter (\<lambda>kv. fst kv = ''Driver'') fs = (if hpDriver h = [] then [] else [(''Driver'', hpDriver h)])"

definition devOf :: "HostPci \<Rightarrow> PciDevice" where
  "devOf h =
     \<lparr>pdAddress = hpSlot h, pdVendorID = hpVendorID h, pdDeviceID = hpDeviceID h, pdClass = hpClass h,
      pdClassName = hpClassName h, pdDescription = hpVendor h @ '' '' @ hpDevice h, pdDriver = hpDriver h,
      pdIOMMUGroup = [], pdPassable = isPassable (hpClass h)\<rparr>"

lemma TrimSpace_tidy: "tidy s \<Longrightarrow> TrimSpace s = s"
  by (simp add: tidy_def TrimSpace_def TrimFunc_id)

lemma TrimFunc_before: "tidy s \<Longrightarrow> TrimSpace (s @ '' '') = s"
  by (simp add: tidy_def TrimSpace_def TrimFunc_def TrimRightFunc_def TrimLeftFunc_def
      dropWhile_hd_id [where s = "s @ '' ''"] dropWhile_hd_id [where s = "rev s"] hd_rev)

lemma TrimFunc_after: "isSpace c \<Longrightarrow> TrimSpace (c # s) = TrimSpace s"
  by (simp add: TrimSpace_def TrimFunc_def TrimLeftFunc_def)

lemma TrimSpace_not_Nil: "c \<in> set s \<Longrightarrow> \<not> isSpace c \<Longrightarrow> TrimSpace s \<noteq> []"
  by (auto simp: TrimSpace_def TrimFunc_def TrimRightFunc_def TrimLeftFunc_def dropWhile_eq_Nil_conv)
    (metis (no_types, lifting) UnE set_append set_dropWhileD set_takeWhileD takeWhile_dropWhile_id)

lemma CutLast_byte: "c \<notin> set b \<Longrightarrow> CutLast (a @ c # b) [c] = Some (a, b)"
proof (induction a)
  case Nil
  then have "CutLast b [c] = None" by (simp add: CutLast_eq_None_iff Cut_byte_None_iff)
  then show ?case by simp
qed simp

lemma brackets:
  assumes "tidy n" "validHexID i"
  shows "stripLastBracket (lspciNamed n i) = n" "lastBracketID (lspciNamed n i) = i" "tidy (lspciNamed n i)"
proof -
  have i: "CHR ''['' \<notin> set i" "nl \<notin> set i"
    using assms(2) by (auto simp: validHexID_def list_all_iff isHexDigit_def isLowerHex_def isDigit_def
        less_eq_char_def split: if_splits)
  have "CutLast (lspciNamed n i) '']'' = Some (n @ CHR '' '' # CHR ''['' # i, [])"
    using CutLast_byte [of "CHR '']''" "[]" "n @ CHR '' '' # CHR ''['' # i"] by (simp add: lspciNamed_def)
  moreover have "CutLast (n @ CHR '' '' # CHR ''['' # i) ''['' = Some (n @ '' '', i)"
    using CutLast_byte [OF i(1), of "n @ '' ''"] by simp
  ultimately show "stripLastBracket (lspciNamed n i) = n" "lastBracketID (lspciNamed n i) = i"
    using TrimFunc_before [OF assms(1)] by (simp_all add: stripLastBracket_def lastBracketID_def)
  show "tidy (lspciNamed n i)"
    using assms(1) i by (auto simp: tidy_def lspciNamed_def isSpace_def)
qed

lemma lspciLine_tagged:
  assumes "CHR '':'' \<notin> set k"
  shows "lspciLine (lspciTagged k v) st = (fst st, lspciField k (TrimSpace v) (snd st))"
proof -
  have "\<not> isSpace (CHR '':'')" by (simp add: isSpace_def)
  then have "TrimSpace (lspciTagged k v) \<noteq> []"
    by (intro TrimSpace_not_Nil [of "CHR '':''"]) (simp_all add: lspciTagged_def)
  with assms show ?thesis
    by (simp add: lspciLine_def lspciTagged_def TrimFunc_after)
qed

text \<open>What a record makes of the current device, line by line.\<close>

definition readField :: "string \<times> string \<Rightarrow> PciDevice \<Rightarrow> PciDevice" where
  "readField kv cur = lspciField (fst kv) (TrimSpace (snd kv)) cur"

lemma fold_readField:
  "list_all (\<lambda>(k, v). CHR '':'' \<notin> set k \<and> nl \<notin> set k \<and> nl \<notin> set v) fs \<Longrightarrow>
   fold lspciLine (lspciLines fs) (ds, cur) = (ds, fold readField fs cur)"
  by (induction fs arbitrary: cur) (auto simp: lspciLines_def lspciLine_tagged readField_def)

text \<open>A field of the result depends only on the lines that can set it.\<close>

lemma fold_sel:
  assumes "\<And>x c. \<not> P x \<Longrightarrow> sel (f x c) = sel c" "\<And>x c c'. P x \<Longrightarrow> sel c = sel c' \<Longrightarrow> sel (f x c) = sel (f x c')"
  shows "sel (fold f xs c) = sel (fold f (filter P xs) c)"
proof -
  have "sel c = sel c' \<Longrightarrow> sel (fold f xs c) = sel (fold f (filter P xs) c')" for c c'
  proof (induction xs arbitrary: c c')
    case (Cons x xs)
    show ?case
    proof (cases "P x")
      case True
      with Cons.IH [OF assms(2) [OF True Cons.prems]] show ?thesis by simp
    next
      case False
      with Cons.IH [of "f x c" c'] assms(1) [OF False] Cons.prems show ?thesis by simp
    qed
  qed simp
  then show ?thesis by blast
qed

lemma lspci_read:
  assumes "lspciForm h fs"
  shows "fold readField fs zeroPciDevice = (devOf h)\<lparr>pdPassable := False\<rparr>"
proof -
  let ?out = "fold readField fs zeroPciDevice"
  have ok: "tidy (hpSlot h)" "tidy (hpClassName h)" "tidy (hpVendor h)" "tidy (hpDevice h)" "validHexID (hpClass h)"
    "validHexID (hpVendorID h)" "validHexID (hpDeviceID h)" "hpDriver h = [] \<or> tidy (hpDriver h)"
    using assms by (simp_all add: lspciForm_def hostPciOk_def)
  have desc: "tidy (hpVendor h @ '' '' @ hpDevice h)" using ok(3,4) by (simp add: tidy_def)
  have lines: "filter (\<lambda>kv. fst kv = ''Slot'') fs = [(''Slot'', hpSlot h)]"
    "filter (\<lambda>kv. fst kv = ''Class'') fs = [(''Class'', lspciNamed (hpClassName h) (hpClass h))]"
    "filter (\<lambda>kv. fst kv = ''Vendor'' \<or> fst kv = ''Device'') fs =
       [(''Vendor'', lspciNamed (hpVendor h) (hpVendorID h)), (''Device'', lspciNamed (hpDevice h) (hpDeviceID h))]"
    "filter (\<lambda>kv. fst kv = ''Driver'') fs = (if hpDriver h = [] then [] else [(''Driver'', hpDriver h)])"
    using assms by (simp_all add: lspciForm_def)
  have driver: "TrimSpace (hpDriver h) = hpDriver h" if "hpDriver h \<noteq> []"
    using that ok(8) TrimSpace_tidy by blast
  note field = readField_def lspciField_def zeroPciDevice_def TrimSpace_tidy brackets ok
  have "pdAddress ?out = hpSlot h"
    by (subst fold_sel [where P = "\<lambda>kv. fst kv = ''Slot''" and sel = pdAddress]) (simp_all add: lines field)
  moreover have "(pdClassName ?out, pdClass ?out) = (hpClassName h, hpClass h)"
    by (subst fold_sel [where P = "\<lambda>kv. fst kv = ''Class''" and sel = "\<lambda>d. (pdClassName d, pdClass d)"]) (simp_all add: lines field)
  moreover have "(pdDescription ?out, pdVendorID ?out, pdDeviceID ?out) = (hpVendor h @ '' '' @ hpDevice h, hpVendorID h, hpDeviceID h)"
    using TrimSpace_tidy [OF desc]
    by (subst fold_sel [where P = "\<lambda>kv. fst kv = ''Vendor'' \<or> fst kv = ''Device''"
          and sel = "\<lambda>d. (pdDescription d, pdVendorID d, pdDeviceID d)"]) (auto simp: lines field)
  moreover have "pdDriver ?out = hpDriver h"
    by (subst fold_sel [where P = "\<lambda>kv. fst kv = ''Driver''" and sel = pdDriver]) (auto simp: lines field driver)
  moreover have "(pdIOMMUGroup ?out, pdPassable ?out) = ([], False)"
    by (subst fold_sel [where P = "\<lambda>_. False" and sel = "\<lambda>d. (pdIOMMUGroup d, pdPassable d)"]) (simp_all add: field)
  ultimately show ?thesis by (cases ?out) (simp add: devOf_def)
qed

lemma lspciLine_blank: "lspciLine [] st = lspciFlush st"
  by (simp add: lspciLine_def TrimSpace_def TrimFunc_def TrimRightFunc_def TrimLeftFunc_def)

lemma lspci_record:
  assumes "lspciForm h fs"
  shows "fold lspciLine (lspciLines fs @ [[]]) (ds, zeroPciDevice) = (ds @ [devOf h], zeroPciDevice)"
proof -
  have lines: "list_all (\<lambda>(k, v). CHR '':'' \<notin> set k \<and> nl \<notin> set k \<and> nl \<notin> set v) fs" and ok: "hostPciOk h"
    using assms by (simp_all add: lspciForm_def)
  have "tidy (hpVendor h @ '' '' @ hpDevice h)" "hpSlot h \<noteq> []" using ok by (simp_all add: tidy_def hostPciOk_def)
  then have "lspciFlush (ds, (devOf h)\<lparr>pdPassable := False\<rparr>) = (ds @ [devOf h], zeroPciDevice)"
    using TrimSpace_tidy [of "hpVendor h @ '' '' @ hpDevice h"] by (simp add: lspciFlush_def devOf_def)
  then show ?thesis
    by (simp add: fold_readField [OF lines] lspci_read [OF assms] lspciLine_blank)
qed

lemma lspciLines_nl: "lspciForm h fs \<Longrightarrow> list_all (\<lambda>l. nl \<notin> set l) (lspciLines fs @ [[]])"
  by (auto simp: lspciForm_def lspciLines_def lspciTagged_def list_all_iff)

lemma parseLspci_text:
  assumes "list_all2 lspciForm hs recs"
  shows "parseLspci (concat (map lspciText recs)) = map devOf hs"
proof -
  have lines: "Split (concat (map lspciText recs)) nl = concat (map (\<lambda>fs. lspciLines fs @ [[]]) recs) @ [[]]"
  proof -
    have "list_all (\<lambda>fs. list_all (\<lambda>l. nl \<notin> set l) (lspciLines fs @ [[]])) recs"
      using assms by (induction) (simp_all add: lspciLines_nl del: list_all_append)
    then have "list_all (\<lambda>l. nl \<notin> set l) (concat (map (\<lambda>fs. lspciLines fs @ [[]]) recs))"
      by (auto simp: list_all_iff)
    moreover have "concat (map lspciText recs) = concat (map (\<lambda>l. l @ [nl]) (concat (map (\<lambda>fs. lspciLines fs @ [[]]) recs)))"
      by (induction recs) (simp_all add: lspciText_def)
    ultimately show ?thesis by (simp only: Split_lines)
  qed
  have "fold lspciLine (concat (map (\<lambda>fs. lspciLines fs @ [[]]) recs)) (ds, zeroPciDevice) =
      (ds @ map devOf hs, zeroPciDevice)" for ds
    using assms
  proof (induction arbitrary: ds)
    case (Cons h hs fs recs)
    with lspci_record [OF Cons.hyps(1), of ds] show ?case by simp
  qed simp
  then show ?thesis
    by (simp add: parseLspci_def lines lspciFlush_def zeroPciDevice_def lspciLine_blank)
qed

lemma lower_digit_all: "\<forall>x. (toLowerChar x = CHR ''0'' \<longleftrightarrow> x = CHR ''0'') \<and> (toLowerChar x = CHR ''6'' \<longleftrightarrow> x = CHR ''6'')"
  by code_simp

lemmas lower_digit = lower_digit_all [THEN spec, THEN conjunct1] lower_digit_all [THEN spec, THEN conjunct2]

text \<open>
  C29: the PCI list is exactly what the host has. If \<open>lspci\<close> prints one record for each of some
  devices, tagged lines in any order except that the vendor comes before the device, and with any further lines anywhere
  among them, the list is those devices in the same
  order: the address, the three identifiers, the names and the driver as they were printed, the IOMMU
  group from \<open>sysfs\<close>, and marked as passable unless the class is that of a bridge.
\<close>

theorem pci_list_readback:
  assumes "list_all2 lspciForm hs recs"
    and "exec env ''/usr/bin/lspci'' [''-Dvmmnnk''] (files w) (hyp w) = (ExecOK (concat (map lspciText recs)), h)"
  shows "fst (pci_HostList env readlink [] w) = Inr (map (\<lambda>h.
      \<lparr>pdAddress = hpSlot h, pdVendorID = hpVendorID h, pdDeviceID = hpDeviceID h, pdClass = hpClass h,
       pdClassName = hpClassName h, pdDescription = hpVendor h @ '' '' @ hpDevice h, pdDriver = hpDriver h,
       pdIOMMUGroup = (case readlink (JoinPath [''/sys/bus/pci/devices'', hpSlot h, ''iommu_group'']) of
          None \<Rightarrow> [] | Some link \<Rightarrow> Base link),
       pdPassable = (take 2 (hpClass h) \<noteq> ''06'')\<rparr>) hs)"
proof -
  have "isPassable (hpClass h) \<longleftrightarrow> take 2 (hpClass h) \<noteq> ''06''" if "h \<in> set hs" for h
  proof -
    have "list_all hostPciOk hs"
      using assms(1) by (induction) (simp_all add: lspciForm_def)
    then have "validHexID (hpClass h)" using that by (simp add: hostPciOk_def list_all_iff)
    then obtain a b c where c: "hpClass h = a # b # c"
      by (auto simp: validHexID_def length_Suc_conv numeral_eq_Suc split: if_splits)
    then show ?thesis by (simp add: isPassable_def ToLower_def) (metis lower_digit)
  qed
  with assms(2) show ?thesis
    by (simp add: pci_HostList_def os_exec_def parseLspci_text [OF assms(1)] devOf_def iommuGroup_def)
qed

definition demoCard :: HostPci where
  "demoCard = \<lparr>hpSlot = ''0000:01:00.0'', hpClassName = ''VGA compatible controller'', hpClass = ''0300'',
     hpVendor = ''Advanced Micro Devices, Inc. [AMD/ATI]'', hpVendorID = ''1002'', hpDevice = ''Navi 10'',
     hpDeviceID = ''731f'', hpDriver = ''amdgpu''\<rparr>"

definition demoRecord :: "(string \<times> string) list" where
  "demoRecord =
     [(''Slot'', ''0000:01:00.0''), (''Class'', ''VGA compatible controller [0300]''),
      (''Vendor'', ''Advanced Micro Devices, Inc. [AMD/ATI] [1002]''), (''Device'', ''Navi 10 [731f]''),
      (''SVendor'', ''ASUSTeK Computer Inc. [1043]''), (''SDevice'', ''Device [04e2]''), (''Rev'', ''c1''),
      (''Driver'', ''amdgpu''), (''Module'', ''amdgpu''), (''IOMMUGroup'', ''15'')]"

theorem pci_list_readback_witness:
  "fst (pci_HostList (scriptEnv (\<lambda>_. concat (map lspciText [demoRecord]))) (\<lambda>_. None) [] emptyWorld) =
    Inr [\<lparr>pdAddress = ''0000:01:00.0'', pdVendorID = ''1002'', pdDeviceID = ''731f'', pdClass = ''0300'',
      pdClassName = ''VGA compatible controller'', pdDescription = ''Advanced Micro Devices, Inc. [AMD/ATI] Navi 10'',
      pdDriver = ''amdgpu'', pdIOMMUGroup = [], pdPassable = True\<rparr>]"
proof -
  have "hostPciOk demoCard" by code_simp
  then have "lspciForm demoCard demoRecord"
    by (simp add: lspciForm_def demoRecord_def lspciNamed_def) (simp add: demoCard_def)
  then have "list_all2 lspciForm [demoCard] [demoRecord]" by simp
  note pci_list_readback [OF this, of "scriptEnv (\<lambda>_. concat (map lspciText [demoRecord]))" emptyWorld "()" "\<lambda>_. None"]
  then show ?thesis by (simp add: demoCard_def)
qed

end
