(* ===== verification/MountProps.thy ===== *)
theory MountProps
  imports HandlerFrames StoreProps FileProps
begin

section \<open>Properties of remote mounts\<close>

text \<open>
  Which mounts are ever configured, what mounting one shows to the host, and what editing one keeps.
\<close>

definition noMeta :: "string \<Rightarrow> bool" where
  "noMeta s \<longleftrightarrow> list_all (\<lambda>c. c \<notin> set metaChars) s"

definition mountOk :: "MountEntry \<Rightarrow> bool" where
  "mountOk e \<longleftrightarrow>
     meType e \<in> {''nfs'', ''nfs4'', ''cifs'', ''smb''} \<and>
     TrimSpace (meHost e) \<noteq> [] \<and> TrimSpace (meShare e) \<noteq> [] \<and>
     hd (meHost e) \<noteq> CHR ''-'' \<and> hd (meShare e) \<noteq> CHR ''-'' \<and>
     noMeta (meHost e) \<and> noMeta (meShare e) \<and> noMeta (meUsername e) \<and> noMeta (mePassword e) \<and> noMeta (meOptions e) \<and>
     IsAbs (meMountpoint e) \<and> \<not> Contains (meMountpoint e) ''..'' \<and> pathElems (meMountpoint e) \<noteq> [] \<and>
     hd (pathElems (meMountpoint e)) \<notin> {''proc'', ''sys'', ''dev'', ''run'', ''boot'', ''usr'', ''etc'', ''opt'', ''var''}"

lemma not_ContainsAny: "\<not> ContainsAny s metaChars \<Longrightarrow> noMeta s"
  by (simp only: ContainsAny_def noMeta_def list_ex_iff list_all_iff) blast

lemma forbidden_mount:
  assumes "IsAbs p" "\<not> Contains p ''..''" "forbiddenMountpoint p = None"
  shows "pathElems p \<noteq> [] \<and> hd (pathElems p) \<notin> {''proc'', ''sys'', ''dev'', ''run'', ''boot'', ''usr'', ''etc'', ''opt'', ''var''}"
proof -
  let ?ds = "[''proc'', ''sys'', ''dev'', ''run'', ''boot'', ''usr'', ''etc'', ''opt'', ''var'']"
  have "\<not> list_ex (atOrBelow (Clean p)) systemDirs"
    using assms(3) unfolding forbiddenMountpoint_def find_None_iff atOrBelow_def list_ex_iff by blast
  moreover have "systemDirs = ''/'' # map (\<lambda>d. ''/'' @ d) ?ds"
    by (simp add: systemDirs_def)
  moreover have "list_ex (atOrBelow (Clean p)) (''/'' # map (\<lambda>d. ''/'' @ d) ?ds) \<longleftrightarrow>
      pathElems p = [] \<or> hd (pathElems p) \<in> set ?ds"
    by (rule below_dirs [OF assms(1,2)]) simp
  ultimately have "\<not> (pathElems p = [] \<or> hd (pathElems p) \<in> set ?ds)" by metis
  then show ?thesis by simp
qed

lemma TrimSpace_Nil [simp]: "TrimSpace [] = []"
  by (simp add: TrimSpace_def TrimFunc_def TrimRightFunc_def TrimLeftFunc_def)

lemma hd_no_dash: "TrimSpace h \<noteq> [] \<Longrightarrow> \<not> HasPrefix h ''-'' \<Longrightarrow> hd h \<noteq> CHR ''-''"
  by (cases h) auto

lemma mount_validate_ok: "mount_validate e = Inr () \<Longrightarrow> mountOk e"
  using forbidden_mount [of "meMountpoint e"]
  by (auto simp: mount_validate_def mountOk_def isNfs_def isCifs_def hd_no_dash not_ContainsAny
      split: if_splits option.splits)

definition mountsOk :: "MountManager \<Rightarrow> bool" where
  "mountsOk m \<longleftrightarrow> keyed meID (sdata (mmStore m)) \<and> list_all (\<lambda>(k, e). mountOk e) (sdata (mmStore m))"

lemma mountsOk_put:
  "mountsOk m \<Longrightarrow> mountOk e \<Longrightarrow> mountsOk (m\<lparr>mmStore := fst (snd (storePut mount_enc meID ord env e (mmStore m) w))\<rparr>)"
  by (auto simp: mountsOk_def store_simps list_all_iff dest!: subsetD [OF set_gput])

lemma mountOk_update:
  "mountOk e \<Longrightarrow> mountOk (e\<lparr>meID := i\<rparr>)"
  "mountOk e \<Longrightarrow> mountOk old \<Longrightarrow> mountOk (e\<lparr>mePassword := mePassword old\<rparr>)"
  by (simp_all add: mountOk_def)

text \<open>What \<open>Upsert\<close> stores: the entry it was given, with an identifier and with the password it had.\<close>

definition upserted :: "string \<Rightarrow> MountEntry \<Rightarrow> MountManager \<Rightarrow> MountEntry" where
  "upserted newID e m =
     (let e = (if meID e = [] then e\<lparr>meID := newID\<rparr> else e)
      in case gget (meID e) (sdata (mmStore m)) of
           Some old \<Rightarrow> if mePassword e = [] then e\<lparr>mePassword := mePassword old\<rparr> else e
         | None \<Rightarrow> e)"

lemma mounts_Upsert_eq:
  "mounts_Upsert ord env newID e m w =
     (case mount_validate e of
        Inl x \<Rightarrow> (Inl x, m, w)
      | Inr _ \<Rightarrow>
          (case storePut mount_enc meID ord env (upserted newID e m) (mmStore m) w of
             (r, s, w) \<Rightarrow> (map_sum id (\<lambda>_. upserted newID e m) r, m\<lparr>mmStore := s\<rparr>, w)))"
  by (auto simp: mounts_Upsert_put upserted_def Let_def split: sum.split prod.split)

lemma upserted_ok: "mountsOk m \<Longrightarrow> mountOk e \<Longrightarrow> mountOk (upserted newID e m)"
  by (auto simp: upserted_def Let_def mountsOk_def list_all_iff split: option.split
      intro!: mountOk_update dest!: gget_SomeD)

lemma mountsOk_Upsert: "mountsOk m \<Longrightarrow> mountsOk (fst (snd (mounts_Upsert ord env newID e m w)))"
proof (cases "mount_validate e")
  case (Inr u)
  assume ok: "mountsOk m"
  with Inr have "mountOk (upserted newID e m)" by (simp add: upserted_ok mount_validate_ok)
  from mountsOk_put [OF ok this, of ord env w] Inr show ?thesis
    by (simp add: mounts_Upsert_eq split_beta)
qed (simp add: mounts_Upsert_eq)

lemma mountsOk_last [simp]: "mountsOk (m\<lparr>mmLast := l\<rparr>) = mountsOk m" "mountsOk (setError i r m) = mountsOk m"
  by (auto simp: mountsOk_def setError_def split: option.split)

lemma mountsOk_Delete: "mountsOk m \<Longrightarrow> mountsOk (fst (snd (mounts_Delete ord env i m w)))"
proof -
  assume "mountsOk m"
  then have "mountsOk (m\<lparr>mmStore := fst (snd (storeDel mount_enc ord env i (mmStore m) w))\<rparr>)"
    by (auto simp: mountsOk_def store_simps list_all_iff dest!: subsetD [OF set_gdel])
  then show ?thesis
    by (auto simp: mounts_Delete_del mountsOk_def split: prod.split)
qed

lemma mountsOk_Mount: "mountsOk m \<Longrightarrow> mountsOk (fst (snd (mounts_Mount env i m w)))"
  by (auto simp: mounts_Mount_def split: option.split sum.split prod.split)

lemma mountsOk_MountAllAuto: "mountsOk m \<Longrightarrow> mountsOk (fst (mounts_MountAllAuto ord env m w))"
proof -
  have "mountsOk m \<Longrightarrow> mountsOk (fst (fold (\<lambda>i (m, w). snd (mounts_Mount env i m w)) ids (m, w)))" for ids
  proof (induction ids arbitrary: m w)
    case (Cons i ids)
    obtain r m' w' where run: "mounts_Mount env i m w = (r, m', w')" by (metis prod.exhaust)
    with mountsOk_Mount [OF Cons.prems, of env i w] Cons.IH [of m' w'] show ?case by simp
  qed simp
  then show "mountsOk m \<Longrightarrow> mountsOk (fst (mounts_MountAllAuto ord env m w))"
    by (simp add: mounts_MountAllAuto_def)
qed

abbreviation keepsMounts :: "('a, 'h) handler \<Rightarrow> bool" where
  "keepsMounts \<equiv> keepsH (\<lambda>s s'. mountsOk (svMounts s) \<longrightarrow> mountsOk (svMounts s'))"

lemma mountsH_manager: "svMounts (snd (mountsH f s)) = fst (snd (f (svMounts s) (svWorld s)))"
  by (simp add: mountsH_def split: prod.split)

lemma keepsMounts_ops:
  "keepsMounts (mountsH (mounts_Upsert ord env i e))" "keepsMounts (mountsH (mounts_Mount env i))"
  "keepsMounts (mountsH (mounts_Delete ord env i))" "keepsMounts (mountsH (unmountM env i))"
  by (simp_all add: keepsH_def mountsH_manager mountsOk_Upsert mountsOk_Mount mountsOk_Delete unmountM_def split: prod.split)

lemma mounts_request: "keepsMounts (rootHandler cfg cx rq)"
  by (intro mounts_frame.keepsH_rootHandler mounts_frame.keepsH_listVMs mounts_frame.keepsH_vmEntry_any
      mounts_frame.keepsH_autostartItem mounts_frame.keepsH_mountsCollection mounts_frame.keepsH_mountsItem
      mounts_frame.keepsH_scheduleItem mounts_frame.keepsH_backupItem mounts_frame.keepsH_usbDomain
      mounts_frame.keepsH_pciDomain mounts_frame.keepsH_vncDomain mounts_frame.keepsH_tpmDomain
      keepsMounts_ops store_rules; simp)

lemma mounts_step: "mountsOk (svMounts s) \<Longrightarrow> mountsOk (svMounts (step cfg sr ev s))"
  using mounts_frame.S.keepsH_run [OF mounts_request, where s = s]
    mountsOk_MountAllAuto [of "svMounts s" "cxMountOrder (srCtx sr)" "cxEnv (srCtx sr)" "svWorld s"]
  by (auto simp: step_def Let_def serve_def onWorldS_def runBackups_def split: event.split prod.split list.split)

text \<open>
  C16: only sane mounts are ever configured. In every state the daemon reaches from an empty mount list, each
  entry is stored under its own identifier and is of a known type; its host and share are not blank and
  cannot be taken for an option; its mountpoint is an absolute path without \<open>..\<close> whose first
  component is none of the nine system directories; and its host, share, user name, password and options have none
  of the shell characters in \<open>metaChars\<close> and no newline. Nothing is claimed of the characters of the
  mountpoint and the name, which the code does not check, nor of the carriage return.
\<close>

theorem mounts_valid:
  assumes "reachable cfg s0 s" "sdata (mmStore (svMounts s0)) = []"
  shows "keyed meID (sdata (mmStore (svMounts s))) \<and> list_all (\<lambda>(k, e). mountOk e) (sdata (mmStore (svMounts s)))"
proof -
  have "mountsOk (svMounts s)"
    using assms by (induction) (auto intro: mounts_step, auto simp: mountsOk_def)
  then show ?thesis by (simp add: mountsOk_def)
qed

definition demoMount :: MountEntry where
  "demoMount = \<lparr>meID = ''0a'', meName = ''nas'', meType = ''smb'', meHost = ''nas.lan'', meShare = ''media'',
     meMountpoint = ''/media/nas'', meUsername = ''me'', mePassword = [], meReadOnly = True, meAutoMount = True,
     meOptions = []\<rparr>"

theorem mounts_valid_witness:
  "let s = step demoCfg (demoSurroundings quietEnv) (Request (demoRequest ''POST'' ''/api/mounts'' (mount_enc demoMount)))
         demoServer
   in keyed meID (sdata (mmStore (svMounts s))) \<and> list_all (\<lambda>(k, e). mountOk e) (sdata (mmStore (svMounts s)))"
  using mounts_valid [OF reachable.more [OF reachable.init], of "demoSurroundings quietEnv" demoServer demoCfg
      "Request (demoRequest ''POST'' ''/api/mounts'' (mount_enc demoMount))"]
  by (simp add: demo_orders demoServer_def Let_def)

subsection \<open>Editing\<close>

text \<open>
  C26: editing a mount without giving its password again keeps the password, and the edit survives a restart.
  After an \<open>Upsert\<close> that reports success the stored entry is the one that was sent, with a fresh
  identifier if it had none and with the old password if it had none; it passed validation; the other
  entries are as they were; and opening the list again finds the same.
\<close>

theorem mounts_upsert_keeps_password:
  assumes "mount_json.wfStore (mmStore m)" "is_order ord"
    and up: "mounts_Upsert ord env newID e m w = (Inr saved, m1, w1)"
    and "\<not> osFault env OpRead (Path (mmStore m)) (files w1)"
  shows "meID saved = (if meID e = [] then newID else meID e) \<and>
    mePassword saved = (if mePassword e \<noteq> [] then mePassword e
      else case gget (meID saved) (sdata (mmStore m)) of None \<Rightarrow> [] | Some old \<Rightarrow> mePassword old) \<and>
    e\<lparr>meID := meID saved, mePassword := mePassword saved\<rparr> = saved \<and> mount_validate e = Inr () \<and>
    (\<exists>m'. mounts_New env w1 (Path (mmStore m)) = Inr m' \<and>
      (\<forall>k. gget k (sdata (mmStore m')) = (if k = meID saved then Some saved else gget k (sdata (mmStore m)))))"
proof -
  have valid: "mount_validate e = Inr ()" and saved: "saved = upserted newID e m"
    and put: "storePut mount_enc meID ord env (upserted newID e m) (mmStore m) w = (Inr (), mmStore m1, w1)"
    using up by (auto simp: mounts_Upsert_eq map_sum_def split: sum.splits prod.splits)
  have "\<exists>m'. mounts_New env w1 (Path (mmStore m)) = Inr m' \<and>
      (\<forall>k. gget k (sdata (mmStore m')) = (if k = meID saved then Some saved else gget k (sdata (mmStore m))))"
    using mount_json.open_after_put [OF assms(1) TrueI assms(2) put assms(4), where msg = "''mounts decode: %w''"] saved
    by (auto simp: mounts_New_def mounts_load_def storeOpen_def split del: if_split)
  then show ?thesis
    unfolding saved using valid by (cases e) (auto simp: upserted_def Let_def split: option.split)
qed

definition demoMounts :: MountManager where
  "demoMounts = \<lparr>mmStore = \<lparr>Path = ''/d/mounts.json'', sdata = [(''0a'', demoMount\<lparr>mePassword := ''old''\<rparr>)]\<rparr>, mmLast = []\<rparr>"

theorem mounts_upsert_keeps_password_witness:
  "\<exists>saved m1 w1. mounts_Upsert id quietEnv ''ff'' demoMount demoMounts emptyWorld = (Inr saved, m1, w1) \<and>
     mePassword saved = ''old'' \<and>
     (\<exists>m'. mounts_New quietEnv w1 ''/d/mounts.json'' = Inr m' \<and> gget ''0a'' (sdata (mmStore m')) = Some saved)"
proof -
  have wf: "mount_json.wfStore (mmStore demoMounts)"
    by (simp add: mount_json.wfStore_def demoMounts_def demoMount_def keyed_def gmap_ok_def)
  have "mount_validate demoMount = Inr ()" by code_simp
  then obtain saved m1 w1 where r: "mounts_Upsert id quietEnv ''ff'' demoMount demoMounts emptyWorld = (Inr saved, m1, w1)"
    by (simp add: mounts_Upsert_eq put_quiet)
  from mounts_upsert_keeps_password [OF wf is_order_id(1) r] r show ?thesis
    by (auto simp: demoMounts_def demoMount_def gget_def)
qed

subsection \<open>Mounting\<close>

lemma runCmd_frame:
  "files (snd (mounts_runCmd env name args w)) = files w"
  "cmds (snd (mounts_runCmd env name args w)) = cmds w @ [\<lparr>cProg = name, cArgs = args, cSeen = files w\<rparr>]"
  using files_os_exec [of env name args w] cmds_os_exec [of env name args w]
  by (auto simp: mounts_runCmd_def split: prod.splits exec_result.splits)

lemma cifsBody_frame:
  "ranSince w (snd (cifsBody env e c w)) \<in> {[], [cifsArgs c e]}"
  "p \<noteq> c \<Longrightarrow> files (snd (cifsBody env e c w)) p = files w p"
  by (auto simp: cifsBody_def os_WriteFile_def os_Chmod_def ranSince_def runCmd_frame split: if_split)

lemma os_Remove_effect:
  "\<not> osFault env OpRemove c (files w) \<Longrightarrow> files (snd (os_Remove env c w)) = (files w)(c := None)"
  "cmds (snd (os_Remove env c w)) = cmds w"
  by (auto simp: os_Remove_def)

lemma cifs_cleanup:
  assumes "\<And>p fs. \<not> osFault env OpRemove p fs" "files w c = None"
  shows "files (snd (os_Remove env c (snd (cifsBody env e c (w\<lparr>files := (files w)(c \<mapsto> Text [])\<rparr>))))) = files w"
  using assms(2) cifsBody_frame(2) [of _ c env e "w\<lparr>files := (files w)(c \<mapsto> Text [])\<rparr>"]
  by (auto simp: os_Remove_effect assms(1))

lemma doMountCIFS_frame:
  assumes "\<And>p fs. \<not> osFault env OpRemove p fs"
  shows "files (snd (doMountCIFS env e w)) = files w \<and> (\<exists>c. ranSince w (snd (doMountCIFS env e w)) \<in> {[], [cifsArgs c e]})"
proof (cases "os_CreateTemp env ''/run'' ''zvmx-cifs-'' ''.creds'' w")
  case (Pair r w')
  show ?thesis
  proof (cases r)
    case (Inl x)
    with Pair show ?thesis by (auto simp: doMountCIFS_def os_CreateTemp_def Let_def split: if_splits)
  next
    case (Inr c)
    with Pair have c: "files w c = None" "w' = w\<lparr>files := (files w)(c \<mapsto> Text [])\<rparr>"
      by (auto simp: os_CreateTemp_def Let_def split: if_splits)
    have "snd (doMountCIFS env e w) = snd (os_Remove env c (snd (cifsBody env e c w')))"
      using Pair Inr by (simp add: doMountCIFS_def split: prod.split)
    with cifs_cleanup [OF assms c(1), of e] cifsBody_frame(1) [of w' env e c] c(2) show ?thesis
      by (auto simp: ranSince_def os_Remove_effect)
  qed
qed

text \<open>
  C15: mounting a share leaves no secret behind. Unless the operating system refuses to remove a file, after
  \<open>Mount\<close> every file is as it was before, whatever failed on the way, so the file with the user name and the
  password is gone; and the only program it may have run is \<open>mount\<close>, once, with arguments that
  do not depend on the user name or on the password.
\<close>

theorem mount_leaves_no_secret:
  assumes "\<And>p fs. \<not> osFault env OpRemove p fs" "gget i (sdata (mmStore m)) = Some e"
  shows "files (snd (snd (mounts_Mount env i m w))) = files w \<and>
    (\<exists>c. ranSince w (snd (snd (mounts_Mount env i m w))) \<in> {[],
      [nfsArgs (e\<lparr>meUsername := [], mePassword := []\<rparr>)], [cifsArgs c (e\<lparr>meUsername := [], mePassword := []\<rparr>)]})"
proof -
  have args: "nfsArgs (e\<lparr>meUsername := [], mePassword := []\<rparr>) = nfsArgs e"
    "cifsArgs c (e\<lparr>meUsername := [], mePassword := []\<rparr>) = cifsArgs c e" for c
    by (simp_all add: nfsArgs_def cifsArgs_def)
  have "files (snd (doMount env e w)) = files w \<and> (\<exists>c. ranSince w (snd (doMount env e w)) \<in> {[], [nfsArgs e], [cifsArgs c e]})"
    using doMountCIFS_frame [OF assms(1), of e w] runCmd_frame [of env mountBin "nfsArgs e" w]
    by (auto simp: doMount_def doMountNFS_def ranSince_def)
  then show ?thesis
    using assms(2) by (auto simp: mounts_Mount_def args split: sum.split prod.split)
qed

theorem mount_leaves_no_secret_witness:
  "files (snd (snd (mounts_Mount quietEnv ''0a'' demoMounts emptyWorld))) = files emptyWorld"
  using mount_leaves_no_secret [of quietEnv "''0a''" demoMounts "demoMount\<lparr>mePassword := ''old''\<rparr>" emptyWorld]
  by (simp add: demoMounts_def gget_def)

end
