(* ===== verification/ArgsProps.thy ===== *)
theory ArgsProps
  imports HandlerFrames StoreProps
begin

section \<open>Properties of the commands a request runs\<close>

text \<open>
  No request can make \<open>virsh\<close> take a caller's word for one of its options: \<open>handlers\<close> at the
  relation that adds only such commands (\<open>safe_frame\<close>), with its premises for the stores here.
\<close>

definition onlySafe :: "Client \<Rightarrow> 'h server \<Rightarrow> 'h server \<Rightarrow> bool" where
  "onlySafe c = onWorld (cmdsExt (cmdSafe c))"

lemma onlySafe_same: "cmds (svWorld s') = cmds (svWorld s) \<Longrightarrow> onlySafe c s s'"
  by (simp add: onlySafe_def onWorld_def cmdsExt_same)

lemma onlySafe_store:
  "(\<And>st w. cmds (snd (snd (f1 st w))) = cmds w) \<Longrightarrow> keepsH (onlySafe c) (usbH f1)"
  "(\<And>st w. cmds (snd (snd (f2 st w))) = cmds w) \<Longrightarrow> keepsH (onlySafe c) (pciH f2)"
  "(\<And>st w. cmds (snd (snd (f3 st w))) = cmds w) \<Longrightarrow> keepsH (onlySafe c) (vncH f3)"
  "(\<And>st w. cmds (snd (snd (f4 st w))) = cmds w) \<Longrightarrow> keepsH (onlySafe c) (tpmH f4)"
  "(\<And>st w. cmds (snd (snd (f5 st w))) = cmds w) \<Longrightarrow> keepsH (onlySafe c) (autoH f5)"
  "(\<And>st w. cmds (snd (snd (f6 st w))) = cmds w) \<Longrightarrow> keepsH (onlySafe c) (schedH f6)"
  by (auto simp: keepsH_def usbH_def pciH_def vncH_def tpmH_def autoH_def schedH_def split: prod.split
      intro!: onlySafe_same dest!: arg_cong [where f = "\<lambda>r. cmds (snd (snd r))"])

lemma cmds_stores:
  "cmds (snd (snd (usb_Add ord1 env p st1 w))) = cmds w" "cmds (snd (snd (usb_Remove ord1 env vm v q st1 w))) = cmds w"
  "cmds (snd (snd (pci_Add ord2 env pp st2 w))) = cmds w" "cmds (snd (snd (pci_Remove ord2 env vm a st2 w))) = cmds w"
  "cmds (snd (snd (vnc_Set ord3 env e st3 w))) = cmds w" "cmds (snd (snd (vnc_Remove ord3 env vm st3 w))) = cmds w"
  "cmds (snd (snd (tpm_Pin ord4 env vm st4 w))) = cmds w" "cmds (snd (snd (tpm_Unpin ord4 env vm st4 w))) = cmds w"
  by (simp_all add: usb_Add_put usb_Remove_del pci_Add_put pci_Remove_del vnc_Set_put vnc_Remove_del tpm_Pin_put
      tpm_Unpin_del store_simps)

lemma cmds_auto:
  "cmds (snd (snd (auto_Set ord env e st w))) = cmds w" "cmds (snd (snd (auto_Delete ord env n st w))) = cmds w"
  by (auto simp: auto_Set_put auto_Delete_del store_simps Let_def split: prod.split sum.split)
    (metis snd_conv store_simps(4))+

lemma cmds_sched:
  "cmds (snd (snd (sched_Upsert ord env e st w))) = cmds w" "cmds (snd (snd (sched_Delete ord env n st w))) = cmds w"
  by (auto simp: sched_Upsert_put sched_Delete_del store_simps Let_def split: prod.split sum.split option.split)
    (metis snd_conv store_simps(4))+

lemma onlySafe_mountsH:
  "(\<And>m w. cmdsExt (cmdSafe c) w (snd (snd (f m w)))) \<Longrightarrow> keepsH (onlySafe c) (mountsH f)"
  by (auto simp: keepsH_def mountsH_def onlySafe_def onWorld_def split: prod.split) (metis snd_conv)

lemma onlySafe_backupH:
  "(\<And>m w. cmdsExt (cmdSafe c) w (snd (snd (f m w)))) \<Longrightarrow> keepsH (onlySafe c) (backupH f)"
  by (auto simp: keepsH_def backupH_def onlySafe_def onWorld_def split: prod.split) (metis snd_conv)

lemma mount_runs: "name \<in> {mountBin, umountBin} \<Longrightarrow> cmdsExt (cmdSafe c) w (snd (mounts_runCmd env name args w))"
  using cmds_os_exec [of env name args w]
  by (auto simp: mounts_runCmd_def cmdsExt_def cmdSafe_def otherBins_def mountBin_def umountBin_def
      split: prod.splits exec_result.splits)

lemma cmds_os [simp]:
  "cmds (snd (os_WriteFile env p x w)) = cmds w" "cmds (snd (os_Remove env p w)) = cmds w"
  "cmds (snd (os_CreateTemp env d a b w)) = cmds w"
  by (simp_all add: os_WriteFile_def os_Remove_def os_CreateTemp_def Let_def)

lemma cmds_osE:
  "os_WriteFile env p x w = (r, w') \<Longrightarrow> cmds w' = cmds w"
  "os_CreateTemp env d a b w = (r', w') \<Longrightarrow> cmds w' = cmds w"
  by (metis cmds_os snd_conv)+

lemma cmdsExt_from: "cmds w1 = cmds w \<Longrightarrow> cmdsExt P w1 w2 \<Longrightarrow> cmdsExt P w w2"
  by (simp add: cmdsExt_def)

lemma cmdsExt_to: "cmds w2 = cmds w1 \<Longrightarrow> cmdsExt P w w1 \<Longrightarrow> cmdsExt P w w2"
  by (simp add: cmdsExt_def)

lemma doMount_runs: "cmdsExt (cmdSafe c) w (snd (doMount env e w))"
proof -
  have body: "cmdsExt (cmdSafe c) w (snd (cifsBody env e p w))" for p and w :: "'a world"
    unfolding cifsBody_def
    by (auto split: prod.split sum.split dest!: cmds_osE(1) intro: cmdsExt_same cmdsExt_from mount_runs)
  have "cmdsExt (cmdSafe c) w (snd (doMountCIFS env e w))"
    unfolding doMountCIFS_def
    by (auto split: prod.split sum.split dest!: cmds_osE(2) intro: cmdsExt_same)
      (metis body cmds_os(2) cmdsExt_from cmdsExt_to snd_conv)
  then show ?thesis by (simp add: doMount_def doMountNFS_def mount_runs)
qed

lemma mounts_run:
  "cmdsExt (cmdSafe c) w (snd (snd (mounts_Mount env i m w)))"
  "cmdsExt (cmdSafe c) w (snd (snd (unmountM env i m w)))"
  "cmdsExt (cmdSafe c) w (snd (snd (mounts_Delete ord env i m w)))"
  "cmdsExt (cmdSafe c) w (snd (snd (mounts_Upsert ord env i e m w)))"
  by (auto simp: mounts_Mount_def unmountM_def mounts_Unmount_def mounts_Delete_del mounts_Upsert_put Let_def
      split_beta store_simps doMount_runs mount_runs split: option.split sum.split intro!: cmdsExt_same)

lemma backup_Start_run:
  assumes "noDash vm"
  shows "cmdsExt (cmdSafe c) w (snd (snd (backup_Start ord env (backup_controller env c) i st now vm d m w)))"
proof -
  note k = args_frame.keeps_State args_frame.keeps_DumpXML args_frame.keeps_DomainDisks
  have calls: "keeps (cmdsExt (cmdSafe c)) (virsh_State env c vm)" "keeps (cmdsExt (cmdSafe c)) (virsh_DumpXML env c vm)"
    "keeps (cmdsExt (cmdSafe c)) (virsh_DomainDisks env c vm)"
    using assms by (auto intro!: k simp: safeCmd_def safeArgs_rules knownFlags_def)
  show ?thesis
    unfolding backup_Start_def backup_controller_def
    by (auto split: prod.split sum.split simp: Let_def dest!: calls [THEN keepsE] intro: cmdsExt_trans)
qed

text \<open>
  C2: no request, whatever its method, path and body, makes \<open>virsh\<close> read a caller's word as an option. Each
  command that a request runs, except those that list all domains, has only arguments that do not start with
  a dash, options that the code itself writes, or the value after one of the code's options that
  take a value; the one argument not checked is the interface type that libvirt itself reported.
\<close>

theorem request_args_safe:
  assumes "stripRoutePath (cfRoutePath cfg) (rqPath rq) \<noteq> ''/api/vms''"
  shows "\<exists>cs. cmds (svWorld (snd (serve cfg cx rq s))) = cmds (svWorld s) @ cs \<and> list_all (cmdSafe (cxVirsh cx)) cs"
proof -
  have "keepsH (onlySafe (cxVirsh cx)) (rootHandler cfg cx rq)"
    unfolding onlySafe_def using assms
    by (intro safe_frame.keepsH_rootHandler safe_frame.keepsH_autostartItem safe_frame.keepsH_mountsCollection
        safe_frame.keepsH_mountsItem safe_frame.keepsH_scheduleItem safe_frame.keepsH_backupItem
        safe_frame.keepsH_usbDomain safe_frame.keepsH_pciDomain safe_frame.keepsH_vncDomain safe_frame.keepsH_tpmDomain
        onlySafe_store [unfolded onlySafe_def] onlySafe_mountsH [unfolded onlySafe_def]
        onlySafe_backupH [unfolded onlySafe_def] cmds_stores cmds_auto cmds_sched mounts_run backup_Start_run)
      simp_all
  then have "onlySafe (cxVirsh cx) s (snd (serve cfg cx rq s))"
    unfolding serve_def onlySafe_def by (rule safe_frame.S.keepsH_run)
  then show ?thesis by (simp add: onlySafe_def onWorld_def cmdsExt_def)
qed

theorem request_args_safe_witness:
  "let rq = demoRequest ''POST'' ''/api/snapshot/win'' (JObj [(''name'', JStr ''--force'')])
   in \<exists>cs. cmds (svWorld (snd (serve demoCfg (demoCtx quietEnv) rq demoServer))) = cmds (svWorld demoServer) @ cs \<and>
     list_all (cmdSafe (virsh_New [])) cs"
proof -
  have "stripRoutePath (cfRoutePath demoCfg) ''/api/snapshot/win'' \<noteq> ''/api/vms''" by code_simp
  moreover have "cxVirsh (demoCtx quietEnv) = virsh_New []" by (simp add: demoCtx_def)
  ultimately show ?thesis
    unfolding Let_def
    using request_args_safe [of demoCfg "demoRequest ''POST'' ''/api/snapshot/win'' (JObj [(''name'', JStr ''--force'')])"
        "demoCtx quietEnv" demoServer]
    by (metis demoRequest_def request.select_convs(2))
qed

end
