(* ===== verification/ReconcileProps.thy ===== *)
theory ReconcileProps
  imports StoreProps TpmXmlProofs VncXmlProofs
begin

section \<open>Properties of the reconcilers\<close>

text \<open>
  What a round of a reconciler makes of the domains. \<open>libvirt\<close> is what the code relies on of \<open>virsh\<close>:
  \<open>doc\<close> reads the inactive documents off the state of the host, \<open>nameOf\<close> is the name of the domain that a document
  defines (a name that no domain has, for a document that libvirt refuses), and \<open>define\<close> replaces the document of an existing domain by the text of the file it is given,
  up to the form \<open>norm\<close> that libvirt writes it in. Reading changes nothing.
\<close>

definition libvirt ::
  "'h env \<Rightarrow> Client \<Rightarrow> ('h \<Rightarrow> string \<Rightarrow> string option) \<Rightarrow> (string \<Rightarrow> string) \<Rightarrow> (string \<Rightarrow> string) \<Rightarrow> bool" where
  "libvirt env c doc nameOf norm \<longleftrightarrow>
     (\<forall>fs h d x. doc h d = Some x \<longrightarrow> nameOf x = d \<and>
        (\<exists>st. exec env (Bin c) [''domstate'', d] fs h = (ExecOK st, h)) \<and>
        exec env (Bin c) [''dumpxml'', ''--inactive'', ''--security-info'', d] fs h = (ExecOK x, h)) \<and>
     (\<forall>fs h d. doc h d = None \<longrightarrow> (\<exists>out err ex. exec env (Bin c) [''domstate'', d] fs h = (ExecFail out err ex, h))) \<and>
     (\<forall>fs h p x. fs p = Some (Text x) \<longrightarrow> doc h (nameOf x) \<noteq> None \<longrightarrow>
        (\<exists>out h'. exec env (Bin c) [''define'', p] fs h = (ExecOK out, h') \<and> doc h' = (doc h)(nameOf x \<mapsto> norm x)))"

text \<open>An operating system that refuses nothing, and a temporary name that is free.\<close>

definition calm :: "'h env \<Rightarrow> fileset \<Rightarrow> bool" where
  "calm env fs \<longleftrightarrow> (\<forall>op p fs. \<not> osFault env op p fs) \<and> fs (''/tmp/zvmx-'' @ tmpTag env fs @ ''.xml'') = None"

lemma libvirt_define:
  assumes "libvirt env c doc nameOf norm" "fs p = Some (Text x)" "doc h (nameOf x) \<noteq> None"
  shows "\<exists>out h'. exec env (Bin c) [''define'', p] fs h = (ExecOK out, h') \<and> doc h' = (doc h)(nameOf x \<mapsto> norm x)"
  using assms(1) [unfolded libvirt_def, THEN conjunct2, THEN conjunct2] assms(2,3) by blast

lemma virsh_calls:
  assumes "libvirt env c doc nameOf norm"
  shows "doc (hyp w) d = Some x \<Longrightarrow> \<exists>st w'. virsh_State env c d w = (Inr st, w') \<and> files w' = files w \<and> hyp w' = hyp w"
    "doc (hyp w) d = None \<Longrightarrow> \<exists>e w'. virsh_State env c d w = (Inl e, w') \<and> files w' = files w \<and> hyp w' = hyp w"
    "doc (hyp w) d = Some x \<Longrightarrow> \<exists>w'. dumpInactive env c d w = (Inr x, w') \<and> files w' = files w \<and> hyp w' = hyp w"
proof -
  assume "doc (hyp w) d = Some x"
  with assms obtain st where st: "exec env (Bin c) [''domstate'', d] (files w) (hyp w) = (ExecOK st, hyp w)"
    "exec env (Bin c) [''dumpxml'', ''--inactive'', ''--security-info'', d] (files w) (hyp w) = (ExecOK x, hyp w)"
    unfolding libvirt_def by blast
  show "\<exists>st w'. virsh_State env c d w = (Inr st, w') \<and> files w' = files w \<and> hyp w' = hyp w"
    by (simp add: virsh_State_def bindAct_def Client_run_def os_exec_def st retAct_def)
  show "\<exists>w'. dumpInactive env c d w = (Inr x, w') \<and> files w' = files w \<and> hyp w' = hyp w"
    by (simp add: dumpInactive_def Client_run_def os_exec_def st)
next
  assume "doc (hyp w) d = None"
  with assms obtain out err ex where st: "exec env (Bin c) [''domstate'', d] (files w) (hyp w) = (ExecFail out err ex, hyp w)"
    unfolding libvirt_def by metis
  show "\<exists>e w'. virsh_State env c d w = (Inl e, w') \<and> files w' = files w \<and> hyp w' = hyp w"
    by (simp add: virsh_State_def bindAct_def Client_run_def os_exec_def st)
qed

text \<open>A command on a temporary file sees the file and leaves none.\<close>

lemma with_temp_run:
  assumes "calm env (files w)"
  obtains t where
    "\<And>out h'. exec env (Bin c) (args t) ((files w)(t \<mapsto> Text y)) (hyp w) = (ExecOK out, h') \<Longrightarrow>
      \<exists>w'. withTempXML env y (\<lambda>tmp. runCmd env c (args tmp)) w = (Inr (), w') \<and> files w' = files w \<and> hyp w' = h'"
proof -
  obtain t where t: "t = ''/tmp/zvmx-'' @ tmpTag env (files w) @ ''.xml''" "files w t = None"
    using assms by (simp add: calm_def)
  have quiet: "\<not> osFault env op p fs" for op p fs using assms by (simp add: calm_def)
  have made: "os_CreateTemp env ''/tmp'' ''zvmx-'' ''.xml'' w = (Inr t, w\<lparr>files := (files w)(t \<mapsto> Text [])\<rparr>)"
    using t quiet by (simp add: os_CreateTemp_def Let_def)
  have temp: "writeTempXML env y w = (Inr t, w\<lparr>files := (files w)(t \<mapsto> Text y)\<rparr>)"
    using quiet by (simp add: writeTempXML_def bindAct_def made os_WriteFile_def)
  have "\<exists>w'. withTempXML env y (\<lambda>tmp. runCmd env c (args tmp)) w = (Inr (), w') \<and> files w' = files w \<and> hyp w' = h'"
    if "exec env (Bin c) (args t) ((files w)(t \<mapsto> Text y)) (hyp w) = (ExecOK out, h')" for out h'
    using that t(2) quiet
    by (simp add: withTempXML_def bindAct_def temp runCmd_def Client_run_def os_exec_def retAct_def removeTemp_def
        os_Remove_def fun_upd_idem)
  then show ?thesis by (rule that)
qed

lemma with_temp_define:
  assumes lv: "libvirt env c doc nameOf norm" and calm: "calm env (files w)" and dom: "doc (hyp w) (nameOf y) \<noteq> None"
  shows "\<exists>w'. withTempXML env y (\<lambda>tmp. runCmd env c [''define'', tmp]) w = (Inr (), w') \<and> files w' = files w \<and>
    doc (hyp w') = (doc (hyp w))(nameOf y \<mapsto> norm y)"
proof -
  from calm obtain t where t: "\<And>out h'. exec env (Bin c) [''define'', t] ((files w)(t \<mapsto> Text y)) (hyp w) = (ExecOK out, h') \<Longrightarrow>
      \<exists>w'. withTempXML env y (\<lambda>tmp. runCmd env c [''define'', tmp]) w = (Inr (), w') \<and> files w' = files w \<and> hyp w' = h'"
    using with_temp_run [where args = "\<lambda>t. [''define'', t]" and y = y] by metis
  have "((files w)(t \<mapsto> Text y)) t = Some (Text y)" by simp
  from libvirt_define [where doc = doc and h = "hyp w" and nameOf = nameOf and x = y and fs = "(files w)(t \<mapsto> Text y)", OF lv this dom]
  obtain out h' where "exec env (Bin c) [''define'', t] ((files w)(t \<mapsto> Text y)) (hyp w) = (ExecOK out, h')"
    "doc h' = (doc (hyp w))(nameOf y \<mapsto> norm y)" by blast
  with t show ?thesis by metis
qed

text \<open>Dump, edit and define: the domain's document becomes the edited one.\<close>

lemma redefine_effect:
  assumes lv: "libvirt env c doc nameOf norm" and calm: "calm env (files w)" and dom: "doc (hyp w) d = Some x"
    and name: "\<And>y. edit x = Inr y \<Longrightarrow> nameOf y = d"
    and at: "files w = fs" "hyp w = h"
  shows "\<exists>w'. redefine env c d edit w = (map_sum id (\<lambda>_. ()) (edit x), w') \<and> files w' = fs \<and>
    doc (hyp w') = (case edit x of Inl _ \<Rightarrow> doc h | Inr y \<Rightarrow> (doc h)(d \<mapsto> norm y))"
proof -
  obtain w1 where w1: "dumpInactive env c d w = (Inr x, w1)" "files w1 = files w" "hyp w1 = hyp w"
    using virsh_calls(3) [OF lv dom] by blast
  show ?thesis
  proof (cases "edit x")
    case (Inl e)
    with w1 at show ?thesis by (auto simp: redefine_def bindAct_def failAct_def)
  next
    case (Inr y)
    with name dom w1 have "doc (hyp w1) (nameOf y) \<noteq> None" "nameOf y = d" by simp_all
    with with_temp_define [OF lv, of w1 y] calm w1 at Inr show ?thesis
      by (auto simp: redefine_def bindAct_def)
  qed
qed

text \<open>
  A round that repairs each of several domains by itself: when it comes to a domain, its document is still
  the one it had at first.
\<close>

lemma fold_repairs_from:
  assumes step: "\<And>p w. p \<in> set ps \<Longrightarrow> files w = fs \<Longrightarrow> doc (hyp w) (dm p) = D (dm p) \<Longrightarrow> files (run p w) = fs \<and>
      doc (hyp (run p w)) = (doc (hyp w))(dm p := map_option (fx p) (D (dm p)))"
    and "distinct (map dm ps)" "files w = fs" "\<And>p. p \<in> set ps \<Longrightarrow> doc (hyp w) (dm p) = D (dm p)"
  shows "files (fold run ps w) = fs \<and> doc (hyp (fold run ps w)) = (\<lambda>d. case find (\<lambda>p. dm p = d) ps of
      None \<Rightarrow> doc (hyp w) d | Some p \<Rightarrow> map_option (fx p) (doc (hyp w) d))"
  using assms
proof (induction ps arbitrary: w)
  case (Cons p ps)
  have D: "doc (hyp w) (dm p) = D (dm p)" using Cons.prems(4) by simp
  have p: "files (run p w) = fs" "doc (hyp (run p w)) = (doc (hyp w))(dm p := map_option (fx p) (D (dm p)))"
    using Cons.prems(1) [OF list.set_intros(1) Cons.prems(3) D] by blast+
  have other: "dm q \<noteq> dm p" if "q \<in> set ps" for q
    using Cons.prems(2) that by (metis distinct.simps(2) image_eqI list.set_map list.simps(9))
  then have none: "find (\<lambda>q. dm q = dm p) ps = None" by (auto simp: find_None_iff)
  have p2: "doc (hyp (run p w)) = (doc (hyp w))(dm p := map_option (fx p) (doc (hyp w) (dm p)))"
    by (simp only: p(2) D)
  have "files (fold run ps (run p w)) = fs \<and> doc (hyp (fold run ps (run p w))) = (\<lambda>d. case find (\<lambda>p. dm p = d) ps of
      None \<Rightarrow> doc (hyp (run p w)) d | Some q \<Rightarrow> map_option (fx q) (doc (hyp (run p w)) d))"
  proof (rule Cons.IH [OF Cons.prems(1)])
    show "doc (hyp (run p w)) (dm q) = D (dm q)" if "q \<in> set ps" for q
      using p(2) other [OF that] Cons.prems(4) [of q] that by simp
  qed (use Cons.prems(2) p(1) in simp_all)
  with none p2 show ?case
    by (auto simp: fun_eq_iff fun_upd_def split: option.split)
qed simp

lemma fold_repairs:
  assumes "\<And>p w. p \<in> set ps \<Longrightarrow> files w = fs \<Longrightarrow> files (run p w) = fs \<and>
      doc (hyp (run p w)) = (doc (hyp w))(dm p := map_option (fx p) (doc (hyp w) (dm p)))"
    and "distinct (map dm ps)" "files w = fs"
  shows "files (fold run ps w) = fs \<and> doc (hyp (fold run ps w)) = (\<lambda>d. case find (\<lambda>p. dm p = d) ps of
      None \<Rightarrow> doc (hyp w) d | Some p \<Rightarrow> map_option (fx p) (doc (hyp w) d))"
  by (rule fold_repairs_from [where D = "doc (hyp w)" and dm = dm]) (use assms in \<open>simp_all del: fun_upd_apply\<close>)

subsection \<open>TPM devices\<close>

text \<open>The document a round leaves: unchanged if it declares a TPM, else with one added where that works.\<close>

definition tpmFix :: "(string \<Rightarrow> string) \<Rightarrow> string \<Rightarrow> string" where
  "tpmFix norm x =
     (if fst (tpmInfoXML x) then x else case setTPMXML x True of Inl _ \<Rightarrow> x | Inr y \<Rightarrow> norm y)"

lemma tpm_run1:
  assumes lv: "libvirt env c doc nameOf norm" and calm: "calm env (files w)"
    and name: "\<And>x y. setTPMXML x True = Inr y \<Longrightarrow> nameOf y = nameOf x"
  shows "files (snd (tpm_reconcile1 (tpm_controller env c) d w)) = files w \<and>
    doc (hyp (snd (tpm_reconcile1 (tpm_controller env c) d w))) =
      (doc (hyp w))(d := map_option (tpmFix norm) (doc (hyp w) d))"
proof (cases "doc (hyp w) d")
  case None
  with virsh_calls(2) [OF lv None] show ?thesis
    by (auto simp: tpm_reconcile1_def tpm_controller_def bindAct_def fun_eq_iff)
next
  case (Some x)
  obtain st w1 where w1: "virsh_State env c d w = (Inr st, w1)" "files w1 = files w" "hyp w1 = hyp w"
    using virsh_calls(1) [where doc = doc and w = w, OF lv Some] by blast
  with Some have "doc (hyp w1) d = Some x" by simp
  then obtain w2 where w2: "dumpInactive env c d w1 = (Inr x, w2)" "files w2 = files w" "hyp w2 = hyp w"
    using virsh_calls(3) [where doc = doc and w = w1, OF lv] w1 by metis
  show ?thesis
  proof (cases "fst (tpmInfoXML x)")
    case True
    with w1 w2 Some show ?thesis
      by (auto simp: tpm_reconcile1_def tpm_controller_def bindAct_def virsh_TPMInfo_def retAct_def tpmFix_def
          fun_eq_iff split: prod.split)
  next
    case False
    have "doc (hyp w2) d = Some x" "calm env (files w2)" "nameOf x = d"
      using w2 Some calm lv by (simp_all add: libvirt_def)
    then obtain w3 where w3: "virsh_SetTPM env c d True w2 = (map_sum id (\<lambda>_. ()) (setTPMXML x True), w3)"
      "files w3 = files w" "doc (hyp w3) = (case setTPMXML x True of Inl _ \<Rightarrow> doc (hyp w) | Inr y \<Rightarrow> (doc (hyp w))(d \<mapsto> norm y))"
      using redefine_effect [where doc = doc and w = w2 and edit = "\<lambda>out. setTPMXML out True", OF lv _ _ _ w2(2,3)] name
      unfolding virsh_SetTPM_def by metis
    obtain a b where "tpmInfoXML x = (False, a, b)"
      using False by (cases "tpmInfoXML x") auto
    then have "snd (tpm_reconcile1 (tpm_controller env c) d w) = w3"
      using w1 w2 w3(1) by (simp add: tpm_reconcile1_def tpm_controller_def bindAct_def virsh_TPMInfo_def retAct_def)
    with w3 False Some show ?thesis
      by (auto simp: tpmFix_def fun_eq_iff split: sum.split)
  qed
qed

text \<open>The pins of a well-formed store are distinct domains.\<close>

lemma tpm_pins:
  assumes "tpm_json.wfStore st" "is_order ord"
  shows "distinct (tpm_All ord st)" "d \<in> set (tpm_All ord st) \<longleftrightarrow> tpm_Pinned st d"
proof -
  have k: "keyed tpm_key (ord (sdata st))" using assms by (simp add: tpm_json.wfStore_def)
  have all: "tpm_All ord st = map fst (ord (sdata st))"
    using keyed_map_fst [OF k] by (simp add: tpm_All_def storeAll_def tpm_key_def)
  show "distinct (tpm_All ord st)" using k by (simp add: all keyed_def gmap_ok_def)
  show "d \<in> set (tpm_All ord st) \<longleftrightarrow> tpm_Pinned st d"
    using assms(2) by (auto simp: all tpm_Pinned_def gget_def map_of_eq_None_iff)
qed

lemma find_key: "distinct (map f xs) \<Longrightarrow> x \<in> set xs \<Longrightarrow> find (\<lambda>y. f y = f x) xs = Some x"
  by (induction xs) (auto simp: image_iff)

lemma find_eq: "find (\<lambda>p. p = d) ps = (if d \<in> set ps then Some d else None)"
  by (induction ps) auto

lemma tpm_round:
  assumes "libvirt env c doc nameOf norm" "calm env (files w)"
    and "\<And>x y. setTPMXML x True = Inr y \<Longrightarrow> nameOf y = nameOf x"
    and "tpm_json.wfStore st" "is_order ord"
  shows "files (tpm_Reconcile ord (tpm_controller env c) st w) = files w \<and>
    doc (hyp (tpm_Reconcile ord (tpm_controller env c) st w)) =
      (\<lambda>d. if tpm_Pinned st d then map_option (tpmFix norm) (doc (hyp w) d) else doc (hyp w) d)"
proof -
  let ?run = "\<lambda>vm w. snd (tpm_reconcile1 (tpm_controller env c) vm w)"
  have "files (fold ?run (tpm_All ord st) w) = files w \<and> doc (hyp (fold ?run (tpm_All ord st) w)) =
      (\<lambda>d. case find (\<lambda>p. p = d) (tpm_All ord st) of None \<Rightarrow> doc (hyp w) d | Some p \<Rightarrow> map_option (tpmFix norm) (doc (hyp w) d))"
  proof (rule fold_repairs [OF _ _ refl])
    fix p and w' :: "'a world"
    assume "files w' = files w"
    with tpm_run1 [OF assms(1) _ assms(3), of w' p] assms(2)
    show "files (?run p w') = files w \<and> doc (hyp (?run p w')) = (doc (hyp w'))(p := map_option (tpmFix norm) (doc (hyp w') p))"
      by simp
  qed (simp add: tpm_pins(1) [OF assms(4,5)])
  moreover have "find (\<lambda>p. p = d) (tpm_All ord st) = (if tpm_Pinned st d then Some d else None)" for d
    using tpm_pins(2) [OF assms(4,5), of d] by (simp add: find_eq)
  ultimately show ?thesis by (auto simp: tpm_Reconcile_def fun_eq_iff)
qed

text \<open>
  C24: a round of the TPM reconciler does to the domains what it is specified to do. Against a \<open>virsh\<close> that
  answers as libvirt does, the documents after a round are those before it, with \<open>tpmFix\<close> applied to the
  pinned domains and to no other one, in whatever order the pins are visited; domains that do not
  exist are skipped, and no file is left behind.
\<close>

theorem tpm_round_refines:
  assumes "libvirt env c doc nameOf norm" "calm env (files w)"
    and "\<And>x y. setTPMXML x True = Inr y \<Longrightarrow> nameOf y = nameOf x"
    and "tpm_json.wfStore st" "is_order ord"
  shows "files (tpm_Reconcile ord (tpm_controller env c) st w) = files w \<and>
    doc (hyp (tpm_Reconcile ord (tpm_controller env c) st w)) =
      (\<lambda>d. if tpm_Pinned st d then map_option (tpmFix norm) (doc (hyp w) d) else doc (hyp w) d)"
  using assms by (rule tpm_round)

text \<open>A host with one domain, whose document is the state of the host.\<close>

definition soleExec :: "string list \<Rightarrow> fileset \<Rightarrow> string \<Rightarrow> exec_result \<times> string" where
  "soleExec args fs h =
     (if args = [''domstate'', ''win''] then (ExecOK ''running'', h)
      else if args = [''dumpxml'', ''--inactive'', ''--security-info'', ''win''] then (ExecOK h, h)
      else if length args = 2 \<and> hd args = ''define'' then
        (case fs (args ! 1) of Some (Text x) \<Rightarrow> (ExecOK [], x) | _ \<Rightarrow> (ExecFail [] [] ''exit status 1'', h))
      else (ExecFail [] [] ''exit status 1'', h))"

definition soleEnv :: "string env" where
  "soleEnv = \<lparr>exec = \<lambda>_. soleExec, osFault = \<lambda>_ _ _. False, osTorn = \<lambda>_ _. None, tmpTag = \<lambda>_. ''1'', procMounts = \<lambda>_. None\<rparr>"

definition soleDoc :: "string \<Rightarrow> string \<Rightarrow> string option" where
  "soleDoc h d = (if d = ''win'' then Some h else None)"

definition soleWorld :: "string \<Rightarrow> string world" where
  "soleWorld x = \<lparr>files = \<lambda>_. None, hyp = x, cmds = []\<rparr>"

lemma sole_libvirt: "libvirt soleEnv c soleDoc (\<lambda>_. ''win'') id" "calm soleEnv (files (soleWorld x))"
  by (auto simp: libvirt_def soleEnv_def soleExec_def soleDoc_def calm_def soleWorld_def)

definition winPins :: "string store" where
  "winPins = \<lparr>Path = ''/d/tpm.json'', sdata = [(''win'', ''win'')]\<rparr>"

lemma winPins_wf: "tpm_json.wfStore winPins" "tpm_Pinned winPins ''win''"
  by (simp_all add: tpm_json.wfStore_def winPins_def keyed_def gmap_ok_def tpm_key_def tpm_Pinned_def gget_def)

theorem tpm_round_refines_witness:
  "soleDoc (hyp (tpm_Reconcile id (tpm_controller soleEnv (virsh_New [])) winPins
      (soleWorld ''<domain><devices></devices></domain>''))) ''win'' =
    Some (tpmFix id ''<domain><devices></devices></domain>'')"
  using tpm_round_refines [OF sole_libvirt _ winPins_wf(1) is_order_id(1), of "virsh_New []"] winPins_wf(2)
  by (simp add: soleDoc_def soleWorld_def)

text \<open>Applying the specified change a second time does nothing.\<close>

lemma tpmFix_present:
  assumes "\<And>x. fst (tpmInfoXML (norm x)) = fst (tpmInfoXML x)"
  shows "CutLast x ''</devices>'' \<noteq> None \<or> fst (tpmInfoXML x) \<Longrightarrow> fst (tpmInfoXML (tpmFix norm x))"
    "tpmFix norm (tpmFix norm x) = tpmFix norm x"
  using tpm_enable_result [of x] assms by (auto simp: tpmFix_def split: sum.splits)

text \<open>
  C7: the pins win. Against a \<open>virsh\<close> that answers as libvirt does, and while nobody else changes the
  domains, after the first tick every pinned domain that exists and has a devices section declares a
  TPM device, every other domain is as it was, and no later tick changes any document again.
\<close>

theorem tpm_ticks_settle:
  assumes "libvirt env c doc nameOf norm" "calm env (files w)"
    and "\<And>x y. setTPMXML x True = Inr y \<Longrightarrow> nameOf y = nameOf x"
    and norm: "\<And>x. fst (tpmInfoXML (norm x)) = fst (tpmInfoXML x)"
    and "tpm_json.wfStore st" "is_order ord" "doc (hyp w) d = Some x"
  shows "\<exists>y. doc (hyp (tpm_RunReconciler (tpm_controller env c) (replicate (Suc n) (\<lambda>w. w, st, ord)) w)) d = Some y \<and>
    (if tpm_Pinned st d
     then y = tpmFix norm x \<and> (CutLast x ''</devices>'' \<noteq> None \<or> fst (tpmInfoXML x) \<longrightarrow> fst (tpmInfoXML y))
     else y = x)"
proof -
  let ?run = "\<lambda>ticks. tpm_RunReconciler (tpm_controller env c) ticks"
  have "files (?run (replicate n (\<lambda>w. w, st, ord)) w) = files w \<and> doc (hyp (?run (replicate n (\<lambda>w. w, st, ord)) w)) d =
      Some (if n = 0 then x else if tpm_Pinned st d then tpmFix norm x else x)" for n
  proof (induction n)
    case (Suc n)
    let ?w = "?run (replicate n (\<lambda>w. w, st, ord)) w"
    have "?run (replicate (Suc n) (\<lambda>w. w, st, ord)) w = tpm_Reconcile ord (tpm_controller env c) st ?w"
      by (simp add: tpm_RunReconciler_def replicate_append_same [symmetric] del: replicate_Suc)
    with tpm_round [OF assms(1) _ assms(3,5,6), of ?w] Suc assms(2) tpmFix_present(2) [OF norm] show ?case by simp
  qed (simp add: tpm_RunReconciler_def assms(7))
  from this [of "Suc n"] tpmFix_present(1) [OF norm, of x] show ?thesis by auto
qed

theorem tpm_ticks_settle_witness:
  "fst (tpmInfoXML (hyp (tpm_RunReconciler (tpm_controller soleEnv (virsh_New [])) (replicate 3 (\<lambda>w. w, winPins, id))
      (soleWorld ''<domain><devices></devices></domain>''))))"
proof -
  let ?x = "''<domain><devices></devices></domain>''"
  let ?h = "hyp (tpm_RunReconciler (tpm_controller soleEnv (virsh_New [])) (replicate (Suc 2) (\<lambda>w. w, winPins, id)) (soleWorld ?x))"
  have "CutLast ?x ''</devices>'' \<noteq> None" by code_simp
  moreover have "soleDoc (hyp (soleWorld ?x)) ''win'' = Some ?x" by (simp add: soleDoc_def soleWorld_def)
  ultimately obtain y where "soleDoc ?h ''win'' = Some y" "fst (tpmInfoXML y)"
    using tpm_ticks_settle [OF sole_libvirt _ _ winPins_wf(1) is_order_id(1), of ?x "''win''" ?x "virsh_New []" 2]
      winPins_wf(2) by (metis (no_types, lifting) id_apply)
  then show ?thesis by (simp only: soleDoc_def if_True option.inject simp_thms numeral_3_eq_3 numeral_2_eq_2)
qed

subsection \<open>VNC consoles\<close>

definition pwOk :: "VncEntry \<Rightarrow> string \<Rightarrow> bool" where
  "pwOk e x \<longleftrightarrow> vePassword e = [] \<or> (case vncGraphicsInfo x of (present, hasPw, _) \<Rightarrow> \<not> present \<or> hasPw)"

definition listenInfo :: "string \<Rightarrow> string \<times> int \<times> bool" where
  "listenInfo x =
     (case vncGraphicsInfo x of (present, _, listen) \<Rightarrow>
        if \<not> present then ([], 0, False) else (listen, vncGraphicsPort x))"

text \<open>The document a round leaves: the password first, and the address only if that went well.\<close>

definition fixPassword :: "(string \<Rightarrow> string) \<Rightarrow> VncEntry \<Rightarrow> string \<Rightarrow> string res" where
  "fixPassword norm e x =
     (if pwOk e x then Inr x else map_sum id norm (setGraphicsPasswordXML x (vePassword e)))"

definition fixListen :: "(string \<Rightarrow> string) \<Rightarrow> VncEntry \<Rightarrow> string \<Rightarrow> string" where
  "fixListen norm e x =
     (if veListen e = [] \<or> listenKept e (listenInfo x) then x
      else case setGraphicsListenXML x (veListen e) (vePort e) of Inl _ \<Rightarrow> x | Inr y \<Rightarrow> norm y)"

definition vncFix :: "(string \<Rightarrow> string) \<Rightarrow> VncEntry \<Rightarrow> string \<Rightarrow> string" where
  "vncFix norm e x = (case fixPassword norm e x of Inl _ \<Rightarrow> x | Inr y \<Rightarrow> fixListen norm e y)"

text \<open>
  The condition on the documents at hand: what the edits of the round make of the document of a pinned domain still
  defines that domain. The edits are textual, so this is not so for every document and every password
  (lemma \<open>password_breaks_tag\<close>).
\<close>

definition editsFit :: "(string \<Rightarrow> string) \<Rightarrow> (string \<Rightarrow> string) \<Rightarrow> VncEntry \<Rightarrow> string \<Rightarrow> bool" where
  "editsFit nameOf norm e x \<longleftrightarrow>
     (\<forall>y. \<not> pwOk e x \<and> setGraphicsPasswordXML x (vePassword e) = Inr y \<longrightarrow> nameOf y = veVM e) \<and>
     (\<forall>z y. fixPassword norm e x = Inr z \<and> veListen e \<noteq> [] \<and> \<not> listenKept e (listenInfo z) \<and>
        setGraphicsListenXML z (veListen e) (vePort e) = Inr y \<longrightarrow> nameOf y = veVM e)"

text \<open>The steps of a round, from a world with the files \<open>fs\<close> and the documents \<open>D\<close>.\<close>

definition at :: "('h \<Rightarrow> string \<Rightarrow> string option) \<Rightarrow> fileset \<Rightarrow> (string \<Rightarrow> string option) \<Rightarrow> 'h world \<Rightarrow> bool" where
  "at doc fs D w \<longleftrightarrow> files w = fs \<and> doc (hyp w) = D"

lemma vnc_reads:
  assumes lv: "libvirt env c doc nameOf norm" and w: "at doc fs D w" and D: "D d = Some x" and d: "veVM e = d"
  shows "\<exists>st w'. virsh_State env c d w = (Inr st, w') \<and> at doc fs D w'"
    and "\<exists>w'. vnc_checkPassword (vnc_controller env c) e w = (Inr (pwOk e x), w') \<and> at doc fs D w'"
    and "\<exists>w'. virsh_VNCListenInfo env c d w = (Inr (listenInfo x), w') \<and> at doc fs D w'"
proof -
  have at: "files w = fs" "doc (hyp w) = D" using w by (simp_all add: at_def)
  have dom: "doc (hyp w) d = Some x" using at D by simp
  show "\<exists>st w'. virsh_State env c d w = (Inr st, w') \<and> at doc fs D w'"
    using virsh_calls(1) [where doc = doc, OF lv dom] at by (auto simp: at_def)
  obtain w1 where w1: "dumpInactive env c d w = (Inr x, w1)" "at doc fs D w1"
    using virsh_calls(3) [where doc = doc, OF lv dom] at by (auto simp: at_def)
  show "\<exists>w'. vnc_checkPassword (vnc_controller env c) e w = (Inr (pwOk e x), w') \<and> at doc fs D w'"
    using w1 w d by (auto simp: vnc_checkPassword_def vnc_controller_def virsh_VNCHasPassword_def virsh_VNCInfo_def
        bindAct_def retAct_def pwOk_def split: prod.split)
  show "\<exists>w'. virsh_VNCListenInfo env c d w = (Inr (listenInfo x), w') \<and> at doc fs D w'"
    using w1 by (auto simp: virsh_VNCListenInfo_def bindAct_def retAct_def listenInfo_def split: prod.split)
qed

lemma vnc_edit:
  assumes lv: "libvirt env c doc nameOf norm" and calm: "calm env fs" and w: "at doc fs D w" and D: "D d = Some x"
    and name: "\<And>y. f x = Inr y \<Longrightarrow> nameOf y = d"
  shows "\<exists>w'. redefine env c d f w = (map_sum id (\<lambda>_. ()) (f x), w') \<and>
    at doc fs (case f x of Inl _ \<Rightarrow> D | Inr y \<Rightarrow> D(d \<mapsto> norm y)) w'"
  using redefine_effect [where doc = doc and w = w and d = d and x = x and edit = f, OF lv] calm w D name
  by (simp add: at_def) (metis)

lemma vnc_listen_step:
  assumes lv: "libvirt env c doc nameOf norm" and calm: "calm env fs" and w: "at doc fs D w" and D: "D (veVM e) = Some x"
    and name: "\<And>y. veListen e \<noteq> [] \<Longrightarrow> \<not> listenKept e (listenInfo x) \<Longrightarrow>
      setGraphicsListenXML x (veListen e) (vePort e) = Inr y \<Longrightarrow> nameOf y = veVM e"
  shows "at doc fs (D(veVM e \<mapsto> fixListen norm e x)) (snd (vnc_repairListen (vnc_controller env c) e w))"
proof -
  obtain w1 where w1: "virsh_VNCListenInfo env c (veVM e) w = (Inr (listenInfo x), w1)" "at doc fs D w1"
    using vnc_reads(3) [OF lv w D refl] by blast
  have same: "D(veVM e \<mapsto> x) = D" using D by (simp add: fun_upd_idem)
  consider "veListen e = []" | "veListen e \<noteq> []" "listenKept e (listenInfo x)" | "veListen e \<noteq> []" "\<not> listenKept e (listenInfo x)"
    by blast
  then show ?thesis
  proof cases
    case 3
    obtain w2 where w2: "virsh_SetVNCListen env c (veVM e) (veListen e) (vePort e) w1 =
        (map_sum id (\<lambda>_. ()) (setGraphicsListenXML x (veListen e) (vePort e)), w2)"
      "at doc fs (case setGraphicsListenXML x (veListen e) (vePort e) of Inl _ \<Rightarrow> D | Inr y \<Rightarrow> D(veVM e \<mapsto> norm y)) w2"
      unfolding virsh_SetVNCListen_def
      using vnc_edit [OF lv calm w1(2) D, of "\<lambda>out. setGraphicsListenXML out (veListen e) (vePort e)"] name 3 by blast
    with w1 3 same show ?thesis
      by (auto simp: vnc_repairListen_def vnc_controller_def bindAct_def fixListen_def split: sum.splits)
  qed (use w w1 same in \<open>simp_all add: vnc_repairListen_def vnc_controller_def bindAct_def retAct_def fixListen_def\<close>)
qed

lemma vnc_run1:
  assumes lv: "libvirt env c doc nameOf norm" and calm: "calm env fs" and w: "at doc fs D w"
    and fit: "\<And>x. D (veVM e) = Some x \<Longrightarrow> editsFit nameOf norm e x"
  shows "at doc fs (D(veVM e := map_option (vncFix norm e) (D (veVM e)))) (snd (vnc_reconcile1 (vnc_controller env c) e w))"
proof (cases "D (veVM e)")
  case None
  then have "doc (hyp w) (veVM e) = None" using w by (simp add: at_def)
  from virsh_calls(2) [where doc = doc, OF lv this] w None show ?thesis
    by (auto simp: vnc_reconcile1_def vnc_controller_def bindAct_def at_def fun_upd_idem)
next
  case (Some x)
  note fit = fit [OF Some, unfolded editsFit_def]
  obtain st w1 where w1: "virsh_State env c (veVM e) w = (Inr st, w1)" "at doc fs D w1"
    using vnc_reads(1) [OF lv w Some refl] by blast
  obtain w2 where w2: "vnc_checkPassword (vnc_controller env c) e w1 = (Inr (pwOk e x), w2)" "at doc fs D w2"
    using vnc_reads(2) [OF lv w1(2) Some refl] by blast
  let ?set = "if pwOk e x then retAct () else virsh_SetVNCPassword env c (veVM e) (vePassword e)"
  have "\<exists>w'. ?set w2 = (map_sum id (\<lambda>_. ()) (fixPassword norm e x), w') \<and>
      at doc fs (case fixPassword norm e x of Inl _ \<Rightarrow> D | Inr y \<Rightarrow> D(veVM e \<mapsto> y)) w'"
  proof (cases "pwOk e x")
    case True
    with w2(2) Some show ?thesis by (simp add: fixPassword_def retAct_def fun_upd_idem)
  next
    case False
    have "\<exists>w'. virsh_SetVNCPassword env c (veVM e) (vePassword e) w2 =
        (map_sum id (\<lambda>_. ()) (setGraphicsPasswordXML x (vePassword e)), w') \<and>
        at doc fs (case setGraphicsPasswordXML x (vePassword e) of Inl _ \<Rightarrow> D | Inr y \<Rightarrow> D(veVM e \<mapsto> norm y)) w'"
      unfolding virsh_SetVNCPassword_def
      by (rule vnc_edit [OF lv calm w2(2) Some]) (use fit False in blast)
    with False show ?thesis
      by (cases "setGraphicsPasswordXML x (vePassword e)") (auto simp: fixPassword_def)
  qed
  then obtain w3 where w3: "?set w2 = (map_sum id (\<lambda>_. ()) (fixPassword norm e x), w3)"
    "at doc fs (case fixPassword norm e x of Inl _ \<Rightarrow> D | Inr y \<Rightarrow> D(veVM e \<mapsto> y)) w3" by blast
  have run: "snd (vnc_reconcile1 (vnc_controller env c) e w) =
      (case fixPassword norm e x of Inl _ \<Rightarrow> w3 | Inr _ \<Rightarrow> snd (vnc_repairListen (vnc_controller env c) e w3))"
    using w1(1) w2(1) w3(1)
    by (auto simp: vnc_reconcile1_def vnc_controller_def bindAct_def map_sum_def split: sum.splits)
  show ?thesis
  proof (cases "fixPassword norm e x")
    case (Inl err)
    with run w3(2) Some show ?thesis by (simp add: vncFix_def fun_upd_idem)
  next
    case (Inr y)
    with w3(2) have y: "at doc fs (D(veVM e \<mapsto> y)) w3" by simp
    have "at doc fs ((D(veVM e \<mapsto> y))(veVM e \<mapsto> fixListen norm e y)) (snd (vnc_repairListen (vnc_controller env c) e w3))"
      by (rule vnc_listen_step [OF lv calm y]) (use fit Inr in auto)
    with Inr run Some show ?thesis by (simp add: vncFix_def)
  qed
qed

lemma vnc_pins:
  assumes "vnc_json.wfStore st" "is_order ord"
  shows "distinct (map veVM (vnc_All ord st))" "find (\<lambda>e. veVM e = d) (vnc_All ord st) = vnc_Get st d"
proof -
  have k: "keyed veVM (ord (sdata st))" using assms by (simp add: vnc_json.wfStore_def)
  have keys: "map veVM (vnc_All ord st) = map fst (ord (sdata st))"
    using keyed_map_fst [OF k] by (simp add: vnc_All_def storeAll_def)
  then show "distinct (map veVM (vnc_All ord st))" using k by (simp add: keyed_def gmap_ok_def)
  have "find (\<lambda>e. veVM e = d) (map snd m) = gget d m" if "keyed veVM m" for m
    using that
  proof (induction m)
    case (Cons a m)
    then have "keyed veVM m" by (auto simp: keyed_def gmap_ok_def)
    with Cons show ?case by (cases a) (auto simp: keyed_def gget_def)
  qed simp
  from this [OF k] assms show "find (\<lambda>e. veVM e = d) (vnc_All ord st) = vnc_Get st d"
    by (simp add: vnc_All_def storeAll_def vnc_Get_def vnc_json.wfStore_def keyed_def)
qed

text \<open>
  C8: a round of the VNC reconciler does to the domains what it is specified to do. Against a \<open>virsh\<close> that
  answers as libvirt does, and if the edited documents of the pinned domains still define these domains, the
  documents after a round are those before it, except that a pinned domain
  gets the pinned password where its console has none and then the pinned address and port where they
  drifted; what the user never pinned, and domains without an entry, are not touched, in whatever
  order the entries are visited, and no file is left behind.
\<close>

theorem vnc_round_refines:
  assumes "libvirt env c doc nameOf norm" "calm env (files w)"
    and "vnc_json.wfStore st" "is_order ord"
    and fit: "\<And>d e x. vnc_Get st d = Some e \<Longrightarrow> doc (hyp w) d = Some x \<Longrightarrow> editsFit nameOf norm e x"
  shows "files (vnc_Reconcile ord (vnc_controller env c) st w) = files w \<and>
    doc (hyp (vnc_Reconcile ord (vnc_controller env c) st w)) =
      (\<lambda>d. case vnc_Get st d of None \<Rightarrow> doc (hyp w) d | Some e \<Rightarrow> map_option (vncFix norm e) (doc (hyp w) d))"
proof -
  let ?run = "\<lambda>e w. snd (vnc_reconcile1 (vnc_controller env c) e w)"
  have "files (fold ?run (vnc_All ord st) w) = files w \<and> doc (hyp (fold ?run (vnc_All ord st) w)) =
      (\<lambda>d. case find (\<lambda>e. veVM e = d) (vnc_All ord st) of None \<Rightarrow> doc (hyp w) d
        | Some e \<Rightarrow> map_option (vncFix norm e) (doc (hyp w) d))"
  proof (rule fold_repairs_from [where D = "doc (hyp w)" and dm = veVM and fx = "vncFix norm" and doc = doc and w = w
        and fs = "files w", OF _ vnc_pins(1) [OF assms(3,4)] refl refl])
    fix e and w' :: "'a world"
    assume e: "e \<in> set (vnc_All ord st)" and w': "files w' = files w" "doc (hyp w') (veVM e) = doc (hyp w) (veVM e)"
    have "vnc_Get st (veVM e) = Some e"
      using find_key [OF vnc_pins(1) [OF assms(3,4)] e] vnc_pins(2) [OF assms(3,4), of "veVM e"] by simp
    then have "doc (hyp w') (veVM e) = Some x \<Longrightarrow> editsFit nameOf norm e x" for x
      using fit w'(2) by simp
    from vnc_run1 [OF assms(1,2), of "doc (hyp w')" w' e, OF _ this] w'
    show "files (?run e w') = files w \<and>
        doc (hyp (?run e w')) = (doc (hyp w'))(veVM e := map_option (vncFix norm e) (doc (hyp w) (veVM e)))"
      by (simp add: at_def)
  qed
  then show ?thesis by (simp add: vnc_Reconcile_def vnc_pins(2) [OF assms(3,4)])
qed

definition winVnc :: "VncEntry store" where
  "winVnc = \<lparr>Path = ''/d/vnc.json'', sdata = [(''win'', \<lparr>veVM = ''win'', vePassword = ''secret'',
     veListen = ''0.0.0.0'', vePort = 0\<rparr>)]\<rparr>"

definition winDoc :: string where
  "winDoc = ''<domain><name>win</name><devices><graphics type='' @ sq ''vnc'' @ ''/></devices></domain>''"

text \<open>A host with one domain that reads the name of a document off its \<open>name\<close> element, and refuses to define another one.\<close>

definition docName :: "string \<Rightarrow> string" where
  "docName x =
     (case Cut x ''<name>'' of
        None \<Rightarrow> []
      | Some (_, r) \<Rightarrow> (case Cut r ''</name>'' of None \<Rightarrow> [] | Some (n, _) \<Rightarrow> n))"

definition namedExec :: "string list \<Rightarrow> fileset \<Rightarrow> string \<Rightarrow> exec_result \<times> string" where
  "namedExec args fs h =
     (if docName h \<noteq> ''win'' then (ExecFail [] [] ''exit status 1'', h)
      else if length args = 2 \<and> hd args = ''define'' then
        (case fs (args ! 1) of
           Some (Text x) \<Rightarrow> if docName x = ''win'' then (ExecOK [], x) else (ExecFail [] [] ''exit status 1'', h)
         | _ \<Rightarrow> (ExecFail [] [] ''exit status 1'', h))
      else soleExec args fs h)"

definition namedEnv :: "string env" where
  "namedEnv = soleEnv\<lparr>exec := \<lambda>_. namedExec\<rparr>"

definition namedDoc :: "string \<Rightarrow> string \<Rightarrow> string option" where
  "namedDoc h d = (if d = ''win'' \<and> docName h = ''win'' then Some h else None)"

lemma named_libvirt: "libvirt namedEnv c namedDoc docName id" "calm namedEnv (files (soleWorld x))"
  by (auto simp: libvirt_def namedEnv_def soleEnv_def namedExec_def soleExec_def namedDoc_def calm_def soleWorld_def fun_eq_iff)

theorem vnc_round_refines_witness:
  "namedDoc (hyp (vnc_Reconcile id (vnc_controller namedEnv (virsh_New [])) winVnc (soleWorld winDoc))) ''win'' =
    Some (vncFix id (snd (hd (sdata winVnc))) winDoc)"
proof -
  let ?e = "snd (hd (sdata winVnc))"
  have wf: "vnc_json.wfStore winVnc"
    by (simp add: vnc_json.wfStore_def winVnc_def keyed_def gmap_ok_def vnc_wf_def is_int64_def minInt64_def maxInt64_def)
  have names: "docName winDoc = ''win''"
    "case setGraphicsPasswordXML winDoc (vePassword ?e) of Inl _ \<Rightarrow> False | Inr y \<Rightarrow> docName y = veVM ?e"
    "case fixPassword id ?e winDoc of Inl _ \<Rightarrow> False
     | Inr z \<Rightarrow> (case setGraphicsListenXML z (veListen ?e) (vePort ?e) of Inl _ \<Rightarrow> False | Inr y \<Rightarrow> docName y = veVM ?e)"
    by code_simp+
  then have fit: "editsFit docName id ?e winDoc"
    by (auto simp: editsFit_def split: sum.splits)
  have get: "vnc_Get winVnc d = (if d = ''win'' then Some ?e else None)" for d
    by (simp add: vnc_Get_def gget_def winVnc_def)
  have doc: "namedDoc (hyp (soleWorld winDoc)) d = (if d = ''win'' then Some winDoc else None)" for d
    using names(1) by (simp add: namedDoc_def soleWorld_def)
  have "editsFit docName id e x" if "vnc_Get winVnc d = Some e" "namedDoc (hyp (soleWorld winDoc)) d = Some x" for d e x
    using that fit by (simp add: get doc split: if_splits)
  from vnc_round_refines [OF named_libvirt(1) [of "virsh_New []"] named_libvirt(2) [of winDoc] wf is_order_id(1) this] show ?thesis
    by (simp add: get doc)
qed

end
