(* ===== verification/BootProps.thy ===== *)
theory BootProps
  imports StoreProps Storage Dialogue
begin

section \<open>Properties of boot and of the VM watchdog\<close>

text \<open>
  Which domains the boot run and the watchdog start, in which order, and how many commands that takes.
  \<open>runs w w' as\<close>: from \<open>w\<close> to \<open>w'\<close> exactly programs with the argument lists \<open>as\<close> were run.
\<close>

definition runs :: "'h world \<Rightarrow> 'h world \<Rightarrow> string list list \<Rightarrow> bool" where
  "runs w w' as \<longleftrightarrow> (\<exists>xs. cmds w' = cmds w @ xs \<and> map cArgs xs = as)"

lemma runs_since: "runs w w' as \<Longrightarrow> ranSince w w' = as"
  by (auto simp: runs_def ranSince_def)

lemma runs_refl: "runs w w []"
  by (simp add: runs_def)

lemma runs_trans: "runs a b xs \<Longrightarrow> runs b c ys \<Longrightarrow> runs a c (xs @ ys)"
  by (force simp: runs_def)

lemma ran_sleep [simp]: "runs w (time_Sleep sleep d w') as = runs w w' as"
  by (simp add: runs_def time_Sleep_def)

lemma ran_calls:
  "runs w (snd (virsh_ListDomains env c w)) [[''list'', ''--all'', ''--name'']]"
  "runs w (snd (virsh_State env c d w)) [[''domstate'', d]]"
  "runs w (snd (virsh_Start env c d w)) [[''start'', d]]"
  "runs w (snd (virsh_SetAutostart env c d False w)) [[''autostart'', d, ''--disable'']]"
proof -
  have run: "runs w (snd (Client_run env c args w)) [args]" for args
    using cmds_Client_run [of args c env w] by (auto simp: runs_def)
  then have bind: "runs w (snd (bindAct (Client_run env c args) (\<lambda>out. retAct (f out)) w)) [args]" for args and f :: "string \<Rightarrow> 'b"
    by (simp add: bindAct_def retAct_def split: prod.splits sum.splits) (metis snd_conv)
  show "runs w (snd (virsh_Start env c d w)) [[''start'', d]]"
    "runs w (snd (virsh_SetAutostart env c d False w)) [[''autostart'', d, ''--disable'']]"
    unfolding virsh_Start_def virsh_SetAutostart_def runCmd_def
    using cmds_runCmd [of _ c env w, unfolded runCmd_def] by (fastforce simp: runs_def)+
  have b2: "runs w (snd (bindAct (Client_run env c args) (\<lambda>out. retAct (f out)) w)) [args]" for args and f :: "string \<Rightarrow> string list"
    using run [of args] by (auto simp: bindAct_def retAct_def split: prod.splits sum.splits)
  show "runs w (snd (virsh_ListDomains env c w)) [[''list'', ''--all'', ''--name'']]"
    unfolding virsh_ListDomains_def by (rule b2)
  have b3: "runs w (snd (bindAct (Client_run env c args) (\<lambda>out. retAct (f out)) w)) [args]" for args and f :: "string \<Rightarrow> string"
    using run [of args] by (auto simp: bindAct_def retAct_def split: prod.splits sum.splits)
  show "runs w (snd (virsh_State env c d w)) [[''domstate'', d]]"
    unfolding virsh_State_def by (rule b3)
qed

lemma ran_callE:
  "virsh_ListDomains env c w = (r1, w') \<Longrightarrow> runs w w' [[''list'', ''--all'', ''--name'']]"
  "virsh_State env c d w = (r2, w') \<Longrightarrow> runs w w' [[''domstate'', d]]"
  "virsh_Start env c d w = (r3, w') \<Longrightarrow> runs w w' [[''start'', d]]"
  by (metis ran_calls snd_conv)+

definition isStart :: "string list \<Rightarrow> bool" where
  "isStart args \<longleftrightarrow> hd args = ''start''"

lemma isStart_simps [simp]:
  "isStart [''start'', d]" "\<not> isStart [''domstate'', d]" "\<not> isStart [''autostart'', d, x]"
  "\<not> isStart [''list'', x, y]"
  by (simp_all add: isStart_def)

text \<open>The wait for libvirt, one entry and the loop over the entries.\<close>

lemma wait_ran:
  "\<exists>k\<le>n. runs w (snd (auto_wait sleep (auto_controller env c) n w)) (replicate k [''list'', ''--all'', ''--name''])"
proof (induction n arbitrary: w)
  case 0
  show ?case by (auto simp: runs_refl)
next
  case (Suc n)
  obtain r w1 where r: "virsh_ListDomains env c w = (r, w1)" by fastforce
  note r1 = ran_callE(1) [OF r]
  show ?case
  proof (cases r)
    case (Inl e)
    obtain k where "k \<le> n" "runs (time_Sleep sleep (5 * second) w1)
        (snd (auto_wait sleep (auto_controller env c) n (time_Sleep sleep (5 * second) w1)))
        (replicate k [''list'', ''--all'', ''--name''])"
      using Suc.IH by blast
    then have "runs w (snd (auto_wait sleep (auto_controller env c) n (time_Sleep sleep (5 * second) w1)))
        (replicate (Suc k) [''list'', ''--all'', ''--name''])"
      using runs_trans [of w "time_Sleep sleep (5 * second) w1"] r1 by fastforce
    with \<open>k \<le> n\<close> r Inl show ?thesis
      by (intro exI [of _ "Suc k"]) (simp add: auto_controller_def)
  next
    case (Inr ds)
    with r r1 show ?thesis
      by (intro exI [of _ 1]) (simp add: auto_controller_def)
  qed
qed

lemma start1_ran:
  "\<exists>as. runs w (auto_start1 sleep (auto_controller env c) e w) as \<and>
    length as \<le> (if aeEnabled e then 3 else 0) \<and>
    filter isStart as \<in> {[], if aeEnabled e then [[''start'', aeName e]] else []}"
proof (cases "aeEnabled e")
  case False
  then show ?thesis by (auto simp: auto_start1_def runs_refl intro!: exI [of _ "[]"])
next
  case True
  let ?w1 = "snd (virsh_SetAutostart env c (aeName e) False w)"
  have 1: "runs w ?w1 [[''autostart'', aeName e, ''--disable'']]" by (rule ran_calls)
  obtain r w2 where r: "virsh_State env c (aeName e) ?w1 = (r, w2)" by fastforce
  have 2: "runs w w2 [[''autostart'', aeName e, ''--disable''], [''domstate'', aeName e]]"
    using runs_trans [OF 1 ran_callE(2) [OF r]] by simp
  obtain q w3 where q: "virsh_Start env c (aeName e) w2 = (q, w3)" by fastforce
  have 3: "runs w w3 [[''autostart'', aeName e, ''--disable''], [''domstate'', aeName e], [''start'', aeName e]]"
    using runs_trans [OF 2 ran_callE(3) [OF q]] by simp
  have "auto_start1 sleep (auto_controller env c) e w = w2 \<or> (\<exists>d. auto_start1 sleep (auto_controller env c) e w \<in> {w3, time_Sleep sleep d w3})"
    using True r q by (cases r; cases q) (auto simp: auto_start1_def auto_controller_def Let_def)
  then have "runs w (auto_start1 sleep (auto_controller env c) e w) [[''autostart'', aeName e, ''--disable''], [''domstate'', aeName e]] \<or>
      runs w (auto_start1 sleep (auto_controller env c) e w)
        [[''autostart'', aeName e, ''--disable''], [''domstate'', aeName e], [''start'', aeName e]]"
    using 2 3 by auto
  then show ?thesis
  proof
    assume "runs w (auto_start1 sleep (auto_controller env c) e w) [[''autostart'', aeName e, ''--disable''], [''domstate'', aeName e]]"
    with True show ?thesis by (intro exI conjI) auto
  next
    assume "runs w (auto_start1 sleep (auto_controller env c) e w)
        [[''autostart'', aeName e, ''--disable''], [''domstate'', aeName e], [''start'', aeName e]]"
    with True show ?thesis by (intro exI conjI) auto
  qed
qed

lemma starts_ran:
  "\<exists>as. runs w (fold (auto_start1 sleep (auto_controller env c)) es w) as \<and>
    length as \<le> 3 * length (filter aeEnabled es) \<and>
    subseq (filter isStart as) (map (\<lambda>e. [''start'', aeName e]) (filter aeEnabled es))"
proof (induction es arbitrary: w)
  case Nil
  show ?case by (auto simp: runs_refl intro!: exI [of _ "[]"])
next
  case (Cons e es)
  let ?w1 = "auto_start1 sleep (auto_controller env c) e w"
  obtain as where as: "runs w ?w1 as" "length as \<le> (if aeEnabled e then 3 else 0)"
    "filter isStart as \<in> {[], if aeEnabled e then [[''start'', aeName e]] else []}"
    using start1_ran by blast
  obtain bs where bs: "runs ?w1 (fold (auto_start1 sleep (auto_controller env c)) es ?w1) bs"
    "length bs \<le> 3 * length (filter aeEnabled es)"
    "subseq (filter isStart bs) (map (\<lambda>e. [''start'', aeName e]) (filter aeEnabled es))"
    using Cons.IH by blast
  from runs_trans [OF as(1) bs(1)] as(2,3) bs(2,3) show ?case
    by (intro exI [of _ "as @ bs"]) (auto split: if_splits)
qed

lemma runs_write: "runs w (snd (os_WriteFile env p x w)) []"
  by (simp add: runs_def os_WriteFile_def)

text \<open>
  C20: the boot run starts the right domains in the right order. The \<open>virsh start\<close> commands of a boot run, in
  the order they are run, are among those of the enabled entries taken by ascending \<open>order\<close>, each at
  most once; there are none if the marker of an earlier run since the boot exists; and whatever libvirt
  answers, the run ends after at most twelve tries to reach it and three commands per enabled entry.
\<close>

theorem boot_starts_in_order:
  fixes w :: "'h world" and sleep stamp env c
  assumes "auto_json.wfStore st" "is_order ord"
  defines "es \<equiv> filter aeEnabled (auto_All ord st)"
    and "as \<equiv> ranSince w (auto_Run sleep stamp ord env (auto_controller env c) st w)"
  shows "subseq (filter isStart as) (map (\<lambda>e. [''start'', aeName e]) es) \<and>
    sorted (map aeOrder es) \<and> distinct (map aeName es) \<and>
    (os_Stat env runMarker w \<longrightarrow> as = []) \<and> length as \<le> 12 + 3 * length es"
proof -
  have keys: "keyed aeName (byOrder ord (sdata st))"
    using assms(1,2) by (simp add: auto_json.wfStore_def)
  have names: "distinct (map aeName (auto_All ord st))"
    unfolding auto_All_def storeAll_def keyed_map_fst [OF keys, symmetric]
    using keys by (simp add: keyed_def gmap_ok_def)
  have "sorted (map aeOrder es)"
    using auto_All_sorted [of ord st] by (simp add: es_def sorted_filter)
  moreover have "distinct (map aeName es)"
    using names by (simp add: es_def distinct_map_filter)
  moreover have "as = [] \<or> subseq (filter isStart as) (map (\<lambda>e. [''start'', aeName e]) es) \<and> length as \<le> 12 + 3 * length es"
    if "\<not> os_Stat env runMarker w"
  proof -
    obtain b w1 where w1: "auto_wait sleep (auto_controller env c) 12 w = (b, w1)" by fastforce
    then obtain k where k: "k \<le> 12" "runs w w1 (replicate k [''list'', ''--all'', ''--name''])"
      using wait_ran [of 12 w sleep env c] by auto
    let ?w2 = "fold (auto_start1 sleep (auto_controller env c)) (auto_All ord st) w1"
    obtain bs where bs: "runs w1 ?w2 bs" "length bs \<le> 3 * length es"
      "subseq (filter isStart bs) (map (\<lambda>e. [''start'', aeName e]) es)"
      using starts_ran [of w1 sleep env c "auto_All ord st"] unfolding es_def by blast
    have wait: "filter isStart (replicate k [''list'', ''--all'', ''--name'']) = []" by simp
    show ?thesis
    proof (cases b)
      case True
      then have "as = replicate k [''list'', ''--all'', ''--name''] @ bs"
        using that w1 runs_since [OF runs_trans [OF k(2) runs_trans [OF bs(1) runs_write]]]
        by (simp add: as_def auto_Run_def Let_def)
      with bs k(1) wait show ?thesis by simp
    next
      case False
      then have "as = replicate k [''list'', ''--all'', ''--name'']"
        using that w1 runs_since [OF k(2)] by (simp add: as_def auto_Run_def)
      with k(1) wait show ?thesis by simp
    qed
  qed
  moreover have "os_Stat env runMarker w \<Longrightarrow> as = []"
    by (simp add: as_def auto_Run_def)
  ultimately show ?thesis by (cases "os_Stat env runMarker w") auto
qed

definition bootStore :: "AutoEntry store" where
  "bootStore = \<lparr>Path = ''/d/autostart.json'', sdata =
     [(''b'', \<lparr>aeName = ''b'', aeEnabled = True, aeOrder = 2, aeDelayS = 5, aeWatchdog = False\<rparr>),
      (''a'', \<lparr>aeName = ''a'', aeEnabled = True, aeOrder = 1, aeDelayS = 0, aeWatchdog = True\<rparr>)]\<rparr>"

lemma bootStore_wf: "auto_json.wfStore bootStore"
  by (simp add: auto_json.wfStore_def bootStore_def keyed_def gmap_ok_def auto_wf_def is_int64_def minInt64_def maxInt64_def)

theorem boot_starts_in_order_witness:
  "subseq (filter isStart (ranSince emptyWorld (auto_Run (\<lambda>_ h. h) ''now'' id quietEnv
      (auto_controller quietEnv (virsh_New [])) bootStore emptyWorld))) [[''start'', ''a''], [''start'', ''b'']]"
proof -
  have "map (\<lambda>e. [''start'', aeName e]) (filter aeEnabled (auto_All id bootStore)) = [[''start'', ''a''], [''start'', ''b'']]"
    by (simp add: auto_All_def storeAll_def byOrder_def bootStore_def)
  with boot_starts_in_order [OF bootStore_wf is_order_id(1)] show ?thesis by metis
qed

subsection \<open>The watchdog of the domains\<close>

text \<open>
  What a tick says to \<open>virsh\<close> about one entry: it asks for the state, and starts the domain exactly if the answer
  was that it is shut off or crashed.
\<close>

definition watchBlock :: "Client \<Rightarrow> AutoEntry \<Rightarrow> said list \<Rightarrow> bool" where
  "watchBlock c e b \<longleftrightarrow>
     (\<exists>r rest. b = (Bin c, [''domstate'', aeName e], r) # rest \<and>
        (if saysState (\<lambda>st. st \<in> {''shut off'', ''crashed''}) r
         then \<exists>q. rest = [(Bin c, [''start'', aeName e], q)] else rest = []))"

lemma watch1_talks:
  assumes "aeWatchdog e"
  shows "\<exists>b. talks env w (auto_watch1 (auto_controller env c) e w) b \<and> watchBlock c e b"
proof -
  obtain x w1 where x: "virsh_State env c (aeName e) w = (x, w1)" by fastforce
  from talks_State [OF x] obtain r where
    r: "talks env w w1 [(Bin c, [''domstate'', aeName e], r)]" "readsAs TrimSpace x r" by blast
  obtain y w2 where y: "virsh_Start env c (aeName e) w1 = (y, w2)" by fastforce
  from talks_Start [OF y] obtain q where q: "talks env w1 w2 [(Bin c, [''start'', aeName e], q)]" by blast
  let ?down = "case x of Inl _ \<Rightarrow> False | Inr st \<Rightarrow> st \<in> {''shut off'', ''crashed''}"
  have down: "saysState (\<lambda>st. st \<in> {''shut off'', ''crashed''}) r \<longleftrightarrow> ?down" by (rule readsAs_state [OF r(2)])
  show ?thesis
  proof (cases ?down)
    case True
    then have "auto_watch1 (auto_controller env c) e w = w2"
      using assms x y by (auto simp: auto_watch1_def auto_controller_def split: sum.splits)
    with talks_trans [OF r(1) q] True down show ?thesis
      by (intro exI [of _ "[(Bin c, [''domstate'', aeName e], r), (Bin c, [''start'', aeName e], q)]"]) (simp add: watchBlock_def)
  next
    case False
    then have "auto_watch1 (auto_controller env c) e w = w1"
      using assms x by (auto simp: auto_watch1_def auto_controller_def split: sum.splits)
    with r(1) False down show ?thesis
      by (intro exI [of _ "[(Bin c, [''domstate'', aeName e], r)]"]) (simp add: watchBlock_def)
  qed
qed

lemma watch_filter: "fold (auto_watch1 vc) es w = fold (auto_watch1 vc) (filter aeWatchdog es) w"
  by (induction es arbitrary: w) (simp_all add: auto_watch1_def)

lemma watch_talks:
  "list_all aeWatchdog es \<Longrightarrow>
   \<exists>bs. talks env w (fold (auto_watch1 (auto_controller env c)) es w) (concat bs) \<and> list_all2 (watchBlock c) es bs"
proof (induction es arbitrary: w)
  case (Cons e es)
  obtain b where b: "talks env w (auto_watch1 (auto_controller env c) e w) b" "watchBlock c e b"
    using watch1_talks Cons.prems by (metis list.pred_inject(2))
  obtain bs where "talks env (auto_watch1 (auto_controller env c) e w)
      (fold (auto_watch1 (auto_controller env c)) es (auto_watch1 (auto_controller env c) e w)) (concat bs)"
      "list_all2 (watchBlock c) es bs"
    using Cons.IH Cons.prems by (metis list.pred_inject(2))
  with b talks_trans [OF b(1)] show ?case by (intro exI [of _ "b # bs"]) simp
qed (simp add: exI [of _ "[]"])

text \<open>
  C21: the watchdog only revives. Before the boot run has left its marker a tick leaves the world as it is, so
  it runs no command at all. After that, the commands of a tick and their answers are, entry by
  entry of those that ask for the watchdog (in boot order): one question for the state of the domain, followed by
  one \<open>start\<close> of it exactly if that very question was answered with shut off or crashed. So a
  tick never touches a running, paused or unknown domain, nor one whose entry does not ask for it, and
  it never passes over one that is down.
\<close>

theorem watchdog_only_revives:
  assumes "is_order ord"
  shows "set (auto_All ord st) = snd ` set (sdata st) \<and>
    (if os_Stat env runMarker w then
       \<exists>blocks. dialogueOf env w (auto_watchTick ord env (auto_controller env c) st w) = concat blocks \<and>
         list_all2 (watchBlock c) (filter aeWatchdog (auto_All ord st)) blocks
     else auto_watchTick ord env (auto_controller env c) st w = w)"
proof (cases "os_Stat env runMarker w")
  case True
  let ?es = "filter aeWatchdog (auto_All ord st)"
  have tick: "auto_watchTick ord env (auto_controller env c) st w = fold (auto_watch1 (auto_controller env c)) ?es w"
    using True watch_filter [of "auto_controller env c" "auto_All ord st" w] by (simp add: auto_watchTick_def)
  have "list_all aeWatchdog ?es" by (simp add: list_all_iff)
  from watch_talks [OF this, of env w c] obtain bs where
    bs: "talks env w (auto_watchTick ord env (auto_controller env c) st w) (concat bs)" "list_all2 (watchBlock c) ?es bs"
    unfolding tick by blast
  with True show ?thesis using talks_dialogue [OF bs(1)] set_auto_All [OF assms] by auto
qed (simp add: auto_watchTick_def set_auto_All [OF assms])

definition bootedWorld :: "unit world" where
  "bootedWorld = emptyWorld\<lparr>files := (\<lambda>_. None)(runMarker \<mapsto> Text [])\<rparr>"

lemma replay_script: "(p, a, r) \<in> set (fst (replay (scriptEnv f) xs h)) \<Longrightarrow> r = ExecOK (f a)"
  by (induction xs arbitrary: h) (auto simp: scriptEnv_def split: prod.splits)

theorem watchdog_only_revives_witness:
  "(\<exists>q. dialogueOf (scriptEnv (\<lambda>_. ''shut off'')) bootedWorld (auto_watchTick id (scriptEnv (\<lambda>_. ''shut off''))
      (auto_controller (scriptEnv (\<lambda>_. ''shut off'')) (virsh_New [])) bootStore bootedWorld) =
    [(Bin (virsh_New []), [''domstate'', ''a''], ExecOK ''shut off''), (Bin (virsh_New []), [''start'', ''a''], q)]) \<and>
   auto_watchTick id quietEnv (auto_controller quietEnv (virsh_New [])) bootStore emptyWorld = emptyWorld"
proof
  let ?env = "scriptEnv (\<lambda>_. ''shut off'')"
  let ?e = "\<lparr>aeName = ''a'', aeEnabled = True, aeOrder = 1, aeDelayS = 0, aeWatchdog = True\<rparr>"
  let ?d = "dialogueOf ?env bootedWorld (auto_watchTick id ?env (auto_controller ?env (virsh_New [])) bootStore bootedWorld)"
  have all: "filter aeWatchdog (auto_All id bootStore) = [?e]"
    by (simp add: auto_All_def storeAll_def byOrder_def bootStore_def)
  have "os_Stat ?env runMarker bootedWorld"
    by (simp add: os_Stat_def bootedWorld_def)
  with watchdog_only_revives [OF is_order_id(1), of bootStore ?env bootedWorld "virsh_New []"]
  obtain blocks where d: "?d = concat blocks" "list_all2 (watchBlock (virsh_New [])) [?e] blocks"
    unfolding all by auto
  then obtain b where b: "?d = b" "watchBlock (virsh_New []) ?e b"
    by (auto simp: list_all2_Cons1)
  from b(2) obtain r q where rq: "?d = (Bin (virsh_New []), [''domstate'', ''a''], r) # q"
    "if saysState (\<lambda>st. st \<in> {''shut off'', ''crashed''}) r then \<exists>y. q = [(Bin (virsh_New []), [''start'', ''a''], y)] else q = []"
    unfolding watchBlock_def AutoEntry.select_convs b(1) by blast
  then have "r = ExecOK ''shut off''"
    using replay_script unfolding dialogueOf_def by (metis list.set_intros(1))
  moreover have "TrimSpace ''shut off'' = ''shut off''" by code_simp
  ultimately show "\<exists>q. ?d = [(Bin (virsh_New []), [''domstate'', ''a''], ExecOK ''shut off''), (Bin (virsh_New []), [''start'', ''a''], q)]"
    using rq by (auto simp: saysState_def)
  have "\<not> os_Stat quietEnv runMarker emptyWorld" by (simp add: os_Stat_def emptyWorld_def)
  with watchdog_only_revives [OF is_order_id(1), of bootStore quietEnv emptyWorld "virsh_New []"]
  show "auto_watchTick id quietEnv (auto_controller quietEnv (virsh_New [])) bootStore emptyWorld = emptyWorld"
    by simp
qed

end
