(* ===== verification/SnapshotProps.thy ===== *)
theory SnapshotProps
  imports StoreProps HostListProps
begin

section \<open>Properties of the snapshot list\<close>

text \<open>
  \<open>virsh snapshot-list\<close> prints a table whose columns are two or more blanks apart. \<open>snapshotTable\<close> is
  that form; \<open>tight\<close> is what a cell must be to be read back, and what the daemon makes sure a
  snapshot name is.
\<close>

definition tight :: "string \<Rightarrow> bool" where
  "tight s \<longleftrightarrow> s \<noteq> [] \<and> hd s \<noteq> CHR '' '' \<and> last s \<noteq> CHR '' '' \<and> \<not> Contains s ''  '' \<and>
     list_all (\<lambda>c. isSpace c \<longrightarrow> c = CHR '' '') s"

lemma tight_tidy: "tight s \<Longrightarrow> tidy s"
  by (auto simp: tight_def tidy_def list_all_iff)

lemma TrimSpace_tight: "tight s \<Longrightarrow> TrimSpace s = s"
  by (simp add: TrimSpace_tidy tight_tidy)

lemma validSnapshotName_tight: "validSnapshotName s \<Longrightarrow> tight s"
proof -
  assume v: "validSnapshotName s"
  then have ne: "s \<noteq> []" and trim: "TrimSpace s = s" and dbl: "\<not> Contains s ''  ''"
    and chars: "list_all (\<lambda>r. validNameChar r \<or> r = CHR '' '') s"
    by (auto simp: validSnapshotName_def split: if_splits)
  have "\<not> isSpace c" if "validNameChar c" for c
    using that by (auto simp: isSpace_def validNameChar_def isAlnum_def isDigit_def less_eq_char_def)
  with chars have "list_all (\<lambda>c. isSpace c \<longrightarrow> c = CHR '' '') s" by (auto simp: list_all_iff)
  moreover have "\<not> isSpace (hd s)" "\<not> isSpace (last s)"
    using TrimFunc_hd [of isSpace s] TrimFunc_last [of isSpace s] trim ne by (simp_all add: TrimSpace_def)
  ultimately show ?thesis using ne dbl by (auto simp: tight_def)
qed

text \<open>Reading one cell: single blanks inside are kept, two end it.\<close>

lemma splitMulti_inside:
  assumes "s \<noteq> []" "last s \<noteq> CHR '' ''" "\<not> Contains s ''  ''" "list_all (\<lambda>c. isSpace c \<longrightarrow> c = CHR '' '') s"
    and "cur \<noteq> []" "k = 0 \<or> (k = 1 \<and> hd s \<noteq> CHR '' '')"
  shows "splitMulti cur k (s @ t) = splitMulti ((if k = 0 then cur else cur @ '' '') @ s) 0 t"
  using assms
proof (induction s arbitrary: cur k)
  case (Cons r s)
  have no: "\<not> Contains s ''  ''" using Cons.prems(3) Contains_append1 [of s "''  ''" "[r]"] by auto
  have tab: "r \<noteq> tab" using Cons.prems(4) by (auto simp: isSpace_def)
  show ?case
  proof (cases "r = CHR '' ''")
    case True
    then have k: "k = 0" and s: "s \<noteq> []" using Cons.prems(2,6) by auto
    have "hd s \<noteq> CHR '' ''"
    proof
      assume "hd s = CHR '' ''"
      with s have "r # s = [] @ ''  '' @ tl s" using True by (cases s) auto
      with Cons.prems(3) show False unfolding Contains_iff by blast
    qed
    with Cons.IH [of cur 1] Cons.prems no s True k show ?thesis by simp
  next
    case False
    let ?cur = "(if k = 0 then cur else cur @ '' '') @ [r]"
    have step: "splitMulti cur k (r # s @ t) = splitMulti ?cur 0 (s @ t)"
      using False tab Cons.prems(5,6) by auto
    show ?thesis
    proof (cases "s = []")
      case True
      with step show ?thesis by simp
    next
      case ne: False
      then have "splitMulti ?cur 0 (s @ t) = splitMulti (?cur @ s) 0 t"
        using Cons.IH [of ?cur 0] Cons.prems(2,4) no by simp
      with step show ?thesis by simp
    qed
  qed
qed simp

lemma splitMulti_cell: "tight s \<Longrightarrow> splitMulti [] k (s @ t) = splitMulti s 0 t"
proof (cases s)
  case (Cons r u)
  assume ok: "tight s"
  then have r: "r \<noteq> CHR '' ''" "r \<noteq> tab" using Cons by (auto simp: tight_def isSpace_def)
  show ?thesis
  proof (cases "u = []")
    case False
    have "\<not> Contains u ''  ''" using ok Cons Contains_append1 [of u "''  ''" "[r]"] by (auto simp: tight_def)
    with splitMulti_inside [of u "[r]" 0 t] ok Cons False r show ?thesis by (simp add: tight_def)
  qed (use r Cons in simp)
qed (simp add: tight_def)

lemma splitMulti_blank: "splitMulti [] k (CHR '' '' # t) = splitMulti [] (Suc k) t"
  by simp

lemma splitMulti_blanks: "splitMulti [] k (replicate n (CHR '' '') @ t) = splitMulti [] (k + n) t"
  by (induction n arbitrary: k) (simp_all del: splitMulti.simps add: splitMulti_blank)

definition gap :: "nat \<Rightarrow> string" where
  "gap n = replicate (n + 2) (CHR '' '')"

lemma splitMulti_gap: "cur \<noteq> [] \<Longrightarrow> splitMulti cur 0 (gap n @ t) = cur # splitMulti [] (n + 2) t"
  using splitMulti_blanks [of 2 n t] by (simp add: gap_def numeral_2_eq_2)

lemma splitMulti_end: "cur \<noteq> [] \<Longrightarrow> splitMulti cur 0 (replicate n (CHR '' '')) = [cur]"
proof (cases n)
  case (Suc m)
  assume "cur \<noteq> []"
  with Suc show ?thesis
    using splitMulti_blanks [of 2 "m - 1" "[]"] by (cases m) (simp_all add: numeral_2_eq_2)
qed simp

record SnapRow =
  swName :: string
  swTime :: string
  swState :: string
  swParent :: string
  swGaps :: "nat \<times> nat \<times> nat \<times> nat"

definition snapRow :: "SnapRow \<Rightarrow> string" where
  "snapRow r =
     (case swGaps r of (a, b, c, d) \<Rightarrow>
        CHR '' '' # swName r @ gap a @ swTime r @ gap b @ swState r
          @ (if swParent r = [] then [] else gap c @ swParent r) @ replicate d (CHR '' ''))"

definition snapRowOk :: "SnapRow \<Rightarrow> bool" where
  "snapRowOk r \<longleftrightarrow> validSnapshotName (swName r) \<and> tight (swTime r) \<and> tight (swState r) \<and>
     (swParent r = [] \<or> tight (swParent r))"

definition snapOf :: "string \<Rightarrow> SnapRow \<Rightarrow> Snapshot" where
  "snapOf cur r =
     \<lparr>snName = swName r, snCreatedAt = swTime r, snState = swState r, snParent = swParent r,
      snDescription = [], snCurrent = (swName r = cur)\<rparr>"

lemma splitColumns_row:
  assumes "snapRowOk r"
  shows "splitColumns (snapRow r) =
    [swName r, swTime r, swState r] @ (if swParent r = [] then [] else [swParent r])"
proof -
  obtain a b c d where g: "swGaps r = (a, b, c, d)" by (cases "swGaps r") auto
  have ok: "tight (swName r)" "tight (swTime r)" "tight (swState r)" "swParent r = [] \<or> tight (swParent r)"
    using assms by (simp_all add: snapRowOk_def validSnapshotName_tight)
  then have ne: "swName r \<noteq> []" "swTime r \<noteq> []" "swState r \<noteq> []" by (simp_all add: tight_def)
  show ?thesis
    unfolding splitColumns_def regexpSplitMulti_def snapRow_def g prod.case splitMulti_blank
    using ok by (cases "swParent r = []") (simp_all del: splitMulti.simps add: splitMulti_cell splitMulti_gap splitMulti_end ne TrimSpace_tight
        append_assoc)
qed

text \<open>The table: a line of headings, a rule of any width, and the rows; virsh pads the first two to the columns.\<close>

definition snapshotTable :: "string \<Rightarrow> nat \<Rightarrow> SnapRow list \<Rightarrow> string" where
  "snapshotTable head k rs =
     concat (map (\<lambda>l. l @ [nl]) (head # replicate (k + 3) (CHR ''-'') # map snapRow rs @ [[]]))"

definition snapHead :: "string \<Rightarrow> bool" where
  "snapHead head \<longleftrightarrow> nl \<notin> set head \<and> \<not> HasPrefix (TrimSpace head) ''---''"

lemma rule_sep: "isSepLine (replicate (k + 3) (CHR ''-''))"
proof -
  have "tidy (replicate (k + 3) (CHR ''-''))"
    by (simp add: tidy_def isSpace_def last_replicate)
  then have "TrimSpace (replicate (k + 3) (CHR ''-'')) = ''---'' @ replicate k (CHR ''-'')"
    by (simp add: TrimSpace_tidy numeral_3_eq_3)
  then show ?thesis unfolding isSepLine_def by (metis prefixI)
qed

lemma TrimFunc_hd_eq: "x \<noteq> [] \<Longrightarrow> \<not> f (hd x) \<Longrightarrow> \<exists>t. x = TrimFunc f x @ t"
  using TrimRightFunc_prefix [of x f] by (auto simp: TrimFunc_def TrimLeftFunc_def dropWhile_hd_id)

lemma snapRow_shape:
  assumes "snapRowOk r"
  shows "\<not> isSepLine (snapRow r)" "nl \<notin> set (snapRow r)"
proof -
  obtain a b c d where g: "swGaps r = (a, b, c, d)" by (cases "swGaps r") auto
  obtain u where u: "snapRow r = CHR '' '' # swName r @ u" by (auto simp: snapRow_def g)
  have v: "validSnapshotName (swName r)" using assms by (simp add: snapRowOk_def)
  then have name: "swName r \<noteq> []" "hd (swName r) \<noteq> CHR ''-''"
    unfolding validSnapshotName_def by presburger+
  have name3: "\<not> isSpace (hd (swName r))"
    using tight_tidy [OF validSnapshotName_tight [OF v]] by (simp add: tidy_def)
  then obtain t where t: "swName r @ u = TrimSpace (swName r @ u) @ t"
    using TrimFunc_hd_eq [of "swName r @ u" isSpace] name(1) name3 by (auto simp: TrimSpace_def)
  show "\<not> isSepLine (snapRow r)"
  proof
    assume "isSepLine (snapRow r)"
    then have "prefix ''---'' (swName r @ u)"
      unfolding isSepLine_def u using t by (metis TrimFunc_after isSpace_simps(1) prefix_prefix)
    with name show False by (cases "swName r") auto
  qed
  show "nl \<notin> set (snapRow r)"
    using assms validSnapshotName_tight [of "swName r"]
    by (auto simp: snapRow_def g gap_def snapRowOk_def dest!: tight_tidy simp: tidy_def)
qed

lemma tableRows_all: "list_all (\<lambda>l. \<not> isSepLine l) ls \<Longrightarrow> tableRows True ls = ls"
  by (induction ls) simp_all

lemma parseSnapshots_table:
  assumes "list_all snapRowOk rs" "snapHead head"
  shows "parseSnapshots (snapshotTable head k rs) = map (snapOf []) rs"
proof -
  let ?dash = "replicate (k + 3) (CHR ''-'')"
  have "Split (snapshotTable head k rs) nl = head # ?dash # map snapRow rs @ [[], []]"
    unfolding snapshotTable_def using assms
    by (subst Split_lines) (auto simp: list_all_iff snapRow_shape snapHead_def)
  moreover have sep: "isSepLine ?dash" "\<not> isSepLine head" "\<not> isSepLine []"
    using rule_sep assms(2) by (simp_all add: snapHead_def isSepLine_def TrimSpace_def TrimFunc_def TrimRightFunc_def TrimLeftFunc_def del: replicate.simps)
  moreover have "list_all (\<lambda>l. \<not> isSepLine l) (map snapRow rs @ [[], []])"
    using assms sep(3) by (auto simp: list_all_iff snapRow_shape)
  ultimately have "tableRows False (Split (snapshotTable head k rs) nl) = map snapRow rs @ [[], []]"
    by (simp add: tableRows_all)
  moreover have "snapshotRow [] = []" by code_simp
  moreover have "snapshotRow (snapRow r) = [snapOf [] r]" if "r \<in> set rs" for r
  proof -
    have ok: "snapRowOk r" using assms that by (simp add: list_all_iff)
    then have "swName r \<noteq> []" by (auto simp: snapRowOk_def validSnapshotName_def)
    with splitColumns_row [OF ok] show ?thesis by (simp add: snapshotRow_def snapOf_def)
  qed
  then have "concat (map snapshotRow (map snapRow rs)) = map (snapOf []) rs"
    by (induction rs) simp_all
  ultimately show ?thesis by (simp add: parseSnapshots_def)
qed

text \<open>
  C22: every snapshot that the daemon lets a user create is listed back. If \<open>virsh\<close> prints its table for
  some snapshots whose names the daemon accepts, with blanks inside the names, with columns of any
  width and any headings and rule above them, the list has exactly these snapshots with their times, states and parents, and marks the one
  that \<open>snapshot-current\<close> names, or none if that call fails.
\<close>

theorem snapshot_list_readback:
  assumes "list_all snapRowOk rs" "snapHead head"
    and "exec env (Bin c) [''snapshot-list'', d, ''--parent''] (files w) (hyp w) = (ExecOK (snapshotTable head k rs), h)"
    and "tight cur \<and> exec env (Bin c) [''snapshot-current'', d, ''--name''] (files w) h = (ExecOK (cur @ [nl]), h') \<or>
      cur = [] \<and> exec env (Bin c) [''snapshot-current'', d, ''--name''] (files w) h = (ExecFail out err ex, h')"
  shows "fst (virsh_ListSnapshots env c d w) = Inr (map (snapOf cur) rs)"
proof -
  have names: "swName r \<noteq> []" if "r \<in> set rs" for r
    using assms(1) that by (auto simp: list_all_iff snapRowOk_def validSnapshotName_def)
  let ?w = "snd (Client_run env c [''snapshot-list'', d, ''--parent''] w)"
  have list: "fst (Client_run env c [''snapshot-list'', d, ''--parent''] w) = Inr (snapshotTable head k rs)"
    and w: "files ?w = files w" "hyp ?w = h"
    using assms(3) by (simp_all add: Client_run_def os_exec_def)
  have mark: "markCurrent (fst (virsh_CurrentSnapshot env c d ?w)) (map (snapOf []) rs) = map (snapOf cur) rs"
    using assms(4)
  proof
    assume cur: "tight cur \<and> exec env (Bin c) [''snapshot-current'', d, ''--name''] (files w) h = (ExecOK (cur @ [nl]), h')"
    then have "TrimSpace (cur @ [nl]) = cur"
      using tight_tidy [of cur]
      by (simp add: tidy_def TrimSpace_def TrimFunc_def TrimRightFunc_def TrimLeftFunc_def
          dropWhile_hd_id [where s = "cur @ [nl]"] dropWhile_hd_id [where s = "rev cur"] hd_rev)
    with cur w have "fst (virsh_CurrentSnapshot env c d ?w) = Inr cur"
      by (simp add: virsh_CurrentSnapshot_def tryAct_def Client_run_def os_exec_def retAct_def)
    with names cur show ?thesis by (auto simp: markCurrent_def snapOf_def tight_def)
  next
    assume none: "cur = [] \<and> exec env (Bin c) [''snapshot-current'', d, ''--name''] (files w) h = (ExecFail out err ex, h')"
    then have "fst (virsh_CurrentSnapshot env c d ?w) \<in> {Inr []} \<union> range Inl"
      using w by (simp add: virsh_CurrentSnapshot_def tryAct_def Client_run_def os_exec_def retAct_def failAct_def)
    with none show ?thesis by (auto simp: markCurrent_def)
  qed
  show ?thesis
    using list mark parseSnapshots_table [OF assms(1,2), of k]
    by (cases "Client_run env c [''snapshot-list'', d, ''--parent''] w")
      (auto simp: virsh_ListSnapshots_def bindAct_def tryAct_def retAct_def split: prod.split)
qed

definition demoSnap :: SnapRow where
  "demoSnap = \<lparr>swName = ''before update'', swTime = ''2024-05-01 10:00:00 +0200'', swState = ''shutoff'',
     swParent = [], swGaps = (1, 1, 1, 3)\<rparr>"

definition demoHead :: string where
  "demoHead = '' Name            Creation Time               State     Parent''"

theorem snapshot_list_readback_witness:
  "fst (virsh_ListSnapshots (scriptEnv (\<lambda>args. if hd args = ''snapshot-list'' then snapshotTable demoHead 36 [demoSnap] else ''before update'' @ [nl]))
      (virsh_New []) ''win'' emptyWorld) = Inr [snapOf ''before update'' demoSnap]"
proof -
  have "list_all snapRowOk [demoSnap]" by code_simp
  moreover have "tight ''before update''" "snapHead demoHead" by code_simp+
  ultimately show ?thesis
    using snapshot_list_readback [of "[demoSnap]" demoHead "scriptEnv (\<lambda>args. if hd args = ''snapshot-list'' then snapshotTable demoHead 36 [demoSnap] else ''before update'' @ [nl])"
        "virsh_New []" "''win''" emptyWorld 36 "()" "''before update''" "()"] by simp
qed

end
