(* ===== verification/SystemProps.thy ===== *)
theory SystemProps
  imports StoreProps Gateway Watchdog Storage Settings
begin

section \<open>Properties of the daemon's own surroundings\<close>

text \<open>
  The registration with the gateway, the systemd units, the list of storage targets and the settings.
\<close>

subsection \<open>The gateway\<close>

definition delayAt :: "nat \<Rightarrow> int" where
  "delayAt i = min (2 ^ (i + 1)) 32 * second"

lemma nextDelay_at: "nextDelay (delayAt i) = delayAt (Suc i)"
proof (cases "i < 4")
  case True
  then have "i \<in> {0, 1, 2, 3}" by auto
  then show ?thesis
    by (auto simp: delayAt_def nextDelay_def maxDelay_def second_def int64_def signed_take_bit_eq_take_bit_minus
        take_bit_eq_mod)
next
  case False
  have "(2::int) ^ 5 \<le> 2 ^ (j + 1)" if "4 \<le> j" for j :: nat
    using that by (intro power_increasing) auto
  from this [of i] this [of "Suc i"] False show ?thesis
    by (simp add: delayAt_def nextDelay_def maxDelay_def second_def min_def)
qed

text \<open>The world before the attempt \<open>k\<close> after the \<open>i\<close>-th, each earlier one followed by its wait.\<close>

fun attemptWorld ::
  "(int \<Rightarrow> 'h \<Rightarrow> 'h) \<Rightarrow> 'h env \<Rightarrow> 'h poster \<Rightarrow> GatewayManager \<Rightarrow> nat \<Rightarrow> 'h world \<Rightarrow> nat \<Rightarrow> 'h world" where
  "attemptWorld sleep env post m i w 0 = w"
| "attemptWorld sleep env post m i w (Suc k) =
     attemptWorld sleep env post m (Suc i) (time_Sleep sleep (delayAt i) (snd (gateway_Register env post m w))) k"

definition succeeds :: "'h env \<Rightarrow> 'h poster \<Rightarrow> GatewayManager \<Rightarrow> 'h world \<Rightarrow> bool" where
  "succeeds env post m w \<longleftrightarrow> is_ok (fst (gateway_Register env post m w))"

lemma all_less_Suc: "(\<forall>k < Suc n. P k) \<longleftrightarrow> P 0 \<and> (\<forall>k < n. P (Suc k))"
  by (auto simp: less_Suc_eq_0_disj)

lemma retry_shape:
  "\<exists>ok n w'. gateway_retry sleep env post m fuel (delayAt i) w = ((ok, map delayAt [i..<i + n]), w') \<and> n \<le> fuel \<and>
    (\<forall>k < n. \<not> succeeds env post m (attemptWorld sleep env post m i w k)) \<and>
    (if ok then n < fuel \<and> succeeds env post m (attemptWorld sleep env post m i w n) \<and>
       w' = snd (gateway_Register env post m (attemptWorld sleep env post m i w n)) \<and>
       (\<forall>f \<ge> fuel. gateway_retry sleep env post m f (delayAt i) w = ((ok, map delayAt [i..<i + n]), w'))
     else n = fuel \<and> w' = attemptWorld sleep env post m i w n)"
proof (induction fuel arbitrary: i w)
  case 0
  show ?case by auto
next
  case (Suc fuel)
  obtain r w1 where r: "gateway_Register env post m w = (r, w1)" by fastforce
  show ?case
  proof (cases r)
    case (Inr u)
    have "gateway_retry sleep env post m f (delayAt i) w = ((True, []), w1)" if "Suc fuel \<le> f" for f
      using that r Inr by (cases f) auto
    with r Inr show ?thesis
      by (intro exI [of _ True] exI [of _ 0] exI [of _ w1]) (simp add: succeeds_def)
  next
    case (Inl e)
    let ?w = "time_Sleep sleep (delayAt i) w1" and ?A = "attemptWorld sleep env post m"
    obtain ok n w' where ih: "gateway_retry sleep env post m fuel (delayAt (Suc i)) ?w = ((ok, map delayAt [Suc i..<Suc i + n]), w')"
      "n \<le> fuel" "\<forall>k < n. \<not> succeeds env post m (?A (Suc i) ?w k)"
      and fin: "if ok then n < fuel \<and> succeeds env post m (?A (Suc i) ?w n) \<and>
          w' = snd (gateway_Register env post m (?A (Suc i) ?w n)) \<and>
          (\<forall>f \<ge> fuel. gateway_retry sleep env post m f (delayAt (Suc i)) ?w = ((ok, map delayAt [Suc i..<Suc i + n]), w'))
        else n = fuel \<and> w' = ?A (Suc i) ?w n"
      using Suc.IH by blast
    have A: "?A i w (Suc k) = ?A (Suc i) ?w k" for k using r by simp
    have first: "\<not> succeeds env post m (?A i w 0)" using r Inl by (simp add: succeeds_def)
    have cons: "delayAt i # map delayAt [Suc i..<Suc i + n] = map delayAt [i..<i + Suc n]"
      by (simp add: upt_conv_Cons del: upt_Suc)
    have run: "gateway_retry sleep env post m (Suc f) (delayAt i) w = ((ok, map delayAt [i..<i + Suc n]), w')"
      if "gateway_retry sleep env post m f (delayAt (Suc i)) ?w = ((ok, map delayAt [Suc i..<Suc i + n]), w')" for f
      using r Inl that cons by (simp add: nextDelay_at)
    have larger: "gateway_retry sleep env post m f (delayAt i) w = ((ok, map delayAt [i..<i + Suc n]), w')"
      if "ok" "Suc fuel \<le> f" for f
      using that fin run [of "f - 1"] by (cases f) auto
    have fails: "\<forall>k < Suc n. \<not> succeeds env post m (?A i w k)"
      unfolding all_less_Suc A using first ih(3) by simp
    show ?thesis
    proof (intro exI conjI)
      show "gateway_retry sleep env post m (Suc fuel) (delayAt i) w = ((ok, map delayAt [i..<i + Suc n]), w')"
        by (rule run [OF ih(1)])
      show "Suc n \<le> Suc fuel" using ih(2) by simp
      show "\<forall>k < Suc n. \<not> succeeds env post m (?A i w k)" by (rule fails)
      show "if ok then Suc n < Suc fuel \<and> succeeds env post m (?A i w (Suc n)) \<and>
          w' = snd (gateway_Register env post m (?A i w (Suc n))) \<and>
          (\<forall>f \<ge> Suc fuel. gateway_retry sleep env post m f (delayAt i) w = ((ok, map delayAt [i..<i + Suc n]), w'))
        else Suc n = Suc fuel \<and> w' = ?A i w (Suc n)"
        unfolding A using fin larger by (cases ok) simp_all
    qed
  qed
qed

text \<open>
  C38: registration is retried until it succeeds, and stops there. Whatever the gateway answers, the
  waits are of 2, 4, 8, 16 and from then on 32 seconds, one after each attempt that failed; every attempt before the
  last one failed; the loop reports success exactly after an attempt that succeeded, which is its last, and then it gives the
  same result for any larger bound; and while no attempt succeeds it goes on for as long as it is let.
\<close>

theorem gateway_retry_ends:
  "\<exists>ok ds w'. gateway_retry sleep env post m fuel (2 * second) w = ((ok, ds), w') \<and>
    ds = map (\<lambda>i. min (2 ^ (i + 1)) 32 * second) [0..<length ds] \<and>
    (\<forall>k < length ds. \<not> succeeds env post m (attemptWorld sleep env post m 0 w k)) \<and>
    (if ok then length ds < fuel \<and> succeeds env post m (attemptWorld sleep env post m 0 w (length ds)) \<and>
       w' = snd (gateway_Register env post m (attemptWorld sleep env post m 0 w (length ds))) \<and>
       (\<forall>f \<ge> fuel. gateway_retry sleep env post m f (2 * second) w = ((ok, ds), w'))
     else length ds = fuel \<and> w' = attemptWorld sleep env post m 0 w fuel)"
proof -
  have two: "2 * second = delayAt 0" by (simp add: delayAt_def)
  let ?A = "attemptWorld sleep env post m 0 w"
  obtain ok n w' where r: "gateway_retry sleep env post m fuel (delayAt 0) w = ((ok, map delayAt [0..<0 + n]), w')"
    "\<forall>k < n. \<not> succeeds env post m (?A k)"
    "if ok then n < fuel \<and> succeeds env post m (?A n) \<and> w' = snd (gateway_Register env post m (?A n)) \<and>
       (\<forall>f \<ge> fuel. gateway_retry sleep env post m f (delayAt 0) w = ((ok, map delayAt [0..<0 + n]), w'))
     else n = fuel \<and> w' = ?A n"
    using retry_shape [of sleep env post m fuel 0 w] by blast
  show ?thesis
    unfolding two using r
    by (intro exI [of _ ok] exI [of _ "map delayAt [0..<n]"] exI [of _ w']) (auto simp: delayAt_def)
qed

definition demoGateway :: GatewayManager where
  "demoGateway = \<lparr>gwURLFile = ''/u'', gwPath = ''/v2/vm_extras'', gwTarget = ''http://127.0.0.1:8473''\<rparr>"

theorem gateway_retry_ends_witness:
  "\<exists>ok ds w'. gateway_retry (\<lambda>_ h. h) quietEnv (\<lambda>_ _ h. (Inr (503, []), h)) demoGateway 6 (2 * second) emptyWorld = ((ok, ds), w') \<and>
    ds = map (\<lambda>i. min (2 ^ (i + 1)) 32 * second) [0..<length ds]"
  using gateway_retry_ends [of "\<lambda>_ h. h" quietEnv "\<lambda>_ _ h. (Inr (503, []), h)" demoGateway 6 emptyWorld] by blast

subsection \<open>The watchdog units\<close>

lemma ord_units: "is_order ord \<Longrightarrow> distinct (map (\<lambda>u. unitPath (fst u)) (ord units))" "is_order ord \<Longrightarrow> set (ord units) = set units"
proof -
  assume "is_order ord"
  then have "mset (map (\<lambda>u. unitPath (fst u)) (ord units)) = mset (map (\<lambda>u. unitPath (fst u)) units)"
    by (simp add: is_order_mset)
  moreover have "distinct (map (\<lambda>u. unitPath (fst u)) units)"
    by (simp add: units_def unitPath_simps)
  ultimately show "distinct (map (\<lambda>u. unitPath (fst u)) (ord units))" by (metis mset_eq_imp_distinct_iff)
qed simp

lemma installUnits_again:
  assumes "\<forall>(n, t) \<in> set us. os_ReadFile env (unitPath n) w = Inr (Text t)"
  shows "installUnits env changed us w = (Inr changed, w)"
  using assms by (induction us) auto

text \<open>
  C39: installing the boot-time watchdog is complete and idempotent. After a run that reports success the two
  unit files hold exactly the shipped units and no other file has changed, in whatever order they were
  written; a second run writes no file and does not reload systemd, it only enables the timer again.
\<close>

theorem install_idempotent:
  assumes "EnsureInstalled ord env w = (Inr (), w')" "is_order ord"
    and "\<And>p fs. \<not> osFault env OpRead p fs"
  shows "files w' = (files w)(unitPath serviceName \<mapsto> Text serviceUnit, unitPath timerName \<mapsto> Text timerUnit) \<and>
    files (snd (EnsureInstalled ord env w')) = files w' \<and>
    ranSince w' (snd (EnsureInstalled ord env w')) = [[''enable'', ''--now'', timerName]]"
proof -
  obtain ch w1 where inst: "installUnits env False (ord units) w = (Inr ch, w1)"
    using assms(1) by (auto simp: EnsureInstalled_def bindAct_def split: prod.splits sum.splits)
  have fs: "files w' = files w1"
    using assms(1) inst systemctl_files [of env "[''daemon-reload'']" w1]
    by (auto simp: EnsureInstalled_def bindAct_def retAct_def split: prod.splits sum.splits if_splits)
      (metis snd_conv systemctl_files)+
  note new = installUnits_files [OF ord_units(1) [OF assms(2)] inst, unfolded ord_units(2) [OF assms(2)]]
  have neq: "unitPath serviceName \<noteq> unitPath timerName" by (simp add: unitPath_simps)
  have files: "files w' = (files w)(unitPath serviceName \<mapsto> Text serviceUnit, unitPath timerName \<mapsto> Text timerUnit)"
    using new fs neq by (auto simp: units_def fun_eq_iff)
  have "\<forall>(n, t) \<in> set (ord units). os_ReadFile env (unitPath n) w' = Inr (Text t)"
    unfolding ord_units(2) [OF assms(2)] using new fs assms(3) by (auto simp: os_ReadFile_def units_def)
  then have again: "installUnits env False (ord units) w' = (Inr False, w')" by (rule installUnits_again)
  have sys: "ranSince w (snd (systemctl env args w)) = [args]" for args w
    using cmds_os_exec [of env "''systemctl''" args w]
    by (auto simp: systemctl_def ranSince_def split: prod.splits exec_result.splits)
  have "snd (EnsureInstalled ord env w') = snd (systemctl env [''enable'', ''--now'', timerName] w')"
    by (simp add: EnsureInstalled_def bindAct_def again retAct_def)
  with files sys show ?thesis by (simp add: systemctl_files)
qed

theorem install_idempotent_witness:
  "\<exists>w'. EnsureInstalled rev quietEnv emptyWorld = (Inr (), w') \<and> files w' (unitPath timerName) = Some (Text timerUnit)"
proof -
  have "\<exists>w'. EnsureInstalled rev quietEnv emptyWorld = (Inr (), w')"
    by (simp add: EnsureInstalled_def units_def bindAct_def emptyWorld_def os_ReadFile_def os_WriteFile_def systemctl_def
        os_exec_def unitPath_simps)
  then obtain w' where r: "EnsureInstalled rev quietEnv emptyWorld = (Inr (), w')" by blast
  from install_idempotent [OF r is_order_id(3)] r show ?thesis by simp
qed

subsection \<open>Storage targets\<close>

definition mountRows :: "string \<Rightarrow> string list list" where
  "mountRows b = filter offered (map Fields (scanLines b))"

lemma scanTargets_rows:
  "t \<in> set (scanTargets statfs seen ls) \<Longrightarrow>
   \<exists>f. find (\<lambda>f. f ! 0 = tgSource t) (filter offered (map Fields ls)) = Some f \<and> t = mkTarget statfs (f ! 0) (f ! 1) (f ! 2)"
  "tgSource ` set (scanTargets statfs seen ls) = (\<lambda>f. f ! 0) ` set (filter offered (map Fields ls)) - set seen"
proof -
  show "\<exists>f. find (\<lambda>f. f ! 0 = tgSource t) (filter offered (map Fields ls)) = Some f \<and> t = mkTarget statfs (f ! 0) (f ! 1) (f ! 2)"
    if "t \<in> set (scanTargets statfs seen ls)"
    using that
  proof (induction ls arbitrary: seen)
    case (Cons l ls)
    let ?f = "Fields l"
    show ?case
    proof (cases "\<not> offered ?f \<or> ?f ! 0 \<in> set seen")
      case True
      then have t: "t \<in> set (scanTargets statfs seen ls)" using Cons.prems by (simp add: Let_def)
      moreover have "tgSource t \<notin> set seen"
        using scanTargets_fresh [of statfs seen ls] imageI [OF t, of tgSource] by auto
      ultimately show ?thesis using Cons.IH [OF t] True by auto
    next
      case False
      show ?thesis
      proof (cases "t = mkTarget statfs (?f ! 0) (?f ! 1) (?f ! 2)")
        case True
        with False show ?thesis by simp
      next
        case other: False
        with Cons.prems False have t: "t \<in> set (scanTargets statfs (?f ! 0 # seen) ls)" by (simp add: Let_def)
        have "tgSource t \<noteq> ?f ! 0"
          using scanTargets_fresh [of statfs "?f ! 0 # seen" ls] imageI [OF t, of tgSource] by auto
        with Cons.IH [OF t] show ?thesis by auto
      qed
    qed
  qed simp
  show "tgSource ` set (scanTargets statfs seen ls) = (\<lambda>f. f ! 0) ` set (filter offered (map Fields ls)) - set seen"
  proof (induction ls arbitrary: seen)
    case (Cons l ls)
    then show ?case by (auto simp: Let_def)
  qed simp
qed

text \<open>
  C35: the list of targets is what the kernel reports, and safe to offer. With the rows of \<open>/proc/mounts\<close> that are
  no pseudo file system, not below a system path, not read-only and no FUSE file system other than the two
  that are supported: every source among these rows is listed exactly once, and each target is the first row of its source,
  with that row's path and file system type and the capacity \<open>statfs\<close> gives. \<open>/DATA\<close>, if it is there, comes first and the
  rest by path; and exactly the first one is suggested, whatever order the entries were collected in.
\<close>

theorem storage_targets_offered:
  assumes "storage_List env statfs ord w = Inr ts" "is_order ord"
  shows "(\<exists>b. procMounts env (hyp w) = Some b \<and>
      set (map tgSource ts) = set (map (\<lambda>f. f ! 0) (mountRows b)) \<and>
      list_all (\<lambda>t. case find (\<lambda>f. f ! 0 = tgSource t) (mountRows b) of
          None \<Rightarrow> False
        | Some f \<Rightarrow> t\<lparr>tgSuggested := False\<rparr> = mkTarget statfs (f ! 0) (f ! 1) (f ! 2)) ts) \<and>
    distinct (map tgSource ts) \<and>
    list_all (\<lambda>t. tgFsType t \<notin> set pseudoFS \<and> \<not> isSystemPath (tgPath t)) ts \<and>
    sorted (map (\<lambda>t. (tgPath t \<noteq> ''/DATA'', tgPath t)) ts) \<and>
    map tgSuggested ts = map (\<lambda>i. i = 0) [0..<length ts]"
proof -
  obtain b where b: "procMounts env (hyp w) = Some b"
    and ts: "ts = markSuggested (dataFirst ord (scanTargets statfs [] (scanLines b)))"
    using assms(1) by (auto simp: storage_List_def split: option.splits if_splits)
  let ?raw = "scanTargets statfs [] (scanLines b)" and ?l = "dataFirst ord (scanTargets statfs [] (scanLines b))"
  have mark: "map f (markSuggested l) = map f l" if "\<And>t. f (t\<lparr>tgSuggested := True\<rparr>) = f t" for f :: "Target \<Rightarrow> 'b" and l
    using that by (simp add: markSuggested_def split: list.split)
  have "mset (map tgSource ?l) = mset (map tgSource ?raw)"
    by (simp add: mset_dataFirst [OF assms(2)])
  then have "distinct (map tgSource ?l)"
    using scanTargets_fresh [of statfs "[]" "scanLines b"] by (metis mset_eq_imp_distinct_iff)
  moreover have all: "tgFsType t \<notin> set pseudoFS \<and> \<not> isSystemPath (tgPath t) \<and> \<not> tgSuggested t" if "t \<in> set ?l" for t
  proof -
    have "t \<in> set ?raw" using that set_dataFirst [OF assms(2)] by blast
    then show ?thesis by (rule scanTargets_offered)
  qed
  moreover have "sorted (map (\<lambda>t. (tgPath t \<noteq> ''/DATA'', tgPath t)) ?l)"
    unfolding dataFirst_def by (rule sorted_sort_key)
  moreover have "map tgSuggested (markSuggested ?l) = map (\<lambda>i. i = 0) [0..<length (markSuggested ?l)]"
  proof (cases ?l)
    case (Cons t us)
    then have "\<forall>u \<in> set us. \<not> tgSuggested u" using all by (metis list.set_intros(2))
    then have "map tgSuggested us = map (\<lambda>i. i = 0) (map Suc [0..<length us])"
      by (intro nth_equalityI) auto
    with Cons show ?thesis by (simp add: markSuggested_def upt_conv_Cons map_Suc_upt del: upt_Suc)
  qed (simp add: markSuggested_def)
  moreover have "list_all (\<lambda>t. tgFsType t \<notin> set pseudoFS \<and> \<not> isSystemPath (tgPath t)) (markSuggested ?l)"
    using all by (cases ?l) (auto simp: markSuggested_def list_all_iff)
  moreover have "set (map tgSource ?l) = set (map (\<lambda>f. f ! 0) (mountRows b))"
    using scanTargets_rows(2) [of statfs "[]" "scanLines b"] by (simp add: set_dataFirst [OF assms(2)] mountRows_def)
  moreover have "list_all (\<lambda>t. case find (\<lambda>f. f ! 0 = tgSource t) (mountRows b) of
      None \<Rightarrow> False
    | Some f \<Rightarrow> t\<lparr>tgSuggested := False\<rparr> = mkTarget statfs (f ! 0) (f ! 1) (f ! 2)) (markSuggested ?l)"
  proof -
    let ?P = "\<lambda>t. case find (\<lambda>f. f ! 0 = tgSource t) (mountRows b) of
      None \<Rightarrow> False
    | Some f \<Rightarrow> t\<lparr>tgSuggested := False\<rparr> = mkTarget statfs (f ! 0) (f ! 1) (f ! 2)"
    have plain: "t\<lparr>tgSuggested := False\<rparr> = t" if "\<not> tgSuggested t" for t :: Target
      using that by (cases t) simp
    have "?P t" if "t \<in> set ?l" for t
    proof -
      have "t \<in> set ?raw" using that set_dataFirst [OF assms(2)] by blast
      from scanTargets_rows(1) [OF this] obtain f where
        "find (\<lambda>f. f ! 0 = tgSource t) (mountRows b) = Some f" "t = mkTarget statfs (f ! 0) (f ! 1) (f ! 2)"
        unfolding mountRows_def by blast
      with all [OF that] plain [of t] show ?thesis by simp
    qed
    moreover have "?P (t\<lparr>tgSuggested := True\<rparr>) \<longleftrightarrow> ?P t" for t by (simp cong: option.case_cong)
    ultimately show ?thesis by (cases ?l) (simp_all add: markSuggested_def list_all_iff)
  qed
  ultimately show ?thesis using b by (simp add: ts mark)
qed

definition mountsText :: string where
  "mountsText = ''/dev/sda1 /media/usb ext4 rw,relatime 0 0'' @ [nl] @ ''/dev/sdb1 /DATA btrfs rw 0 0'' @ [nl] @
     ''proc /proc proc rw 0 0'' @ [nl]"

theorem storage_targets_offered_witness:
  "\<exists>ts. storage_List (quietEnv\<lparr>procMounts := \<lambda>_. Some mountsText\<rparr>) (\<lambda>_. None) rev emptyWorld = Inr ts \<and>
     distinct (map tgSource ts) \<and> map tgSuggested ts = map (\<lambda>i. i = 0) [0..<length ts]"
proof -
  have "map length (Split mountsText nl) = [41, 28, 22, 0]" by code_simp
  then have "list_all (\<lambda>n. n < maxTokenSize) (map length (Split mountsText nl))" by (simp add: maxTokenSize_def)
  then have "\<not> tooLong mountsText" by (auto simp: tooLong_def list_ex_iff list_all_iff)
  then obtain ts where ts: "storage_List (quietEnv\<lparr>procMounts := \<lambda>_. Some mountsText\<rparr>) (\<lambda>_. None) rev emptyWorld = Inr ts"
    by (simp add: storage_List_def)
  from storage_targets_offered [OF ts is_order_id(3)] ts show ?thesis by blast
qed

subsection \<open>Settings\<close>

text \<open>
  C40: settings are not lost. Settings whose \<open>Set\<close> reports success are read back by the next start; when it
  reports an error the file still holds what it held, so the next start reads the old ones.
\<close>

theorem settings_survive_restart:
  assumes "settings_Set env d s w = (r, s1, w1)" "\<And>fs. \<not> osFault env OpRead (ssPath s) fs"
  shows "settings_NewStore env w1 (ssPath s) =
    (case r of Inr _ \<Rightarrow> Inr \<lparr>ssPath = ssPath s, ssData = d\<rparr> | Inl _ \<Rightarrow> settings_NewStore env w (ssPath s))"
proof (cases r)
  case (Inr u)
  then have "s1 = \<lparr>ssPath = ssPath s, ssData = d\<rparr>"
    using assms(1) by (cases s) (simp add: settings_Set_def Let_def split: prod.splits)
  with settings_reopen [of env d s w s1 w1] assms Inr show ?thesis by simp
next
  case (Inl e)
  then have "publish env (ssPath s) (settings_enc d) w = (Inl e, w1)"
    using assms(1) by (simp add: settings_Set_def settings_save_def Let_def split: prod.splits)
  from publish_Inl [OF this] assms(2) have "os_ReadFile env (ssPath s) w1 = os_ReadFile env (ssPath s) w"
    by (simp add: os_ReadFile_def split: option.split)
  with Inl show ?thesis by (simp add: settings_NewStore_def settings_load_def)
qed

theorem settings_survive_restart_witness:
  "settings_NewStore quietEnv (snd (snd (settings_Set quietEnv \<lparr>sBackupDir = ''/DATA/b'', sSnapshotDir = []\<rparr>
      \<lparr>ssPath = ''/d/settings.json'', ssData = zeroSettings\<rparr> emptyWorld))) ''/d/settings.json'' =
    Inr \<lparr>ssPath = ''/d/settings.json'', ssData = \<lparr>sBackupDir = ''/DATA/b'', sSnapshotDir = []\<rparr>\<rparr>"
proof -
  let ?d = "\<lparr>sBackupDir = ''/DATA/b'', sSnapshotDir = []\<rparr>"
  obtain s1 w1 where r: "settings_Set quietEnv ?d \<lparr>ssPath = ''/d/settings.json'', ssData = zeroSettings\<rparr> emptyWorld = (Inr (), s1, w1)"
    using publish_quiet [of "\<lambda>_. []" "''/d/settings.json''" "settings_enc ?d" emptyWorld]
    by (cases "publish quietEnv ''/d/settings.json'' (settings_enc ?d) emptyWorld")
      (simp add: settings_Set_def settings_save_def Let_def)
  from settings_survive_restart [OF r] r show ?thesis by simp
qed

end
