(* ===== verification/ResponseProps.thy ===== *)
theory ResponseProps
  imports RequestProps
begin

section \<open>Properties of the answers\<close>

text \<open>
  What an answer looks like, and what it says about the state. \<open>finals P h\<close>: every answer of the handler
  \<open>h\<close> satisfies \<open>P\<close>; \<open>answers P m\<close>: so does every answer with which a step \<open>m\<close> of a handler returns early.
\<close>

definition answers :: "(response \<Rightarrow> bool) \<Rightarrow> ('a, 's) hact \<Rightarrow> bool" where
  "answers P m \<longleftrightarrow> (\<forall>s. case fst (m s) of Inl r \<Rightarrow> P r | Inr _ \<Rightarrow> True)"

definition finals :: "(response \<Rightarrow> bool) \<Rightarrow> (response, 's) hact \<Rightarrow> bool" where
  "finals P h \<longleftrightarrow> (\<forall>s. P (fst (runH h s)))"

lemma answersD: "answers P m \<Longrightarrow> m s = (Inl r, s') \<Longrightarrow> P r"
  unfolding answers_def by (metis fst_conv sum.case(1))

lemma finals_bind: "answers P m \<Longrightarrow> (\<And>a. finals P (k a)) \<Longrightarrow> finals P (bindH m k)"
  unfolding finals_def
proof
  fix s
  assume m: "answers P m" and k: "\<And>a. \<forall>s. P (fst (runH (k a) s))"
  obtain r s' where "m s = (r, s')" by fastforce
  with answersD [OF m, of s] k show "P (fst (runH (bindH m k) s))"
    by (cases r) (simp_all add: runH_def bindH_def)
qed

lemma finals_guard: "(b \<Longrightarrow> P r) \<Longrightarrow> (\<not> b \<Longrightarrow> finals P (k ())) \<Longrightarrow> finals P (bindH (rejectIf b r) k)"
  by (cases b) (simp_all add: finals_def)

lemma finals_ret: "P r \<Longrightarrow> finals P (retH r)"
  by (simp add: finals_def)

lemma finals_respond: "P r \<Longrightarrow> finals P (respond r)"
  by (simp add: finals_def)

lemma finals_gets: "(\<And>s. P (f s)) \<Longrightarrow> finals P (getsH f)"
  by (simp add: finals_def runH_def getsH_def)

lemma finals_if: "(b \<Longrightarrow> finals P m) \<Longrightarrow> (\<not> b \<Longrightarrow> finals P n) \<Longrightarrow> finals P (if b then m else n)"
  by simp

lemma answers_orFail: "(\<And>e. P (writeErrOf c pre e)) \<Longrightarrow> answers P (orFail c pre r)"
  by (cases r) (simp_all add: answers_def orFail_def respond_def retH_def)

lemma answers_bind: "answers P m \<Longrightarrow> (\<And>a. answers P (k a)) \<Longrightarrow> answers P (bindH m k)"
proof -
  assume m: "answers P m" and k: "\<And>a. answers P (k a)"
  show "answers P (bindH m k)"
    unfolding answers_def
  proof
    fix s
    obtain r s' where "m s = (r, s')" by fastforce
    with answersD [OF m, of s] k show "case fst (bindH m k s) of Inl r \<Rightarrow> P r | Inr _ \<Rightarrow> True"
      by (cases r) (simp_all add: bindH_def answers_def)
  qed
qed

lemma answers_virshH: "(\<And>e. P (writeErrOf c pre e)) \<Longrightarrow> answers P (virshH c pre m)"
  unfolding virshH_def by (intro answers_bind answers_orFail) (auto simp: answers_def worldH_def split: prod.split)

text \<open>The steps that never end a request.\<close>

lemma answers_simps [simp]:
  "answers P (retH a)" "answers P (getsH f)" "answers P (worldH m)" "answers P (usbH f1)" "answers P (pciH f2)"
  "answers P (vncH f3)" "answers P (tpmH f4)" "answers P (autoH f5)" "answers P (schedH f6)" "answers P (mountsH f7)"
  "answers P (backupH f8)" "answers P (settingsH f9)" "answers P (launchJob l)"
  by (simp_all add: answers_def retH_def getsH_def worldH_def usbH_def pciH_def vncH_def tpmH_def autoH_def schedH_def
      mountsH_def backupH_def settingsH_def launchJob_def split: prod.split)

lemma answers_virshOr [simp]: "answers P (virshOr zero m)"
  unfolding virshOr_def by (intro answers_bind) simp_all

lemma answers_rejectIf: "(b \<Longrightarrow> P r) \<Longrightarrow> answers P (rejectIf b r)"
  by (cases b) (simp_all add: answers_def rejectIf_def respond_def retH_def)

lemma answers_if: "(b \<Longrightarrow> answers P m) \<Longrightarrow> (\<not> b \<Longrightarrow> answers P n) \<Longrightarrow> answers P (if b then m else n)"
  by simp

lemma answers_forH: "(\<And>x. answers P (f x)) \<Longrightarrow> answers P (forH f xs)"
  by (induction xs) (auto intro!: answers_bind)

lemma answers_arm [simp]:
  fixes cx :: "'b ctx"
  shows "answers P (armMemStats cx vm stats)"
proof -
  have "answers P (bindH (worldH m) (\<lambda>r. case r of Inl _ \<Rightarrow> retH stats | Inr _ \<Rightarrow> virshOr stats n))"
    for m :: "(unit, 'b world) act" and n
    by (intro answers_bind) (auto split: sum.split)
  then have "case fst (bindH (worldH m) (\<lambda>r. case r of Inl _ \<Rightarrow> retH stats | Inr _ \<Rightarrow> virshOr stats n) s) of
      Inl r \<Rightarrow> P r | Inr _ \<Rightarrow> True" for m :: "(unit, 'b world) act" and n s
    unfolding answers_def by blast
  then show ?thesis by (simp add: answers_def armMemStats_def Let_def)
qed

lemmas answer_intros = finals_guard finals_bind finals_ret finals_respond finals_gets finals_if answers_orFail answers_virshH
  answers_forH answers_rejectIf answers_bind answers_if

subsection \<open>The shape of an answer\<close>

definition apiAnswer :: "response \<Rightarrow> bool" where
  "apiAnswer r \<longleftrightarrow>
     fst r \<in> {200, 201, 202, 207} \<or>
     fst r \<in> {400, 404, 405, 500} \<and> (\<exists>p. snd r = PObj [(''error'', p)])"

lemma apiAnswer_simps [simp]:
  "apiAnswer (200, p)" "apiAnswer (201, p)" "apiAnswer (202, p)" "apiAnswer (207, p)"
  "apiAnswer (writeErr 400 m)" "apiAnswer (writeErr 404 m)" "apiAnswer (writeErrOf 400 pre e)"
  "apiAnswer (writeErrOf 500 pre e)" "apiAnswer methodNotAllowed" "apiAnswer (okFlag k)" "apiAnswer (dataOf xs)"
  by (simp_all add: apiAnswer_def writeErr_def writeErrOf_def methodNotAllowed_def okFlag_def dataOf_def)

lemma api_finals:
  assumes "(p, r) \<in> set (api_routes :: 'h route list)"
  shows "finals apiAnswer (r cx rq)"
proof -
  let ?f = "finals apiAnswer"
  have vm: "?f (health cx rq)" "?f (listVMs cx rq)" "?f (autostartCollection cx rq)" "?f (autostartItem cx rq)"
    "?f (metricsHandler cx rq)" "?f (storageTargets cx rq)" "?f (powerHandler cx rq)"
    unfolding health_def listVMs_def vmEntry_def autostartCollection_def autostartItem_def metricsHandler_def
      storageTargets_def powerHandler_def Let_def
    by (auto intro!: answer_intros split: option.split)
  have mounts: "?f (mountsCollection cx rq)" "?f (mountsItem cx rq)"
    unfolding mountsCollection_def mountsItem_def mountAction_def Let_def
    by (auto intro!: answer_intros split: option.split sum.split)
  have snap: "?f (snapshotHandler cx rq)" "?f (settingsHandler cx rq)"
    unfolding snapshotHandler_def snapshotList_def snapshotCreate_def snapshotItem_def snapshotRevert_def
      prepareDir_def rememberDir_def settingsHandler_def checkLabel_def Let_def
    by (auto intro!: answer_intros split: option.split)
  have sched: "?f (scheduleCollection cx rq)" "?f (scheduleItem cx rq)" "?f (backupCollection cx rq)" "?f (backupItem cx rq)"
    unfolding scheduleCollection_def scheduleItem_def backupCollection_def backupItem_def rememberBackupDir_def Let_def
    by (auto intro!: answer_intros)
  have dev: "?f (usbHost cx rq)" "?f (usbDomain cx rq)" "?f (pciHost cx rq)" "?f (pciDomain cx rq)"
    "?f (netNetworks cx rq)" "?f (netDomain cx rq)"
    unfolding usbDomain_def usbAttach_def usbDetach_def usbHost_def pciDomain_def pciAttach_def pciDetach_def pciHost_def
      netDomain_def netSwitch_def netNetworks_def Let_def
    by (auto intro!: answer_intros split: option.split)
  have con: "?f (vncDomain cx rq)" "?f (tpmDomain cx rq)"
    unfolding vncDomain_def vncStatus_def vncPost_def vncLocalOnly_def vncProtect_def vncDelete_def
      tpmDomain_def tpmStatus_def tpmPost_def tpmDelete_def Let_def
    by (auto intro!: answer_intros split: option.split)
  show ?thesis
    using assms vm mounts snap sched dev con by (auto simp: api_routes_def)
qed

text \<open>
  C31: every answer has one of the documented shapes. Whatever the request, the answer of the daemon is a success
  with its payload, or a status 400, 404, 405 or 500 whose body is an object with the one member
  \<open>error\<close>, or one of the five that the router and the root handler give themselves: the two refusals, the
  unknown path, a redirect, a static file.
\<close>

theorem answer_shape:
  "apiAnswer (fst (serve cfg cx rq s)) \<or>
   fst (serve cfg cx rq s) \<in> {(403, jstr ''cross-origin request rejected''), (403, jstr ''forbidden''),
     (404, jstr ''404 page not found''), (200, PJ JNull)} \<or>
   (\<exists>p. fst (serve cfg cx rq s) = (301, jstr p))"
proof -
  let ?P = "\<lambda>r. apiAnswer r \<or> r \<in> {(403, jstr ''cross-origin request rejected''), (403, jstr ''forbidden''),
     (404, jstr ''404 page not found''), (200, PJ JNull)} \<or> (\<exists>p. r = (301, jstr p))"
  have "finals ?P (routes cx rq)" for rq
  proof (cases "findRoute (rqPath rq) :: 'a route option")
    case None
    then show ?thesis by (auto simp: routes_def intro!: finals_if finals_ret)
  next
    case (Some r)
    with api_finals [of "fst r" "snd r" cx rq] findRoute_SomeD [OF Some] show ?thesis
      by (simp add: routes_def finals_def)
  qed
  then have "finals ?P (rootHandler cfg cx rq)"
    unfolding rootHandler_def mainMux_def by (intro finals_guard finals_if finals_ret) auto
  then show ?thesis by (simp add: finals_def serve_def)
qed

subsection \<open>What a refusal means\<close>

definition isRefusal :: "response \<Rightarrow> bool" where
  "isRefusal r \<longleftrightarrow> 400 \<le> fst r \<and> fst r < 500"

abbreviation never4 :: "(response, 's) hact \<Rightarrow> bool" where
  "never4 \<equiv> finals (\<lambda>r. \<not> isRefusal r)"

lemma isRefusal_simps [simp]:
  "\<not> isRefusal (200, p)" "\<not> isRefusal (201, p)" "\<not> isRefusal (202, p)" "\<not> isRefusal (207, p)"
  "\<not> isRefusal (writeErrOf 500 pre e)" "\<not> isRefusal (okFlag k)" "\<not> isRefusal (dataOf xs)"
  by (simp_all add: isRefusal_def writeErrOf_def okFlag_def dataOf_def)

text \<open>A handler that only read if it refuses; how a handler is seen to be one, step by step.\<close>

definition clean :: "Client \<Rightarrow> (response, 'h) handler \<Rightarrow> bool" where
  "clean c h \<longleftrightarrow> (\<forall>s. isRefusal (fst (runH h s)) \<longrightarrow> onlyReads None c s (snd (runH h s)))"

lemma clean_keeps: "keepsH (onlyReads None c) h \<Longrightarrow> clean c h"
  by (simp add: clean_def read_lift.S.keepsH_run)

lemma clean_never: "never4 h \<Longrightarrow> clean c h"
  by (simp add: clean_def finals_def)

lemma clean_reads:
  assumes m: "keepsH (onlyReads None c) m" and k: "\<And>a. clean c (k a)"
  shows "clean c (bindH m k)"
  unfolding clean_def
proof (intro allI impI)
  fix s
  assume refusal: "isRefusal (fst (runH (bindH m k) s))"
  obtain r s' where r: "m s = (r, s')" by fastforce
  then have s': "onlyReads None c s s'" using m unfolding keepsH_def by (metis snd_conv)
  show "onlyReads None c s (snd (runH (bindH m k) s))"
  proof (cases r)
    case (Inl x)
    with r s' show ?thesis by (simp add: runH_def bindH_def)
  next
    case (Inr a)
    with r have run: "runH (bindH m k) s = runH (k a) s'" by (simp add: runH_def bindH_def)
    with refusal k have "onlyReads None c s' (snd (runH (k a) s'))" by (simp add: clean_def)
    with run s' read_lift.S.R_trans show ?thesis by metis
  qed
qed

lemma clean_steps:
  "(\<not> b \<Longrightarrow> clean c (k0 ())) \<Longrightarrow> clean c (bindH (rejectIf b r) k0)"
  "(\<And>a. clean c (k1 a)) \<Longrightarrow> clean c (bindH (orFail code pre x) k1)"
  "(\<And>a. clean c (k2 a)) \<Longrightarrow> clean c (bindH (getsH f) k2)"
  "clean c (retH q)" "clean c (getsH g)"
  "(b \<Longrightarrow> clean c h1) \<Longrightarrow> (\<not> b \<Longrightarrow> clean c h2) \<Longrightarrow> clean c (if b then h1 else h2)"
proof -
  show "(\<not> b \<Longrightarrow> clean c (k0 ())) \<Longrightarrow> clean c (bindH (rejectIf b r) k0)"
    by (cases b) (simp_all add: clean_keeps read_lift.S.keepsH_respond)
  show "(\<And>a. clean c (k1 a)) \<Longrightarrow> clean c (bindH (orFail code pre x) k1)"
    by (rule clean_reads [OF read_lift.S.keepsH_orFail])
  show "(\<And>a. clean c (k2 a)) \<Longrightarrow> clean c (bindH (getsH f) k2)"
    by (rule clean_reads [OF read_lift.S.keepsH_gets])
qed (simp_all add: clean_keeps read_lift.S.keepsH_ret read_lift.S.keepsH_gets)

text \<open>A step that changes the state, or fails and does not; only its failure may be answered by a refusal.\<close>

lemma clean_try:
  assumes fails: "\<And>s e s'. m s = (Inr (Inl e), s') \<Longrightarrow> onlyReads None c s s'" and m: "answers (\<lambda>r. \<not> isRefusal r) m"
    and k1: "\<And>e. keepsH (onlyReads None c) (k (Inl e))" and k2: "\<And>a. never4 (k (Inr a))"
  shows "clean c (bindH m k)"
  unfolding clean_def
proof (intro allI impI)
  fix s
  assume refusal: "isRefusal (fst (runH (bindH m k) s))"
  obtain r s' where r: "m s = (r, s')" by fastforce
  show "onlyReads None c s (snd (runH (bindH m k) s))"
  proof (cases r)
    case (Inl x)
    with answersD [OF m] r refusal show ?thesis by (simp add: runH_def bindH_def)
  next
    case (Inr y)
    with r have run: "runH (bindH m k) s = runH (k y) s'" by (simp add: runH_def bindH_def)
    then show ?thesis
    proof (cases y)
      case (Inl e)
      with r Inr fails have "onlyReads None c s s'" by simp
      moreover have "onlyReads None c s' (snd (runH (k y) s'))"
        using read_lift.S.keepsH_run [OF k1] Inl by simp
      ultimately show ?thesis using run read_lift.S.R_trans by metis
    next
      case (Inr a)
      with k2 [of a] refusal run show ?thesis by (simp add: finals_def)
    qed
  qed
qed

subsection \<open>The calls that may refuse\<close>

definition noFault :: "'h env \<Rightarrow> bool" where
  "noFault env \<longleftrightarrow> (\<forall>op p fs. \<not> osFault env op p fs)"

lemma publish_noFault: "noFault env \<Longrightarrow> fst (publish env p j w) = Inr ()"
  by (simp add: noFault_def publish_eq os_MkdirAll_def os_WriteFile_def os_Rename_def)

lemma storePut_noFault: "noFault env \<Longrightarrow> storePut enc key ord env e st w \<noteq> (Inl x, st', w')"
proof
  assume "noFault env" "storePut enc key ord env e st w = (Inl x, st', w')"
  moreover obtain r w'' where "publish env (Path st) (JArr (map (enc \<circ> snd) (ord (gput (key e) e (sdata st))))) w = (r, w'')"
    by fastforce
  ultimately show False
    using publish_noFault [of env "Path st" "JArr (map (enc \<circ> snd) (ord (gput (key e) e (sdata st))))" w]
    by (simp add: storePut_def storeSave_def Let_def)
qed

lemma upsert_refuses:
  assumes "noFault env"
  shows "mounts_Upsert ord1 env i e m w = (Inl x, m', w') \<Longrightarrow> m' = m \<and> w' = w"
    "sched_Upsert ord2 env se st w = (Inl x, st', w') \<Longrightarrow> st' = st \<and> w' = w"
  using storePut_noFault [OF assms, of mount_enc meID ord1] storePut_noFault [OF assms, of sched_enc seVM ord2]
  by (auto simp: mounts_Upsert_put sched_Upsert_put Let_def split: sum.splits prod.splits if_splits)

lemma onlyReads_world: "readOnly None c (svWorld s) w \<Longrightarrow> onlyReads None c s (s\<lparr>svWorld := w\<rparr>)"
  by (simp add: onlyReads_def sameStores_def)

lemma backup_refuses:
  assumes "backup_Start ord env (backup_controller env c) i st now vm d m w = (Inl x, m', w')"
  shows "m' = m \<and> readOnly None c w w'"
proof -
  have k: "keeps (readOnly None c) (virsh_State env c vm)" "keeps (readOnly None c) (virsh_DumpXML env c vm)"
    "keeps (readOnly None c) (virsh_DomainDisks env c vm)"
    by (auto simp: readVerbs_def readArgs_def intro!: read_calls read_frame.keeps_DomainDisks read_frame.keeps_DumpXML)
  show ?thesis using assms
    by (auto simp: backup_Start_def backup_controller_def Let_def split: prod.splits sum.splits if_splits
        dest!: k [THEN keepsE] intro: readOnly_trans)
qed

subsection \<open>The handlers\<close>

lemmas never_intros = answer_intros answers_simps

lemma clean_readers:
  "clean (cxVirsh cx) (health cx rq)" "clean (cxVirsh cx) (listVMs cx rq)" "clean (cxVirsh cx) (autostartCollection cx rq)"
  "clean (cxVirsh cx) (storageTargets cx rq)"
  "clean (cxVirsh cx) (scheduleCollection cx rq)" "clean (cxVirsh cx) (backupCollection cx rq)"
  "clean (cxVirsh cx) (usbHost cx rq)" "clean (cxVirsh cx) (pciHost cx rq)" "clean (cxVirsh cx) (netNetworks cx rq)"
  unfolding health_def listVMs_def vmEntry_def autostartCollection_def storageTargets_def
    scheduleCollection_def backupCollection_def usbHost_def pciHost_def netNetworks_def Let_def
  by (auto intro!: clean_keeps read_intros)

lemma clean_metrics: "clean (cxVirsh cx) (metricsHandler cx rq)"
  unfolding metricsHandler_def Let_def
  by (intro clean_steps clean_reads [OF read_lift.keepsH_virshH] read_calls) (auto intro!: clean_never never_intros)

lemma clean_autostartItem: "clean (cxVirsh cx) (autostartItem cx rq)"
  unfolding autostartItem_def Let_def
  by (intro clean_steps) (auto intro!: clean_never never_intros)

lemma clean_power: "clean (cxVirsh cx) (powerHandler cx rq)"
proof -
  have "clean (cxVirsh cx) (case powerAct cx a vm of None \<Rightarrow> retH (writeErr 400 m)
     | Some act \<Rightarrow> bindH (virshH 500 [] act) (\<lambda>_.
         bindH (virshOr [] (virsh_State (cxEnv cx) (cxVirsh cx) vm)) (\<lambda>state.
         retH (200, PObj [(''vm'', jstr vm), (''action'', jstr a), (''state'', jstr state)]))))" for a vm m
    by (cases "powerAct cx a vm") (auto intro!: clean_steps clean_never never_intros)
  then show ?thesis unfolding powerHandler_def Let_def by (intro clean_steps)
qed

lemma clean_mounts:
  assumes "noFault (cxEnv cx)"
  shows "clean (cxVirsh cx) (mountsCollection cx rq)" "clean (cxVirsh cx) (mountsItem cx rq)"
proof -
  have refuses: "onlyReads None c s s'" if "mountsH (mounts_Upsert ord (cxEnv cx) i e) s = (Inr (Inl x), s')" for c s s' ord i e x
    using that by (auto simp: mountsH_def onlyReads_def sameStores_def split: prod.splits dest!: upsert_refuses(1) [OF assms])
  show "clean (cxVirsh cx) (mountsCollection cx rq)"
    unfolding mountsCollection_def
    by (intro clean_steps clean_try) (auto simp del: bindH_simps(5) intro!: read_intros never_intros split: sum.splits dest: refuses)
  show "clean (cxVirsh cx) (mountsItem cx rq)"
    unfolding mountsItem_def mountAction_def Let_def
    by (intro clean_steps clean_try [where m = "mountsH (mounts_Upsert _ _ _ _)"])
      (auto intro!: read_intros never_intros clean_never split: option.split dest: refuses)
qed

lemma clean_schedule:
  assumes "noFault (cxEnv cx)"
  shows "clean (cxVirsh cx) (scheduleItem cx rq)"
proof -
  have refuses: "onlyReads None c s s'" if "schedH (sched_Upsert ord (cxEnv cx) e) s = (Inr (Inl x), s')" for c s s' ord e x
    using that by (auto simp: schedH_def onlyReads_def sameStores_def split: prod.splits dest!: upsert_refuses(2) [OF assms])
  show ?thesis
    unfolding scheduleItem_def Let_def
    by (intro clean_steps clean_try [where m = "schedH (sched_Upsert _ _ _)"])
      (auto intro!: read_intros never_intros clean_never dest: refuses)
qed

lemma clean_backup: "clean (cxVirsh cx) (backupItem cx rq)"
proof -
  have refuses: "onlyReads None c s s'"
    if "backupH (backup_Start ord env (backup_controller env c) i st now vm d) s = (Inr (Inl x), s')" for c s s' ord env i st now vm d x
    using that backup_refuses by (fastforce simp: backupH_def onlyReads_def sameStores_def split: prod.splits)
  show ?thesis
    unfolding backupItem_def rememberBackupDir_def Let_def
    by (intro clean_steps clean_try) (auto intro!: read_intros never_intros dest: refuses)
qed

lemma clean_snapshot: "clean (cxVirsh cx) (snapshotHandler cx rq)"
proof -
  have list: "clean (cxVirsh cx) (snapshotList cx vm)" for vm
    unfolding snapshotList_def by (auto intro!: clean_keeps read_intros)
  have prepare: "keepsH (onlyReads None (cxVirsh cx)) (prepareDir cx ext d)" for ext d
    unfolding prepareDir_def by (auto intro!: read_intros simp: keeps_def)
  have create: "clean (cxVirsh cx) (snapshotCreate cx rq vm)" for vm
    unfolding snapshotCreate_def rememberDir_def Let_def
    by (intro clean_steps clean_reads [OF read_lift.keepsH_virshOr] clean_reads [OF prepare] read_calls)
      (auto intro!: clean_never never_intros)
  have item: "clean (cxVirsh cx) (snapshotItem cx rq vm parts)" for vm parts
    unfolding snapshotItem_def snapshotRevert_def Let_def
    by (intro clean_steps clean_reads [OF read_lift.keepsH_virshH [where m = "snapshotExists _ _ _"]])
      (auto simp: snapshotExists_def intro!: clean_never never_intros read_calls read_frame.keeps_bind read_frame.keeps_ret)
  show ?thesis unfolding snapshotHandler_def Let_def by (intro clean_steps list create item)
qed

lemma clean_settings: "clean (cxVirsh cx) (settingsHandler cx rq)"
proof -
  have check: "keepsH (onlyReads None (cxVirsh cx)) (forH checkLabel ls)" for ls
    unfolding checkLabel_def by (auto intro!: read_intros)
  show ?thesis
    unfolding settingsHandler_def Let_def
    by (intro clean_steps clean_reads [OF check]) (auto intro!: clean_never never_intros)
qed

lemma clean_devices: "clean (cxVirsh cx) (usbDomain cx rq)" "clean (cxVirsh cx) (pciDomain cx rq)"
proof -
  have "clean (cxVirsh cx) (usbAttach cx rq vm)" "clean (cxVirsh cx) (pciAttach cx rq vm)" "clean (cxVirsh cx) (pciDetach cx vm a)" for vm a
    unfolding usbAttach_def pciAttach_def pciDetach_def
    by (intro clean_steps; auto intro!: clean_never never_intros)+
  moreover have "clean (cxVirsh cx) (usbDetach cx vm ids)" for vm ids
    unfolding usbDetach_def
    by (auto intro!: clean_steps clean_never [OF finals_bind] never_intros split: option.split)
  ultimately show "clean (cxVirsh cx) (usbDomain cx rq)" "clean (cxVirsh cx) (pciDomain cx rq)"
    unfolding usbDomain_def pciDomain_def Let_def
    by (intro clean_steps clean_readers; simp)+
qed

lemma clean_net: "clean (cxVirsh cx) (netDomain cx rq)"
proof -
  have "clean (cxVirsh cx) (netSwitch cx rq vm p)" for vm p
    unfolding netSwitch_def Let_def
    by (intro clean_steps clean_reads [OF read_lift.keepsH_virshH [where m = "virsh_NetworkList _ _"]]
        clean_reads [OF read_lift.keepsH_virshH [where m = "virsh_DomainInterfaces _ _ _"]] read_calls)
      (auto intro!: clean_never never_intros)
  then show ?thesis
    unfolding netDomain_def Let_def
    by (intro clean_steps clean_readers) (auto intro!: clean_keeps read_intros)
qed

lemma clean_console: "clean (cxVirsh cx) (vncDomain cx rq)" "clean (cxVirsh cx) (tpmDomain cx rq)"
proof -
  have "clean (cxVirsh cx) (vncPost cx rq vm)" for vm
    unfolding vncPost_def vncLocalOnly_def vncProtect_def
    by (intro clean_steps; auto intro!: clean_never never_intros)
  moreover have "clean (cxVirsh cx) (vncStatus cx vm)" "clean (cxVirsh cx) (tpmStatus cx vm)" for vm
    unfolding vncStatus_def tpmStatus_def by (auto intro!: clean_keeps read_intros)
  moreover have "clean (cxVirsh cx) (vncDelete cx vm)" "clean (cxVirsh cx) (tpmPost cx vm)" "clean (cxVirsh cx) (tpmDelete cx vm)" for vm
    unfolding vncDelete_def tpmPost_def tpmDelete_def by (auto intro!: clean_never never_intros)
  ultimately show "clean (cxVirsh cx) (vncDomain cx rq)" "clean (cxVirsh cx) (tpmDomain cx rq)"
    unfolding vncDomain_def tpmDomain_def Let_def
    by (intro clean_steps; simp)+
qed

text \<open>
  C4: a refusal means that nothing was done. On a host whose file operations do not fail, whenever the daemon
  answers with a status from 400 to 499, whatever the request, the stores, the settings, the list of jobs
  and every file are as they were before, and the programs that were run only read.
\<close>

theorem refusal_changes_nothing:
  assumes "noFault (cxEnv cx)" "400 \<le> fst (fst (serve cfg cx rq s))" "fst (fst (serve cfg cx rq s)) < 500"
  shows "onlyReads None (cxVirsh cx) s (snd (serve cfg cx rq s))"
proof -
  have "clean (cxVirsh cx) (r cx rq)" if "(p, r) \<in> set (api_routes :: 'a route list)" for p r rq
    using that clean_readers clean_metrics clean_autostartItem clean_power clean_mounts [OF assms(1)] clean_schedule [OF assms(1)]
      clean_backup clean_snapshot clean_settings clean_devices clean_net clean_console
    by (auto simp: api_routes_def)
  then have "clean (cxVirsh cx) (routes cx rq)" for rq
    by (cases "findRoute (rqPath rq) :: 'a route option")
      (auto simp: routes_def intro!: clean_steps dest!: findRoute_SomeD)
  then have "clean (cxVirsh cx) (rootHandler cfg cx rq)"
    unfolding rootHandler_def mainMux_def by (intro clean_steps)
  with assms(2,3) show ?thesis by (simp add: clean_def serve_def isRefusal_def)
qed

definition exposed :: request where
  "exposed = demoRequest ''POST'' ''/api/vnc/win'' (JObj [(''listen'', JStr ''0.0.0.0'')])"

theorem refusal_changes_nothing_witness:
  "fst (fst (serve demoCfg (demoCtx quietEnv) exposed demoServer)) = 400 \<and>
   onlyReads None (virsh_New []) demoServer (snd (serve demoCfg (demoCtx quietEnv) exposed demoServer))"
proof -
  have a: "fst (fst (serve demoCfg (demoCtx quietEnv) exposed demoServer)) = 400"
    by code_simp
  have "noFault (cxEnv (demoCtx quietEnv))" "cxVirsh (demoCtx quietEnv) = virsh_New []"
    by (simp_all add: demoCtx_def noFault_def)
  with refusal_changes_nothing [of "demoCtx quietEnv" demoCfg exposed demoServer] a show ?thesis by simp
qed

end
