(* ===== verification/Synced.thy ===== *)
theory Synced
  imports MountProps DeviceProps ConsoleProps ScheduleProps BackupProps SystemProps ResponseProps
begin

section \<open>Memory and files\<close>

text \<open>
  What the daemon holds in memory and what its files hold. \<open>synced\<close> says of one store that its file holds what
  its memory holds, \<open>saved\<close> says it of the whole server. The lemmas of \<open>json_store\<close> do the work for
  each store; \<open>calm_frame\<close>, an instance of \<open>handlers\<close>, does it for what the handlers share.
\<close>

subsection \<open>One store and its file\<close>

lemma store_files:
  assumes "q \<noteq> Path st" "q \<noteq> tmpPath (Path st)"
  shows "files (snd (snd (storePut enc key ord env e st w))) q = files w q"
    "files (snd (snd (storeDel enc ord env k st w))) q = files w q"
  using assms by (simp_all add: storePut_def storeDel_def storeSave_def Let_def frame_simps split: prod.split)
    (metis publish_frame(3) snd_conv)+

lemma store_ok:
  "noFault env \<Longrightarrow> fst (storePut enc key ord env e st w) = Inr ()"
  "noFault env \<Longrightarrow> fst (storeDel enc ord env k st w) = Inr ()"
  by (simp_all add: storePut_def storeDel_def storeSave_def Let_def split: prod.split)
    (metis publish_noFault fst_conv)+

context json_store
begin

definition synced :: "'e store \<Rightarrow> 'h world \<Rightarrow> bool" where
  "synced st w \<longleftrightarrow> wfStore st \<and>
     (case files w (Path st) of
        None \<Rightarrow> sdata st = []
      | Some c \<Rightarrow> \<exists>es. c = Doc (JArr (map enc es)) \<and> (\<forall>e \<in> set es. wf e) \<and>
          (\<forall>k. gget k (gput_all key es []) = gget k (sdata st)))"

lemma synced_wf: "synced st w \<Longrightarrow> wfStore st"
  by (simp add: synced_def)

lemma synced_file: "synced st w \<Longrightarrow> files w' (Path st) = files w (Path st) \<Longrightarrow> synced st w'"
  by (simp add: synced_def)

lemma synced_save:
  assumes "wfStore st" "is_order ord" "storeSave enc ord env st w = (Inr (), w')"
  shows "synced st w'"
proof -
  let ?es = "map snd (ord (sdata st))"
  have doc: "files w' (Path st) = Some (Doc (JArr (map enc ?es)))"
    using publish_Inr(1) [OF assms(3) [unfolded storeSave_def]] by (simp add: comp_def)
  have "\<forall>e \<in> set ?es. wf e" using assms(1,2) by (auto simp: wfStore_def)
  moreover have "gget k (gput_all key ?es []) = gget k (sdata st)" for k
    using assms(1,2) by (simp add: wfStore_def gget_reload)
  ultimately have "\<exists>es. JArr (map enc ?es) = JArr (map enc es) \<and> (\<forall>e \<in> set es. wf e) \<and>
      (\<forall>k. gget k (gput_all key es []) = gget k (sdata st))" by blast
  with doc assms(1) show ?thesis by (simp add: synced_def)
qed

text \<open>An operation of the store that worked: the file is in step again and no other one has changed.\<close>

definition resaved :: "'e store \<Rightarrow> 'h world \<Rightarrow> 'e store \<Rightarrow> 'h world \<Rightarrow> bool" where
  "resaved st w st' w' \<longleftrightarrow> synced st' w' \<and> Path st' = Path st \<and>
     (\<forall>q. q \<noteq> Path st \<longrightarrow> q \<noteq> tmpPath (Path st) \<longrightarrow> files w' q = files w q)"

lemma resaved_put:
  assumes "synced st w" "wf e" "is_order ord" "noFault env" "storePut enc key ord env e st w = (r, st', w')"
  shows "resaved st w st' w'"
proof -
  have run: "storeSave enc ord env (st\<lparr>sdata := gput (key e) e (sdata st)\<rparr>) w = (r, w')"
    and st': "st' = st\<lparr>sdata := gput (key e) e (sdata st)\<rparr>"
    using assms(5) by (simp_all add: storePut_def Let_def split: prod.splits)
  have "r = Inr ()" using store_ok(1) [OF assms(4), of enc key ord e st w] assms(5) by simp
  with synced_save [OF wfStore_put [OF synced_wf [OF assms(1)] assms(2)] assms(3)] run st'
  have "synced st' w'" by simp
  with st' show ?thesis
    using store_files(1) [of _ st enc key ord env e w] assms(5) by (simp add: resaved_def)
qed

lemma resaved_del:
  assumes "synced st w" "is_order ord" "noFault env" "storeDel enc ord env k st w = (r, st', w')"
  shows "resaved st w st' w'"
proof -
  have run: "storeSave enc ord env (st\<lparr>sdata := gdel k (sdata st)\<rparr>) w = (r, w')"
    and st': "st' = st\<lparr>sdata := gdel k (sdata st)\<rparr>"
    using assms(4) by (simp_all add: storeDel_def Let_def split: prod.splits)
  have "r = Inr ()" using store_ok(2) [OF assms(3), of enc ord k st w] assms(4) by simp
  with synced_save [OF wfStore_del [OF synced_wf [OF assms(1)]] assms(2)] run st'
  have "synced st' w'" by simp
  with st' show ?thesis
    using store_files(2) [of _ st enc ord env k w] assms(4) by (simp add: resaved_def)
qed

lemma wfStore_reload: "(\<forall>e \<in> set es. wf e) \<Longrightarrow> wfStore \<lparr>Path = p, sdata = gput_all key es []\<rparr>"
proof -
  have "(\<forall>e \<in> set es. wf e) \<Longrightarrow> wfStore st \<Longrightarrow> wfStore (st\<lparr>sdata := gput_all key es (sdata st)\<rparr>)" for st
  proof (induction es arbitrary: st)
    case (Cons e es)
    from Cons.IH [of "st\<lparr>sdata := gput (key e) e (sdata st)\<rparr>"] Cons.prems wfStore_put [of st e]
    show ?case by simp
  qed simp
  from this [of "\<lparr>Path = p, sdata = []\<rparr>"]
  show "(\<forall>e \<in> set es. wf e) \<Longrightarrow> wfStore \<lparr>Path = p, sdata = gput_all key es []\<rparr>"
    by (simp add: wfStore_def)
qed

lemma synced_open:
  assumes "synced st w" "\<not> osFault env OpRead (Path st) (files w)"
  shows "\<exists>st'. storeOpen dec key msg env w (Path st) = Inr st' \<and> Path st' = Path st \<and> synced st' w \<and>
    (\<forall>k. gget k (sdata st') = gget k (sdata st))"
proof (cases "files w (Path st)")
  case None
  with assms show ?thesis
    by (auto simp: synced_def storeOpen_def storeLoad_def os_ReadFile_def wfStore_def)
next
  case (Some c)
  with assms(1) obtain es where es: "c = Doc (JArr (map enc es))" "\<forall>e \<in> set es. wf e"
    "\<forall>k. gget k (gput_all key es []) = gget k (sdata st)" by (auto simp: synced_def)
  have "decodeAll dec (map enc es) = Inr es" using es(2) by (intro decodeAll_map) (simp add: dec_enc)
  then have "storeOpen dec key msg env w (Path st) = Inr \<lparr>Path = Path st, sdata = gput_all key es []\<rparr>"
    using Some es(1) assms(2) by (simp add: storeOpen_def storeLoad_def os_ReadFile_def unmarshal_def decodeArray_def)
  moreover have "synced \<lparr>Path = Path st, sdata = gput_all key es []\<rparr> w"
    using Some es wfStore_reload [OF es(2), of "Path st"] by (auto simp: synced_def)
  ultimately show ?thesis using es(3) by simp
qed

lemma synced_fresh: "files w p = None \<Longrightarrow> synced \<lparr>Path = p, sdata = []\<rparr> w"
  by (simp add: synced_def wfStore_def)

end

definition settingsSynced :: "SettingsStore \<Rightarrow> 'h world \<Rightarrow> bool" where
  "settingsSynced ss w \<longleftrightarrow>
     (case files w (ssPath ss) of
        None \<Rightarrow> ssData ss = zeroSettings
      | Some c \<Rightarrow> c = Doc (settings_enc (ssData ss)))"

lemma settingsSynced_open:
  "settingsSynced ss w \<Longrightarrow> \<not> osFault env OpRead (ssPath ss) (files w) \<Longrightarrow> settings_NewStore env w (ssPath ss) = Inr ss"
  by (cases ss) (auto simp: settingsSynced_def settings_NewStore_def settings_load_def os_ReadFile_def unmarshal_def
      settings_dec_enc split: if_splits option.splits)

subsection \<open>The server and its files\<close>

datatype part = AutoPart | MountsPart | UsbPart | PciPart | SchedPart | TpmPart | VncPart | SettingsPart

definition allParts :: "part list" where
  "allParts = [AutoPart, MountsPart, UsbPart, PciPart, SchedPart, TpmPart, VncPart, SettingsPart]"

fun partFile :: "part \<Rightarrow> string" where
  "partFile AutoPart = ''autostart.json''"
| "partFile MountsPart = ''mounts.json''"
| "partFile UsbPart = ''usb.json''"
| "partFile PciPart = ''pci.json''"
| "partFile SchedPart = ''schedule.json''"
| "partFile TpmPart = ''tpm.json''"
| "partFile VncPart = ''vnc.json''"
| "partFile SettingsPart = ''settings.json''"

fun partPath :: "part \<Rightarrow> 'h server \<Rightarrow> string" where
  "partPath AutoPart s = Path (svAuto s)"
| "partPath MountsPart s = Path (mmStore (svMounts s))"
| "partPath UsbPart s = Path (svUSB s)"
| "partPath PciPart s = Path (svPCI s)"
| "partPath SchedPart s = Path (svSched s)"
| "partPath TpmPart s = Path (svTPM s)"
| "partPath VncPart s = Path (svVNC s)"
| "partPath SettingsPart s = ssPath (svSettings s)"

fun partSynced :: "part \<Rightarrow> 'h server \<Rightarrow> 'h world \<Rightarrow> bool" where
  "partSynced AutoPart s w = auto_json.synced (svAuto s) w"
| "partSynced MountsPart s w = mount_json.synced (mmStore (svMounts s)) w"
| "partSynced UsbPart s w = usb_json.synced (svUSB s) w"
| "partSynced PciPart s w = pci_json.synced (svPCI s) w"
| "partSynced SchedPart s w = sched_json.synced (svSched s) w"
| "partSynced TpmPart s w = tpm_json.synced (svTPM s) w"
| "partSynced VncPart s w = vnc_json.synced (svVNC s) w"
| "partSynced SettingsPart s w = settingsSynced (svSettings s) w"

definition dataPath :: "Config \<Rightarrow> part \<Rightarrow> string" where
  "dataPath cfg x = JoinPath [cfDataDir cfg, partFile x]"

text \<open>The other files that the daemon writes and leaves.\<close>

definition sideFile :: "string \<Rightarrow> bool" where
  "sideFile p \<longleftrightarrow> isTmp p \<or> p = runMarker \<or> p = unitPath serviceName \<or> p = unitPath timerName \<or>
     HasSuffix p ''domain.xml'' \<or> HasSuffix p ''manifest.json''"

text \<open>A data directory in which the daemon's files do not get in each other's way.\<close>

definition separate :: "Config \<Rightarrow> bool" where
  "separate cfg \<longleftrightarrow>
     distinct (map (dataPath cfg) allParts) \<and>
     list_all (\<lambda>x. \<not> sideFile (dataPath cfg x) \<and> list_all (\<lambda>y. tmpPath (dataPath cfg x) \<noteq> dataPath cfg y) allParts) allParts"

definition saved :: "Config \<Rightarrow> 'h server \<Rightarrow> bool" where
  "saved cfg s \<longleftrightarrow>
     separate cfg \<and> (\<forall>x. partPath x s = dataPath cfg x \<and> partSynced x s (svWorld s))"

lemma allParts_all [simp]: "x \<in> set allParts"
  by (cases x) (simp_all add: allParts_def)

lemma separateD:
  assumes "separate cfg"
  shows "x \<noteq> y \<Longrightarrow> dataPath cfg x \<noteq> dataPath cfg y" "\<not> sideFile (dataPath cfg x)"
    "tmpPath (dataPath cfg x) \<noteq> dataPath cfg y"
proof -
  have "inj_on (dataPath cfg) (set allParts)" using assms by (simp add: separate_def distinct_map)
  then show "x \<noteq> y \<Longrightarrow> dataPath cfg x \<noteq> dataPath cfg y" by (auto dest: inj_onD)
  show "\<not> sideFile (dataPath cfg x)" "tmpPath (dataPath cfg x) \<noteq> dataPath cfg y"
    using assms by (auto simp: separate_def list_all_iff)
qed

lemma partSynced_file:
  "partSynced x s w \<Longrightarrow> files w' (partPath x s) = files w (partPath x s) \<Longrightarrow> partSynced x s w'"
  by (cases x) (simp_all add: auto_json.synced_def mount_json.synced_def usb_json.synced_def pci_json.synced_def
      sched_json.synced_def tpm_json.synced_def vnc_json.synced_def settingsSynced_def)

text \<open>A step that writes only one part's file, and leaves that part in step with it.\<close>

lemma saved_update:
  assumes "saved cfg s" "partPath x s' = partPath x s" "partSynced x s' (svWorld s')"
    and others: "\<And>y. y \<noteq> x \<Longrightarrow> partPath y s' = partPath y s \<and> partSynced y s' (svWorld s) = partSynced y s (svWorld s)"
    and fs: "\<And>q. q \<noteq> partPath x s \<Longrightarrow> q \<noteq> tmpPath (partPath x s) \<Longrightarrow> \<not> sideFile q \<Longrightarrow> files (svWorld s') q = files (svWorld s) q"
  shows "saved cfg s'"
proof -
  have sep: "separate cfg" and P: "\<And>y. partPath y s = dataPath cfg y" "\<And>y. partSynced y s (svWorld s)"
    using assms(1) by (simp_all add: saved_def)
  have "partPath y s' = dataPath cfg y \<and> partSynced y s' (svWorld s')" for y
  proof (cases "y = x")
    case False
    have "files (svWorld s') (dataPath cfg y) = files (svWorld s) (dataPath cfg y)"
      using fs [of "dataPath cfg y"] separateD [OF sep] False P(1) by metis
    with others [OF False] P partSynced_file [of y s' "svWorld s" "svWorld s'"] show ?thesis by simp
  qed (use assms(2,3) P in simp)
  with sep show ?thesis by (simp add: saved_def)
qed

lemma saved_world:
  assumes "saved cfg s" "\<And>q. \<not> sideFile q \<Longrightarrow> files w q = files (svWorld s) q"
  shows "saved cfg (s\<lparr>svWorld := w\<rparr>)"
proof (rule saved_update [OF assms(1), of AutoPart])
  have "partSynced AutoPart s (svWorld s)" "\<not> sideFile (partPath AutoPart s)"
    using assms(1) separateD(2) by (auto simp: saved_def simp del: partSynced.simps partPath.simps)
  with partSynced_file [of AutoPart s "svWorld s" w] assms(2)
  show "partSynced AutoPart (s\<lparr>svWorld := w\<rparr>) (svWorld (s\<lparr>svWorld := w\<rparr>))" by simp
  show "partPath y (s\<lparr>svWorld := w\<rparr>) = partPath y s \<and>
      partSynced y (s\<lparr>svWorld := w\<rparr>) (svWorld s) = partSynced y s (svWorld s)" for y
    by (cases y) simp_all
qed (use assms(2) in auto)

subsection \<open>What the steps keep\<close>

definition calm :: "'h ctx \<Rightarrow> bool" where
  "calm cx \<longleftrightarrow> ordersOk cx \<and> noFault (cxEnv cx) \<and> 0 \<le> cxNow cx \<and> cxNow cx \<le> maxInt64"

definition calmR :: "Config \<Rightarrow> 'h ctx \<Rightarrow> 'h server \<Rightarrow> 'h server \<Rightarrow> bool" where
  "calmR cfg cx s s' \<longleftrightarrow> (calm cx \<and> saved cfg s \<longrightarrow> saved cfg s')"

lemma side_isTmp: "isTmp p \<Longrightarrow> sideFile p"
  by (simp add: sideFile_def)

lemma saved_sameFiles: "saved cfg s \<Longrightarrow> sameFiles (svWorld s) w \<Longrightarrow> saved cfg (s\<lparr>svWorld := w\<rparr>)"
  using side_isTmp by (fastforce simp: sameFiles_def intro: saved_world)

lemma saved_settings:
  assumes "noFault env" "saved cfg s" "settings_Set env d (svSettings s) (svWorld s) = (r, ss, w)"
  shows "saved cfg (s\<lparr>svSettings := ss, svWorld := w\<rparr>)"
proof -
  have pub: "publish env (ssPath (svSettings s)) (settings_enc d) (svWorld s) = (Inr (), w)" and ss: "ss = svSettings s\<lparr>ssData := d\<rparr>"
    using assms(3) publish_noFault [OF assms(1)]
    by (auto simp: settings_Set_def settings_save_def Let_def prod_eq_iff split: prod.splits)
  have fs: "files w q = files (svWorld s) q" if "q \<noteq> ssPath (svSettings s)" "q \<noteq> tmpPath (ssPath (svSettings s))" for q
    using publish_frame(3) [OF that, of env "settings_enc d" "svWorld s"] pub by simp
  show ?thesis
  proof (rule saved_update [OF assms(2), of SettingsPart])
    show "partSynced SettingsPart (s\<lparr>svSettings := ss, svWorld := w\<rparr>) (svWorld (s\<lparr>svSettings := ss, svWorld := w\<rparr>))"
      using publish_Inr(1) [OF pub] ss by (simp add: settingsSynced_def)
    show "partPath y (s\<lparr>svSettings := ss, svWorld := w\<rparr>) = partPath y s \<and>
        partSynced y (s\<lparr>svSettings := ss, svWorld := w\<rparr>) (svWorld s) = partSynced y s (svWorld s)" if "y \<noteq> SettingsPart" for y
      using that by (cases y) simp_all
  qed (use ss fs in auto)
qed

text \<open>The fields that no file holds.\<close>

lemma part_other [simp]:
  "partPath x (s\<lparr>svArmed := am\<rparr>) = partPath x s" "partSynced x (s\<lparr>svArmed := am\<rparr>) w = partSynced x s w"
  "partPath x (s\<lparr>svLaunched := ls\<rparr>) = partPath x s" "partSynced x (s\<lparr>svLaunched := ls\<rparr>) w = partSynced x s w"
  "partPath x (s\<lparr>svBackup := m\<rparr>) = partPath x s" "partSynced x (s\<lparr>svBackup := m\<rparr>) w = partSynced x s w"
  by (cases x; simp)+

lemma saved_other [simp]:
  "saved cfg (s\<lparr>svArmed := am\<rparr>) = saved cfg s" "saved cfg (s\<lparr>svLaunched := ls\<rparr>) = saved cfg s"
  "saved cfg (s\<lparr>svBackup := m\<rparr>) = saved cfg s"
  by (simp_all add: saved_def)

interpretation calm_frame: handlers sameFiles "cxEnv cx" "cxVirsh cx" "\<lambda>_. True" "calmR cfg cx" cx for cfg cx
proof unfold_locales
  show "keepsH (calmR cfg cx) (settingsH (settings_Set (cxEnv cx) sd))" for cfg and cx :: "'a ctx" and sd
    by (auto simp: keepsH_def calmR_def settingsH_def calm_def saved_settings split: prod.split)
  show "calmR cfg cx s (s\<lparr>svArmed := am, svLaunched := ls\<rparr>)" for cfg and cx :: "'a ctx" and s am ls
    by (simp add: calmR_def)
qed (auto simp: calmR_def saved_sameFiles sameFiles_def frame_simps)


text \<open>One store at a time.\<close>

lemma part_fields [simp]:
  "y \<noteq> AutoPart \<Longrightarrow> partPath y (s\<lparr>svAuto := au\<rparr>) = partPath y s \<and> partSynced y (s\<lparr>svAuto := au\<rparr>) w = partSynced y s w"
  "y \<noteq> MountsPart \<Longrightarrow> partPath y (s\<lparr>svMounts := mm\<rparr>) = partPath y s \<and> partSynced y (s\<lparr>svMounts := mm\<rparr>) w = partSynced y s w"
  "y \<noteq> UsbPart \<Longrightarrow> partPath y (s\<lparr>svUSB := us\<rparr>) = partPath y s \<and> partSynced y (s\<lparr>svUSB := us\<rparr>) w = partSynced y s w"
  "y \<noteq> PciPart \<Longrightarrow> partPath y (s\<lparr>svPCI := pc\<rparr>) = partPath y s \<and> partSynced y (s\<lparr>svPCI := pc\<rparr>) w = partSynced y s w"
  "y \<noteq> SchedPart \<Longrightarrow> partPath y (s\<lparr>svSched := sc\<rparr>) = partPath y s \<and> partSynced y (s\<lparr>svSched := sc\<rparr>) w = partSynced y s w"
  "y \<noteq> TpmPart \<Longrightarrow> partPath y (s\<lparr>svTPM := tp\<rparr>) = partPath y s \<and> partSynced y (s\<lparr>svTPM := tp\<rparr>) w = partSynced y s w"
  "y \<noteq> VncPart \<Longrightarrow> partPath y (s\<lparr>svVNC := vn\<rparr>) = partPath y s \<and> partSynced y (s\<lparr>svVNC := vn\<rparr>) w = partSynced y s w"
  "partPath y (s\<lparr>svWorld := v\<rparr>) = partPath y s \<and> partSynced y (s\<lparr>svWorld := v\<rparr>) w = partSynced y s w"
  by (cases y; simp)+

lemma saved_part:
  assumes "saved cfg s"
  shows "auto_json.resaved (svAuto s) (svWorld s) au w \<Longrightarrow> saved cfg (s\<lparr>svAuto := au, svWorld := w\<rparr>)"
    "mount_json.resaved (mmStore (svMounts s)) (svWorld s) (mmStore mm) w \<Longrightarrow> saved cfg (s\<lparr>svMounts := mm, svWorld := w\<rparr>)"
    "usb_json.resaved (svUSB s) (svWorld s) us w \<Longrightarrow> saved cfg (s\<lparr>svUSB := us, svWorld := w\<rparr>)"
    "pci_json.resaved (svPCI s) (svWorld s) pc w \<Longrightarrow> saved cfg (s\<lparr>svPCI := pc, svWorld := w\<rparr>)"
    "sched_json.resaved (svSched s) (svWorld s) sc w \<Longrightarrow> saved cfg (s\<lparr>svSched := sc, svWorld := w\<rparr>)"
    "tpm_json.resaved (svTPM s) (svWorld s) tp w \<Longrightarrow> saved cfg (s\<lparr>svTPM := tp, svWorld := w\<rparr>)"
    "vnc_json.resaved (svVNC s) (svWorld s) vn w \<Longrightarrow> saved cfg (s\<lparr>svVNC := vn, svWorld := w\<rparr>)"
  by (rule saved_update [OF assms, of AutoPart] saved_update [OF assms, of MountsPart] saved_update [OF assms, of UsbPart]
      saved_update [OF assms, of PciPart] saved_update [OF assms, of SchedPart] saved_update [OF assms, of TpmPart]
      saved_update [OF assms, of VncPart];
    simp add: auto_json.resaved_def mount_json.resaved_def usb_json.resaved_def pci_json.resaved_def sched_json.resaved_def
      tpm_json.resaved_def vnc_json.resaved_def; fail)+

lemma saved_synced:
  assumes "saved cfg s"
  shows "auto_json.synced (svAuto s) (svWorld s)" "mount_json.synced (mmStore (svMounts s)) (svWorld s)"
    "usb_json.synced (svUSB s) (svWorld s)" "pci_json.synced (svPCI s) (svWorld s)"
    "sched_json.synced (svSched s) (svWorld s)" "tpm_json.synced (svTPM s) (svWorld s)"
    "vnc_json.synced (svVNC s) (svWorld s)" "settingsSynced (svSettings s) (svWorld s)"
  using assms unfolding saved_def by (metis partSynced.simps)+

lemma calmR_stores:
  "keepsH (calmR cfg cx) (usbH (usb_Add (cxUsbOrder cx) (cxEnv cx) p))"
  "keepsH (calmR cfg cx) (usbH (usb_Remove (cxUsbOrder cx) (cxEnv cx) vm v q))"
  "keepsH (calmR cfg cx) (pciH (pci_Add (cxPciOrder cx) (cxEnv cx) pp))"
  "keepsH (calmR cfg cx) (pciH (pci_Remove (cxPciOrder cx) (cxEnv cx) vm a))"
  "keepsH (calmR cfg cx) (tpmH (tpm_Pin (cxTpmOrder cx) (cxEnv cx) vm))"
  "keepsH (calmR cfg cx) (tpmH (tpm_Unpin (cxTpmOrder cx) (cxEnv cx) vm))"
  "keepsH (calmR cfg cx) (vncH (vnc_Remove (cxVncOrder cx) (cxEnv cx) vm))"
  "keepsH (calmR cfg cx) (autoH (auto_Delete (cxAutoOrder cx) (cxEnv cx) vm))"
  "keepsH (calmR cfg cx) (schedH (sched_Delete (cxSchedOrder cx) (cxEnv cx) vm))"
  "keepsH (calmR cfg cx) (mountsH (mounts_Delete (cxMountOrder cx) (cxEnv cx) i))"
  by (auto simp: keepsH_def calmR_def calm_def ordersOk_def usbH_def usb_Add_put usb_Remove_del pciH_def pci_Add_put pci_Remove_del
      tpmH_def tpm_Pin_put tpm_Unpin_del vncH_def vnc_Remove_del autoH_def auto_Delete_del schedH_def sched_Delete_del
      mountsH_def mounts_Delete_del Let_def split: prod.splits
      intro!: saved_part dest: saved_synced
      intro: byOrder_order usb_json.resaved_put usb_json.resaved_del pci_json.resaved_put pci_json.resaved_del tpm_json.resaved_put tpm_json.resaved_del
        vnc_json.resaved_del auto_json.resaved_del sched_json.resaved_del mount_json.resaved_del)

text \<open>Integers from a request are 64-bit ones, which is what the three stores with integers need of an entry.\<close>

definition fieldKeeps :: "('e \<Rightarrow> bool) \<Rightarrow> 'e field \<Rightarrow> bool" where
  "fieldKeeps P nf \<longleftrightarrow> (\<forall>j e e'. P e \<longrightarrow> snd nf j e = Inr e' \<longrightarrow> P e')"

lemma setField_keeps:
  "\<forall>nf \<in> set fs. fieldKeeps P nf \<Longrightarrow> P e \<Longrightarrow> setField fs k j e = Inr e' \<Longrightarrow> P e'"
proof (induction fs)
  case (Cons nf fs)
  obtain n f where nf: "nf = (n, f)" by (cases nf)
  show ?case
  proof (cases "EqualFold n k")
    case True
    with nf Cons.prems(3) have "snd nf j e = Inr e'" by simp
    with Cons.prems(1,2) show ?thesis unfolding fieldKeeps_def by (meson list.set_intros(1))
  next
    case False
    with nf Cons show ?thesis by simp
  qed
qed simp

lemma setFields_keeps:
  "\<forall>nf \<in> set fs. fieldKeeps P nf \<Longrightarrow> P e \<Longrightarrow> setFields fs ms e = Inr e' \<Longrightarrow> P e'"
proof (induction ms arbitrary: e)
  case (Cons m ms)
  obtain k j where "m = (k, j)" by (cases m)
  with Cons.prems(3) obtain e1 where e1: "setField fs k j e = Inr e1" "setFields fs ms e1 = Inr e'"
    by (auto split: sum.splits)
  with Cons.IH Cons.prems(1) setField_keeps [OF Cons.prems(1,2) e1(1)] show ?case by blast
qed simp

lemma decodeBody_keeps:
  assumes "\<forall>nf \<in> set fs. fieldKeeps P nf" "P zero" "decodeBody fs zero rq = Inr e"
  shows "P e"
proof -
  from assms(3) have "e = zero \<or> (\<exists>ms. setFields fs ms zero = Inr e)"
    by (auto simp: decodeBody_def decodeStruct_def split: sum.splits json.splits)
  with assms(2) setFields_keeps [OF assms(1,2)] show ?thesis by blast
qed

lemma map_sum_Inr: "map_sum id f x = Inr y \<longleftrightarrow> (\<exists>a. x = Inr a \<and> y = f a)"
  by (cases x) auto

lemma fieldKeeps_auto: "\<forall>nf \<in> set auto_fields. fieldKeeps auto_wf nf"
  by (auto simp: auto_fields_def fieldKeeps_def strField_def boolField_def intField_def map_sum_Inr asInt_def auto_wf_def is_int64_def
      split: json.splits if_splits sum.splits)

lemma fieldKeeps_sched: "\<forall>nf \<in> set sched_fields. fieldKeeps sched_wf nf"
  by (auto simp: sched_fields_def fieldKeeps_def strField_def boolField_def intField_def map_sum_Inr asInt_def sched_wf_def is_int64_def
      split: json.splits if_splits sum.splits)

lemma decoded_auto: "decodeBody auto_fields zeroAutoEntry rq = Inr e \<Longrightarrow> auto_wf e"
  by (rule decodeBody_keeps [OF fieldKeeps_auto])
    (simp_all add: auto_wf_def is_int64_def zeroAutoEntry_def minInt64_def maxInt64_def)

lemma decoded_sched: "decodeBody sched_fields zeroSchedEntry rq = Inr e \<Longrightarrow> sched_wf e"
  by (rule decodeBody_keeps [OF fieldKeeps_sched])
    (simp_all add: sched_wf_def is_int64_def zeroSchedEntry_def minInt64_def maxInt64_def)

text \<open>A decoded body is used only if decoding worked.\<close>

lemma calmR_decode:
  "(\<And>e. x = Inr e \<Longrightarrow> keepsH (calmR cfg cx) (k e)) \<Longrightarrow> keepsH (calmR cfg cx) (bindH (orFail code pre x) k)"
  by (cases x) (simp_all add: calm_frame.S.keepsH_respond)

text \<open>A store operation on the server, from what it does to the store.\<close>

lemma calmR_rule:
  assumes "\<And>s. calm cx \<Longrightarrow> saved cfg s \<Longrightarrow> saved cfg (snd (h s))"
  shows "keepsH (calmR cfg cx) h"
  using assms by (simp add: keepsH_def calmR_def)

lemma auto_Set_cases:
  assumes "auto_Set ord env e s w = (r, st, w')"
  shows "(st = s \<and> w' = w) \<or>
    (\<exists>r'. storePut auto_enc aeName (byOrder ord) env (if aeDelayS e < 0 then e\<lparr>aeDelayS := 0\<rparr> else e) s w = (r', st, w'))"
proof (cases "storePut auto_enc aeName (byOrder ord) env (if aeDelayS e < 0 then e\<lparr>aeDelayS := 0\<rparr> else e) s w")
  case (fields r' st' w1)
  with assms show ?thesis by (cases r') (simp_all add: auto_Set_put Let_def split: if_splits)
qed

lemma calmR_auto:
  assumes "auto_wf e"
  shows "keepsH (calmR cfg cx) (autoH (auto_Set (cxAutoOrder cx) (cxEnv cx) (e\<lparr>aeName := n\<rparr>)))"
proof (rule calmR_rule)
  fix s :: "'a server"
  let ?e = "e\<lparr>aeName := n\<rparr>"
  assume calm: "calm cx" and saved: "saved cfg s"
  obtain r st w where run: "auto_Set (cxAutoOrder cx) (cxEnv cx) ?e (svAuto s) (svWorld s) = (r, st, w)"
    using prod_cases3 by blast
  have wf: "auto_wf (if aeDelayS ?e < 0 then ?e\<lparr>aeDelayS := 0\<rparr> else ?e)"
    using assms by (simp add: auto_wf_def is_int64_def minInt64_def maxInt64_def)
  have "is_order (byOrder (cxAutoOrder cx))" "noFault (cxEnv cx)"
    using calm by (simp_all add: calm_def ordersOk_def)
  then have "saved cfg (s\<lparr>svAuto := st, svWorld := w\<rparr>)"
    using auto_Set_cases [OF run] auto_json.resaved_put [OF saved_synced(1) [OF saved] wf]
      saved_part(1) [OF saved] saved by auto
  with run show "saved cfg (snd (autoH (auto_Set (cxAutoOrder cx) (cxEnv cx) ?e) s))" by (simp add: autoH_def)
qed

definition schedUpserted :: "SchedEntry \<Rightarrow> SchedEntry store \<Rightarrow> SchedEntry" where
  "schedUpserted e s =
     (let e = (if seKeep e < 0 then e\<lparr>seKeep := 0\<rparr> else e)
      in case gget (seVM e) (sdata s) of Some prev \<Rightarrow> e\<lparr>seLastRunUnix := seLastRunUnix prev\<rparr> | None \<Rightarrow> e)"

lemma sched_Upsert_cases:
  assumes "sched_Upsert ord env e s w = (r, st, w')"
  shows "(st = s \<and> w' = w) \<or> (\<exists>r'. storePut sched_enc seVM ord env (schedUpserted e s) s w = (r', st, w'))"
proof (cases "storePut sched_enc seVM ord env (schedUpserted e s) s w")
  case (fields r' st' w1)
  with assms show ?thesis
    by (cases r') (simp_all add: sched_Upsert_put schedUpserted_def Let_def split: if_splits)
qed

lemma schedUpserted_wf:
  assumes "sched_wf e" "sched_json.wfStore s"
  shows "sched_wf (schedUpserted e s)"
proof (cases "gget (seVM e) (sdata s)")
  case None
  with assms(1) show ?thesis by (simp add: schedUpserted_def Let_def sched_wf_def is_int64_def minInt64_def maxInt64_def)
next
  case (Some prev)
  then have "sched_wf prev" using assms(2) by (auto simp: sched_json.wfStore_def dest!: gget_SomeD)
  with Some assms(1) show ?thesis by (simp add: schedUpserted_def Let_def sched_wf_def is_int64_def minInt64_def maxInt64_def)
qed

lemma calmR_sched:
  assumes "sched_wf e"
  shows "keepsH (calmR cfg cx) (schedH (sched_Upsert (cxSchedOrder cx) (cxEnv cx) (e\<lparr>seVM := n\<rparr>)))"
proof (rule calmR_rule)
  fix s :: "'a server"
  let ?e = "e\<lparr>seVM := n\<rparr>"
  assume calm: "calm cx" and saved: "saved cfg s"
  obtain r st w where run: "sched_Upsert (cxSchedOrder cx) (cxEnv cx) ?e (svSched s) (svWorld s) = (r, st, w)"
    using prod_cases3 by blast
  note sy = saved_synced(5) [OF saved]
  have "sched_wf ?e" using assms by (simp add: sched_wf_def)
  note wf = schedUpserted_wf [OF this sched_json.synced_wf [OF sy]]
  have "saved cfg (s\<lparr>svSched := st, svWorld := w\<rparr>)"
    using sched_Upsert_cases [OF run]
  proof
    assume "\<exists>r'. storePut sched_enc seVM (cxSchedOrder cx) (cxEnv cx) (schedUpserted ?e (svSched s)) (svSched s) (svWorld s) = (r', st, w)"
    then show ?thesis
      using sched_json.resaved_put [OF sy wf] saved_part(5) [OF saved] calm by (auto simp: calm_def ordersOk_def)
  qed (use saved in simp)
  then show "saved cfg (snd (schedH (sched_Upsert (cxSchedOrder cx) (cxEnv cx) ?e) s))" using run by (simp add: schedH_def)
qed

lemma calmR_vnc:
  assumes "vnc_wf e"
  shows "keepsH (calmR cfg cx) (vncH (vnc_Set (cxVncOrder cx) (cxEnv cx) e))"
proof (rule calmR_rule)
  fix s :: "'a server"
  assume calm: "calm cx" and saved: "saved cfg s"
  obtain r st w where run: "vnc_Set (cxVncOrder cx) (cxEnv cx) e (svVNC s) (svWorld s) = (r, st, w)"
    using prod_cases3 by blast
  with vnc_json.resaved_put [OF saved_synced(7) [OF saved] assms] calm
  have "vnc_json.resaved (svVNC s) (svWorld s) st w" by (auto simp: vnc_Set_put calm_def ordersOk_def)
  with run show "saved cfg (snd (vncH (vnc_Set (cxVncOrder cx) (cxEnv cx) e) s))"
    using saved_part(7) [OF saved] by (simp add: vncH_def)
qed

text \<open>Mounts: editing saves; mounting leaves every file as it was.\<close>

lemma saved_mounts:
  assumes "saved cfg s" "mmStore mm = mmStore (svMounts s)" "\<And>q. \<not> sideFile q \<Longrightarrow> files w q = files (svWorld s) q"
  shows "saved cfg (s\<lparr>svMounts := mm, svWorld := w\<rparr>)"
proof -
  have "partPath y (s\<lparr>svMounts := mm, svWorld := w\<rparr>) = partPath y (s\<lparr>svWorld := w\<rparr>) \<and>
      partSynced y (s\<lparr>svMounts := mm, svWorld := w\<rparr>) w = partSynced y (s\<lparr>svWorld := w\<rparr>) w" for y
    using assms(2) by (cases y) simp_all
  with saved_world [OF assms(1,3)] show ?thesis by (simp add: saved_def)
qed

lemma mounts_Mount_files:
  assumes "noFault env" "mounts_Mount env i m w = (r, m', w')"
  shows "mmStore m' = mmStore m \<and> files w' = files w"
proof
  have "\<And>p fs. \<not> osFault env OpRemove p fs" using assms(1) by (simp add: noFault_def)
  then have "files (snd (doMount env e w)) = files w" for e
    using doMountCIFS_frame [of env e w] runCmd_frame(1) [of env mountBin "nfsArgs e" w]
    by (simp add: doMount_def doMountNFS_def)
  then show "files w' = files w"
    using assms(2) by (auto simp: mounts_Mount_def split: option.splits sum.splits prod.splits if_splits) (metis snd_conv)+
  show "mmStore m' = mmStore m"
    using assms(2) by (auto simp: mounts_Mount_def setError_def split: option.splits sum.splits prod.splits if_splits)
qed

lemma calmR_mounts:
  "keepsH (calmR cfg cx) (mountsH (mounts_Upsert (cxMountOrder cx) (cxEnv cx) i e))"
  "keepsH (calmR cfg cx) (mountsH (mounts_Mount (cxEnv cx) i))" "keepsH (calmR cfg cx) (mountsH (unmountM (cxEnv cx) i))"
proof -
  show "keepsH (calmR cfg cx) (mountsH (mounts_Mount (cxEnv cx) i))"
    by (rule calmR_rule) (auto simp: mountsH_def calm_def split: prod.split dest: mounts_Mount_files intro!: saved_mounts)
  show "keepsH (calmR cfg cx) (mountsH (unmountM (cxEnv cx) i))"
  proof (rule calmR_rule)
    fix s :: "'a server"
    assume "saved cfg s"
    moreover have "files (snd (mounts_Unmount (cxEnv cx) (svMounts s) i (svWorld s))) = files (svWorld s)"
      by (simp add: mounts_Unmount_def runCmd_frame split: option.split)
    ultimately show "saved cfg (snd (mountsH (unmountM (cxEnv cx) i) s))"
      by (auto simp: mountsH_def unmountM_def split: prod.split intro: saved_world)
  qed
  show "keepsH (calmR cfg cx) (mountsH (mounts_Upsert (cxMountOrder cx) (cxEnv cx) i e))"
  proof (rule calmR_rule)
    fix s :: "'a server"
    assume calm: "calm cx" and saved: "saved cfg s"
    obtain r st w where run: "storePut mount_enc meID (cxMountOrder cx) (cxEnv cx) (upserted i e (svMounts s)) (mmStore (svMounts s)) (svWorld s) = (r, st, w)"
      using prod_cases3 by blast
    with mount_json.resaved_put [OF saved_synced(2) [OF saved] TrueI] calm
    have "mount_json.resaved (mmStore (svMounts s)) (svWorld s) st w" by (auto simp: calm_def ordersOk_def)
    with run show "saved cfg (snd (mountsH (mounts_Upsert (cxMountOrder cx) (cxEnv cx) i e) s))"
      using saved_part(2) [OF saved, of "svMounts s\<lparr>mmStore := st\<rparr>" w] saved_mounts [OF saved refl, of "svWorld s"]
      by (simp add: mountsH_def mounts_Upsert_eq split: sum.split)
  qed
qed

end
