(* ===== verification/RestartProps.thy ===== *)
theory RestartProps
  imports Synced
begin

section \<open>The daemon across restarts\<close>

text \<open>
  That a restart loses nothing: every request and every tick keeps memory and files in step while the file operations
  work, and opening the stores again gives back what they held.
\<close>

subsection \<open>The handlers and the other steps\<close>

lemma calmR_backup:
  assumes "noDash vm"
  shows "keepsH (calmR cfg cx) (backupH (backup_Start ord env (backup_controller env (cxVirsh cx)) i st now vm dest))"
proof (rule calmR_rule)
  fix s :: "'a server"
  assume saved: "saved cfg s"
  obtain r m w where run: "backup_Start ord env (backup_controller env (cxVirsh cx)) i st now vm dest (svBackup s) (svWorld s) = (r, m, w)"
    using prod_cases3 by blast
  have "sameFiles (svWorld s) w"
    using run by (auto simp: backup_Start_def backup_controller_def Let_def split: prod.splits sum.splits if_splits
        dest!: keepsE [OF files_frame.keeps_State, rotated] keepsE [OF files_frame.keeps_DumpXML, rotated]
          keepsE [OF files_frame.keeps_DomainDisks, rotated] intro: sameFiles_trans)
  moreover have "s\<lparr>svBackup := m, svWorld := w\<rparr> = s\<lparr>svWorld := w\<rparr>\<lparr>svBackup := m\<rparr>" by simp
  ultimately have "saved cfg (s\<lparr>svBackup := m, svWorld := w\<rparr>)"
    using saved_sameFiles [OF saved] saved_other(3) by metis
  with run show "saved cfg (snd (backupH (backup_Start ord env (backup_controller env (cxVirsh cx)) i st now vm dest) s))"
    by (simp add: backupH_def)
qed

lemma calmR_autostartItem: "keepsH (calmR cfg cx) (autostartItem cx rq)"
  unfolding autostartItem_def Let_def
  by (intro calm_frame.S.keepsH_guard calm_frame.S.keepsH_if calmR_decode calm_frame.S.keepsH_bind calm_frame.S.keepsH_gets
      calm_frame.S.keepsH_orFail calm_frame.S.keepsH_ret calmR_auto calmR_stores calm_frame.keepsH_virshH calm_frame.lift
      calm_frame.keeps_calls decoded_auto; assumption?)
    (auto dest: validName_noDash)

lemma calmR_scheduleItem: "keepsH (calmR cfg cx) (scheduleItem cx rq)"
  unfolding scheduleItem_def Let_def
  by (intro calm_frame.S.keepsH_guard calm_frame.S.keepsH_if calmR_decode calm_frame.S.keepsH_bind calm_frame.S.keepsH_gets
      calm_frame.S.keepsH_orFail calm_frame.S.keepsH_ret calmR_sched calmR_stores decoded_sched; assumption?)

lemma calmR_vncDomain: "keepsH (calmR cfg cx) (vncDomain cx rq)"
proof -
  have wf: "vnc_wf \<lparr>veVM = vm, vePassword = p, veListen = l, vePort = n\<rparr>" if "\<not> badPort n" for vm p l n
    using that by (auto simp: vnc_wf_def badPort_def minInt64_def maxInt64_def)
  have "keepsH (calmR cfg cx) (vncPost cx rq vm)" if "noDash vm" for vm
    unfolding vncPost_def vncLocalOnly_def vncProtect_def using that
    by (auto intro!: calm_frame.handler_intros calm_frame.S.keepsH_guard calmR_vnc wf)
  moreover have "keepsH (calmR cfg cx) (vncStatus cx vm)" "keepsH (calmR cfg cx) (vncDelete cx vm)" if "noDash vm" for vm
    unfolding vncStatus_def vncDelete_def using that
    by (auto intro!: calm_frame.handler_intros calmR_stores)
  ultimately show ?thesis
    unfolding vncDomain_def Let_def
    by (auto intro!: calm_frame.S.keepsH_intros dest!: validName_noDash)
qed

lemma calmR_vmEntry: "keepsH (calmR cfg cx) (vmEntry cx n)"
  unfolding vmEntry_def
  by (intro calm_frame.S.keepsH_bind calm_frame.S.keepsH_gets calm_frame.S.keepsH_ret calm_frame.keepsH_virshOr
      files_frame.keeps_State files_frame.keeps_IsAutostart files_frame.keeps_document) simp_all

lemma calmR_request: "keepsH (calmR cfg cx) (rootHandler cfg cx rq)"
  by (intro calm_frame.keepsH_rootHandler calm_frame.keepsH_listVMs calmR_vmEntry calmR_autostartItem calmR_scheduleItem calmR_vncDomain
      calm_frame.keepsH_mountsCollection calm_frame.keepsH_mountsItem calm_frame.keepsH_backupItem calm_frame.keepsH_usbDomain
      calm_frame.keepsH_pciDomain calm_frame.keepsH_tpmDomain calmR_stores calmR_mounts calmR_backup)

definition sideOnly :: "'h world \<Rightarrow> 'h world \<Rightarrow> bool" where
  "sideOnly w w' \<longleftrightarrow> (\<forall>q. \<not> sideFile q \<longrightarrow> files w' q = files w q)"

interpretation side_frame: frame sideOnly
  by unfold_locales (auto simp: sideOnly_def)

lemma sameFiles_sideOnly: "sameFiles w w' \<Longrightarrow> sideOnly w w'"
  using side_isTmp by (fastforce simp: sameFiles_def sideOnly_def)

lemma sideOnly_write: "sideFile p \<Longrightarrow> sideOnly w (snd (os_WriteFile env p c w))"
  by (auto simp: sideOnly_def os_WriteFile_def)

lemma sideOnly_files: "files w' = files w \<Longrightarrow> sideOnly w w'"
  by (simp add: sideOnly_def)

context frame
begin

lemma R_case:
  assumes "keeps R m" "\<And>e w. R w (f e w)" "\<And>a w. R w (g a w)"
  shows "R w (case m w of (Inl e, w) \<Rightarrow> f e w | (Inr a, w) \<Rightarrow> g a w)"
proof -
  obtain r w1 where "m w = (r, w1)" by fastforce
  with keepsE [OF assms(1) this] assms(2) [of w1] assms(3) [of w1] show ?thesis
    by (cases r) (auto intro: R_trans)
qed

lemma R_after: "R a b \<Longrightarrow> (\<And>x. R x (f x)) \<Longrightarrow> R a (f b)"
  using R_trans by blast

end

lemma side_keeps: "keeps sameFiles m \<Longrightarrow> keeps sideOnly m"
  using sameFiles_sideOnly by (auto simp: keeps_def)

lemma side_calls:
  "keeps sideOnly (virsh_ListDomains env c)" "keeps sideOnly (virsh_State env c n)" "keeps sideOnly (virsh_Start env c n)"
  "keeps sideOnly (virsh_SetAutostart env c n b)"
  by (intro side_keeps files_frame.keeps_ListDomains files_frame.keeps_SetAutostart files_frame.keeps_State
      files_frame.keeps_power; simp)+

lemma side_sleep: "sideOnly w (time_Sleep sleep d w)"
  by (simp add: sideOnly_def time_Sleep_def)

lemma auto_wait_side: "sideOnly w (snd (auto_wait sleep (auto_controller env c) n w))"
proof (induction n arbitrary: w)
  case (Suc n)
  have "snd (auto_wait sleep (auto_controller env c) (Suc n) w) =
      (case virsh_ListDomains env c w of
        (Inl _, w) \<Rightarrow> snd (auto_wait sleep (auto_controller env c) n (time_Sleep sleep (5 * second) w)) | (Inr _, w) \<Rightarrow> w)"
    by (simp add: auto_controller_def split: prod.split sum.split)
  also have "sideOnly w \<dots>"
    using Suc side_frame.R_trans side_sleep by (intro side_frame.R_case side_calls) (blast, rule side_frame.R_refl)
  finally show ?case .
qed (simp add: side_frame.R_refl)

lemma auto_start1_side: "sideOnly w (auto_start1 sleep (auto_controller env c) e w)"
proof -
  have "sideOnly w (auto_start1 sleep (auto_controller env c) e w)" if "aeEnabled e"
  proof -
    have "sideOnly x (case virsh_State env c (aeName e) x of (Inl _, w) \<Rightarrow> w
        | (Inr state, w) \<Rightarrow> if state = ''running'' then w else
            (case virsh_Start env c (aeName e) w of (Inl _, w) \<Rightarrow> w
            | (Inr _, w) \<Rightarrow> if 0 < aeDelayS e then time_Sleep sleep (int64 (aeDelayS e * second)) w else w))" for x
      by (intro side_frame.R_case side_calls side_frame.R_refl)
        (auto intro!: side_frame.R_case side_calls side_frame.R_refl side_sleep)
    from side_frame.R_after [OF keepsD [OF side_calls(4)] this] show ?thesis
      using that by (simp add: auto_start1_def auto_controller_def Let_def cong: sum.case_cong if_cong)
  qed
  then show ?thesis by (cases "aeEnabled e") (simp_all add: auto_start1_def side_frame.R_refl)
qed

lemma auto_Run_side: "sideOnly w (auto_Run sleep stamp ord env (auto_controller env c) s w)"
proof -
  have marker: "sideFile runMarker" by (simp add: sideFile_def)
  obtain b w1 where wait: "auto_wait sleep (auto_controller env c) 12 w = (b, w1)" by fastforce
  let ?w2 = "fold (auto_start1 sleep (auto_controller env c)) (auto_All ord s) w1"
  have w1: "sideOnly w w1" using auto_wait_side [of w sleep env c 12] wait by simp
  have "sideOnly w1 ?w2" by (rule side_frame.keeps_fold) (rule auto_start1_side)
  then have "sideOnly w (snd (os_WriteFile env runMarker (Text (stamp @ [nl])) ?w2))"
    using side_frame.R_trans [OF side_frame.R_trans [OF w1]] sideOnly_write [OF marker] by blast
  with w1 wait show ?thesis
    unfolding auto_Run_def by (cases b) (simp_all add: Let_def side_frame.R_refl del: auto_wait.simps)
qed

lemma watchTick_side: "sideOnly w (auto_watchTick ord env (auto_controller env c) s w)"
proof -
  have "sideOnly w (auto_watch1 (auto_controller env c) e w)" for e w
    unfolding auto_watch1_def auto_controller_def
    by (auto intro!: side_frame.R_case side_calls side_frame.R_refl keepsD [OF side_calls(3)])
  then have "sideOnly w (fold (auto_watch1 (auto_controller env c)) es w)" for es
    by (intro side_frame.keeps_fold)
  then show ?thesis by (simp add: auto_watchTick_def side_frame.R_refl)
qed

lemma reconcile_side:
  "sideOnly w (usb_Reconcile uo (usb_controller env c) us w)" "sideOnly w (pci_Reconcile po (pci_controller env c) pc w)"
  "sideOnly w (vnc_Reconcile vo (vnc_controller env c) vn w)" "sideOnly w (tpm_Reconcile tpo (tpm_controller env c) tp w)"
  unfolding usb_Reconcile_def pci_Reconcile_def vnc_Reconcile_def tpm_Reconcile_def
  by (rule side_frame.keeps_fold, rule keepsD [OF side_keeps], rule usb_reconcile1_sameFiles pci_reconcile1_sameFiles
      vnc_reconcile1_sameFiles tpm_reconcile1_sameFiles)+

lemma installUnits_side:
  "set (map fst us) \<subseteq> {serviceName, timerName} \<Longrightarrow> sideOnly w (snd (installUnits env ch us w))"
proof (induction us arbitrary: ch w)
  case (Cons u us)
  obtain n x where u: "u = (n, x)" by (cases u)
  with Cons.prems have "sideFile (unitPath n)" by (auto simp: sideFile_def)
  note wr = sideOnly_write [OF this, of w env "Text x"]
  obtain r w1 where run: "os_WriteFile env (unitPath n) (Text x) w = (r, w1)" by fastforce
  have rest: "sideOnly v (snd (installUnits env ch' us v))" for ch' v using Cons by simp
  show ?case
    using wr run rest [of w ch] side_frame.R_trans [OF _ rest [of w1 True], of w] by (cases r) (simp_all add: u)
qed (simp add: side_frame.R_refl)

lemma EnsureInstalled_side:
  assumes "is_order ord"
  shows "sideOnly w (snd (EnsureInstalled ord env w))"
proof -
  have ctl: "keeps sideOnly (systemctl env args)" for args
    by (simp add: keeps_def sideOnly_files systemctl_files)
  have "set (ord units) = set units" using assms by simp
  then have "set (map fst (ord units)) \<subseteq> {serviceName, timerName}" by (simp add: units_def)
  then have "keeps sideOnly (installUnits env False (ord units))" by (simp add: keeps_def installUnits_side)
  then have "keeps sideOnly (EnsureInstalled ord env)"
    unfolding EnsureInstalled_def by (intro side_frame.keeps_intros ctl)
  then show ?thesis by (rule keepsD)
qed

lemma Register_side: "sideOnly w (snd (gateway_Register env post m w))"
  by (auto simp: gateway_Register_def sideOnly_def split: sum.split prod.split)

text \<open>A backup writes its two files below its own directory.\<close>

lemma suffix_Join: "f \<noteq> [] \<Longrightarrow> es \<noteq> [] \<Longrightarrow> last es = f \<Longrightarrow> HasSuffix (Join es ''/'') f"
proof (induction es)
  case (Cons e es)
  show ?case
  proof (cases "es = []")
    case False
    with Cons have "HasSuffix (Join es ''/'') f" by simp
    with False show ?thesis by (simp add: Join_Cons suffix_appendI suffix_ConsI)
  qed (use Cons.prems in simp)
qed simp

lemma cleanElems_last:
  "f \<noteq> [] \<Longrightarrow> f \<noteq> ''.'' \<Longrightarrow> f \<noteq> ''..'' \<Longrightarrow> cleanElems rooted acc (es @ [f]) \<noteq> [] \<and> last (cleanElems rooted acc (es @ [f])) = f"
  by (induction rooted acc es rule: cleanElems.induct) (auto split: list.splits)

lemma JoinPath_suffix:
  assumes "CHR ''/'' \<notin> set f" "f \<noteq> []" "f \<noteq> ''.''" "f \<noteq> ''..''"
  shows "HasSuffix (JoinPath [d, f]) f"
proof -
  obtain p where p: "JoinPath [d, f] = Clean p" "p \<noteq> []" "\<exists>es. Split p (CHR ''/'') = es @ [f]"
  proof (cases "d = []")
    case True
    with assms show ?thesis
      by (intro that [of f]) (auto simp: JoinPath_def Split_plain)
  next
    case False
    have "Split (d @ ''/'' @ f) (CHR ''/'') = Split d (CHR ''/'') @ [f]"
      using splitOn_append [of "\<lambda>c. c = CHR ''/''" "CHR ''/''" d f] Split_plain [OF assms(1)] by (simp add: Split_def)
    with False assms show ?thesis
      by (intro that [of "d @ ''/'' @ f"]) (auto simp: JoinPath_def)
  qed
  then obtain es where "Split p (CHR ''/'') = es @ [f]" by blast
  with p(2) cleanElems_last [OF assms(2-4), of "IsAbs p" "[]" es] suffix_Join [OF assms(2)]
  have "HasSuffix (Clean p) f" by (auto simp: Clean_def Let_def intro: suffix_ConsI)
  with p(1) show ?thesis by simp
qed

lemma backup_disks_files: "files (snd (snd (backup_disks env job i ds sv m w))) = files w"
proof (induction ds arbitrary: i sv m w)
  case (Cons d ds)
  let ?args = "[''convert'', ''-O'', ''qcow2'', dkSource d, JoinPath [jDest job, diskFile i d]]"
  obtain r w1 where run: "os_exec env qemuImgBin ?args w = (r, w1)" by fastforce
  then have "files w1 = files w" using files_os_exec [of env qemuImgBin ?args w] by simp
  with Cons.IH run show ?case by (cases r) (simp_all add: Let_def)
qed simp

lemma backup_run_side: "sideOnly w (snd (backup_run env created now l m w))"
proof -
  obtain job xml disks where l: "l = (job, xml, disks)" by (cases l)
  have side: "sideFile (JoinPath [jDest job, ''domain.xml''])" "sideFile (JoinPath [jDest job, ''manifest.json''])"
    by (simp_all add: sideFile_def JoinPath_suffix)
  obtain r1 w1 where a: "os_WriteFile env (JoinPath [jDest job, ''domain.xml'']) (Text xml) w = (r1, w1)" by fastforce
  obtain r2 m2 w2 where b: "backup_disks env job 0 disks [] (backup_set job ''writing domain.xml'' m) w1 = (r2, m2, w2)"
    using prod_cases3 by blast
  have 1: "sideOnly w w1" using sideOnly_write [OF side(1), of w env "Text xml"] a by simp
  have 2: "sideOnly w w2"
    using backup_disks_files [of env job 0 disks "[]" "backup_set job ''writing domain.xml'' m" w1] b
    by (intro side_frame.R_trans [OF 1] sideOnly_files) simp
  have 3: "sideOnly w (snd (os_WriteFile env (JoinPath [jDest job, ''manifest.json'']) c w2))" for c
    by (rule side_frame.R_trans [OF 2 sideOnly_write [OF side(2)]])
  show ?thesis using a b 1 2 3 by (cases r1; cases r2) (simp_all add: backup_run_def l Let_def)
qed

lemma saved_sched_tick:
  assumes calm: "calm cx" and saved: "saved cfg s"
    and tick: "sched_tick fmt (cxSchedOrder cx) (cxEnv cx) (sched_controller (cxEnv cx) c) root (cxNow cx) (svSched s) (svWorld s) = (sc, w)"
  shows "saved cfg (s\<lparr>svSched := sc, svWorld := w\<rparr>)"
proof -
  let ?due = "sched_due (cxSchedOrder cx) (cxNow cx) (svSched s)"
    and ?st = "svSched s\<lparr>sdata := map (\<lambda>(k, e). (k, markRun (cxNow cx) e)) (sdata (svSched s))\<rparr>"
  obtain r w1 where save: "storeSave sched_enc (cxSchedOrder cx) (cxEnv cx) ?st (svWorld s) = (r, w1)" by fastforce
  let ?w0 = "if ?due \<noteq> [] then w1 else svWorld s"
  have sc: "sc = ?st" and w: "w = fold (sched_snapshot fmt (cxEnv cx) (sched_controller (cxEnv cx) c) root (cxNow cx)) ?due ?w0"
    using tick save by (auto simp: sched_tick_def sched_saveLocked_def Let_def)
  have ord: "is_order (cxSchedOrder cx)" and nf: "noFault (cxEnv cx)" and now: "0 \<le> cxNow cx" "cxNow cx \<le> maxInt64"
    using calm by (simp_all add: calm_def ordersOk_def)
  note sy = saved_synced(5) [OF saved]
  have "sched_json.resaved (svSched s) (svWorld s) ?st ?w0"
  proof (cases "?due = []")
    case True
    then have "\<forall>(k, e) \<in> set (sdata (svSched s)). markRun (cxNow cx) e = e"
      using ord by (fastforce simp: sched_due_def filter_empty_conv markRun_def)
    then have "map (\<lambda>(k, e). (k, markRun (cxNow cx) e)) (sdata (svSched s)) = sdata (svSched s)"
      by (intro map_idI) auto
    with True sy show ?thesis by (simp add: sched_json.resaved_def)
  next
    case False
    have "minInt64 \<le> cxNow cx div second" "cxNow cx div second \<le> maxInt64"
      using now by (simp_all add: second_def minInt64_def maxInt64_def)
    then have "sched_json.wfStore ?st"
      using sched_json.synced_wf [OF sy]
      by (auto simp: sched_json.wfStore_def keyed_def gmap_ok_def markRun_def sched_wf_def is_int64_def comp_def case_prod_beta)
    moreover have "r = Inr ()"
      using publish_noFault [OF nf, of "Path (svSched s)" "JArr (map (sched_enc \<circ> snd) (cxSchedOrder cx (sdata ?st)))" "svWorld s"] save
      by (simp add: storeSave_def)
    ultimately have "sched_json.synced ?st w1" using sched_json.synced_save [OF _ ord] save by blast
    moreover have "files w1 q = files (svWorld s) q" if "q \<noteq> Path (svSched s)" "q \<noteq> tmpPath (Path (svSched s))" for q
      using publish_frame(3) [OF that, of "cxEnv cx" "JArr (map (sched_enc \<circ> snd) (cxSchedOrder cx (sdata ?st)))" "svWorld s"] save
      by (simp add: storeSave_def)
    ultimately show ?thesis using False by (simp add: sched_json.resaved_def)
  qed
  from saved_part(5) [OF saved this] have 1: "saved cfg (s\<lparr>svSched := ?st, svWorld := ?w0\<rparr>)" .
  have "sameFiles ?w0 w" unfolding w by (rule files_frame.keeps_fold) (rule sched_snapshot_sameFiles)
  with saved_sameFiles [OF 1, of w] show ?thesis by (simp add: sc)
qed

lemma saved_auto_mounts:
  assumes "noFault env"
  shows "saved cfg s \<Longrightarrow> mounts_MountAllAuto ord env (svMounts s) (svWorld s) = (m, w) \<Longrightarrow>
    saved cfg (s\<lparr>svMounts := m, svWorld := w\<rparr>)"
proof -
  have "mmStore (fst (fold (\<lambda>i (m, w). snd (mounts_Mount env i m w)) ids (m, w))) = mmStore m \<and>
      files (snd (fold (\<lambda>i (m, w). snd (mounts_Mount env i m w)) ids (m, w))) = files w" for ids m w
  proof (induction ids arbitrary: m w)
    case (Cons i ids)
    obtain r m1 w1 where run: "mounts_Mount env i m w = (r, m1, w1)" using prod_cases3 by blast
    with mounts_Mount_files [OF assms run] Cons [of m1 w1] show ?case by simp
  qed simp
  from this [of _ "svMounts s" "svWorld s"]
  have "mounts_MountAllAuto ord env (svMounts s) (svWorld s) = (m, w) \<Longrightarrow> mmStore m = mmStore (svMounts s) \<and> files w = files (svWorld s)"
    unfolding mounts_MountAllAuto_def by (metis fst_conv snd_conv)
  then show "saved cfg s \<Longrightarrow> mounts_MountAllAuto ord env (svMounts s) (svWorld s) = (m, w) \<Longrightarrow>
      saved cfg (s\<lparr>svMounts := m, svWorld := w\<rparr>)"
    by (intro saved_mounts) simp_all
qed

lemma saved_side: "saved cfg s \<Longrightarrow> sideOnly (svWorld s) w \<Longrightarrow> saved cfg (s\<lparr>svWorld := w\<rparr>)"
  by (intro saved_world) (auto simp: sideOnly_def)

lemma saved_step:
  assumes calm: "calm (srCtx sr)" and saved: "saved cfg s"
  shows "saved cfg (step cfg sr ev s)"
proof -
  have ord: "is_order (cxUnitOrder (srCtx sr))" "noFault (cxEnv (srCtx sr))" using calm by (simp_all add: calm_def ordersOk_def)
  note side = saved_side [OF saved]
  show ?thesis
  proof (cases ev)
    case (Request rq)
    then show ?thesis
      using calm_frame.S.keepsH_run [OF calmR_request, where s = s] calm saved
      by (simp add: step_def Let_def serve_def calmR_def)
  next
    case SchedTick
    then show ?thesis
      using saved_sched_tick [OF calm saved] by (simp add: step_def Let_def split: prod.split)
  next
    case AutoMounts
    then show ?thesis
      using saved_auto_mounts [OF ord(2) saved] by (simp add: step_def Let_def split: prod.split)
  next
    case RunBackup
    show ?thesis
    proof (cases "svLaunched s")
      case (Cons l ls)
      obtain m w where run: "backup_run (cxEnv (srCtx sr)) (cxStamp (srCtx sr)) (cxNow (srCtx sr) div second) l (svBackup s) (svWorld s) = (m, w)"
        by fastforce
      with backup_run_side [of "svWorld s"] have "sideOnly (svWorld s) w" by (metis snd_conv)
      from side [OF this] have "saved cfg (s\<lparr>svWorld := w\<rparr>\<lparr>svBackup := m\<rparr>\<lparr>svLaunched := ls\<rparr>)"
        by (simp only: saved_other)
      moreover have "s\<lparr>svWorld := w\<rparr>\<lparr>svBackup := m\<rparr>\<lparr>svLaunched := ls\<rparr> = s\<lparr>svLaunched := ls, svBackup := m, svWorld := w\<rparr>"
        by simp
      ultimately have "saved cfg (s\<lparr>svLaunched := ls, svBackup := m, svWorld := w\<rparr>)" by metis
      with RunBackup Cons run show ?thesis by (simp add: step_def Let_def runBackups_def)
    qed (use RunBackup saved in \<open>simp add: step_def Let_def runBackups_def\<close>)
  qed (simp_all add: step_def Let_def onWorldS_def side reconcile_side auto_Run_side watchTick_side
      EnsureInstalled_side [OF ord(1)] Register_side sideOnly_files)
qed

subsection \<open>Opening the stores again\<close>

lemma storeOpen_News:
  "auto_New env w p = storeOpen auto_dec aeName ''autostart store decode: %w'' env w p"
  "usb_NewStore env w p = storeOpen usb_dec usb_key ''usb store decode: %w'' env w p"
  "pci_NewStore env w p = storeOpen pci_dec pci_key ''pci store decode: %w'' env w p"
  "sched_NewStore env w p = storeOpen sched_dec seVM ''schedule store decode: %w'' env w p"
  "tpm_NewStore env w p = storeOpen tpm_dec tpm_key ''tpm store decode: %w'' env w p"
  "vnc_NewStore env w p = storeOpen vnc_dec veVM ''vnc store decode: %w'' env w p"
  by (simp_all add: auto_New_def auto_load_def usb_NewStore_def usb_load_def pci_NewStore_def pci_load_def sched_NewStore_def
      sched_load_def tpm_NewStore_def tpm_load_def vnc_NewStore_def vnc_load_def storeOpen_def)

definition sameData :: "'h server \<Rightarrow> 'h server \<Rightarrow> bool" where
  "sameData s s' \<longleftrightarrow>
     (\<forall>k. gget k (sdata (svAuto s')) = gget k (sdata (svAuto s)) \<and>
       gget k (sdata (mmStore (svMounts s'))) = gget k (sdata (mmStore (svMounts s))) \<and>
       gget k (sdata (svUSB s')) = gget k (sdata (svUSB s)) \<and> gget k (sdata (svPCI s')) = gget k (sdata (svPCI s)) \<and>
       gget k (sdata (svSched s')) = gget k (sdata (svSched s)) \<and> gget k (sdata (svTPM s')) = gget k (sdata (svTPM s)) \<and>
       gget k (sdata (svVNC s')) = gget k (sdata (svVNC s))) \<and>
     settings_Get (svSettings s') = settings_Get (svSettings s)"

lemma saved_paths:
  assumes "saved cfg s"
  shows "Path (svAuto s) = JoinPath [cfDataDir cfg, ''autostart.json'']"
    "Path (mmStore (svMounts s)) = JoinPath [cfDataDir cfg, ''mounts.json'']"
    "Path (svUSB s) = JoinPath [cfDataDir cfg, ''usb.json'']" "Path (svPCI s) = JoinPath [cfDataDir cfg, ''pci.json'']"
    "Path (svSched s) = JoinPath [cfDataDir cfg, ''schedule.json'']" "Path (svTPM s) = JoinPath [cfDataDir cfg, ''tpm.json'']"
    "Path (svVNC s) = JoinPath [cfDataDir cfg, ''vnc.json'']" "ssPath (svSettings s) = JoinPath [cfDataDir cfg, ''settings.json'']"
  using assms unfolding saved_def dataPath_def by (metis partPath.simps partFile.simps)+

lemma saved_opens:
  assumes saved: "saved cfg s" and nf: "noFault env"
  shows "\<exists>s'. openServer cfg env (svWorld s) = Inr s' \<and> sameData s s' \<and> saved cfg s'"
proof -
  let ?w = "svWorld s"
  have rd: "\<not> osFault env OpRead p fs" "os_MkdirAll env p v = Inr ()" for p fs v
    using nf by (simp_all add: noFault_def os_MkdirAll_def)
  note P = saved_paths [OF saved, symmetric] and sy = saved_synced [OF saved]
  obtain au where au: "auto_New env ?w (Path (svAuto s)) = Inr au" "Path au = Path (svAuto s)" "auto_json.synced au ?w"
    "\<forall>k. gget k (sdata au) = gget k (sdata (svAuto s))"
    unfolding storeOpen_News using auto_json.synced_open [OF sy(1) rd(1)] by metis
  obtain us where us: "usb_NewStore env ?w (Path (svUSB s)) = Inr us" "Path us = Path (svUSB s)" "usb_json.synced us ?w"
    "\<forall>k. gget k (sdata us) = gget k (sdata (svUSB s))"
    unfolding storeOpen_News using usb_json.synced_open [OF sy(3) rd(1)] by metis
  obtain pc where pc: "pci_NewStore env ?w (Path (svPCI s)) = Inr pc" "Path pc = Path (svPCI s)" "pci_json.synced pc ?w"
    "\<forall>k. gget k (sdata pc) = gget k (sdata (svPCI s))"
    unfolding storeOpen_News using pci_json.synced_open [OF sy(4) rd(1)] by metis
  obtain sc where sc: "sched_NewStore env ?w (Path (svSched s)) = Inr sc" "Path sc = Path (svSched s)" "sched_json.synced sc ?w"
    "\<forall>k. gget k (sdata sc) = gget k (sdata (svSched s))"
    unfolding storeOpen_News using sched_json.synced_open [OF sy(5) rd(1)] by metis
  obtain tp where tp: "tpm_NewStore env ?w (Path (svTPM s)) = Inr tp" "Path tp = Path (svTPM s)" "tpm_json.synced tp ?w"
    "\<forall>k. gget k (sdata tp) = gget k (sdata (svTPM s))"
    unfolding storeOpen_News using tpm_json.synced_open [OF sy(6) rd(1)] by metis
  obtain vn where vn: "vnc_NewStore env ?w (Path (svVNC s)) = Inr vn" "Path vn = Path (svVNC s)" "vnc_json.synced vn ?w"
    "\<forall>k. gget k (sdata vn) = gget k (sdata (svVNC s))"
    unfolding storeOpen_News using vnc_json.synced_open [OF sy(7) rd(1)] by metis
  obtain ms where ms: "storeOpen mount_dec meID ''mounts decode: %w'' env ?w (Path (mmStore (svMounts s))) = Inr ms"
    "Path ms = Path (mmStore (svMounts s))" "mount_json.synced ms ?w" "\<forall>k. gget k (sdata ms) = gget k (sdata (mmStore (svMounts s)))"
    using mount_json.synced_open [OF sy(2) rd(1)] by metis
  have mm: "mounts_New env ?w (Path (mmStore (svMounts s))) = Inr \<lparr>mmStore = ms, mmLast = []\<rparr>"
    using ms(1) by (simp add: mounts_New_def mounts_load_def storeOpen_def)
  let ?s = "\<lparr>svAuto = au, svMounts = \<lparr>mmStore = ms, mmLast = []\<rparr>, svUSB = us, svPCI = pc, svSched = sc, svBackup = [],
      svVNC = vn, svTPM = tp, svSettings = svSettings s, svArmed = [], svLaunched = [], svWorld = ?w\<rparr>"
  have "openServer cfg env ?w = Inr ?s"
    using au(1) us(1) pc(1) sc(1) tp(1) vn(1) mm settingsSynced_open [OF sy(8) rd(1)]
    by (simp add: openServer_def backup_NewManager_def resBind_def rd(2) P)
  moreover have "sameData s ?s"
    using au(4) us(4) pc(4) sc(4) tp(4) vn(4) ms(4) by (simp add: sameData_def)
  moreover have "saved cfg ?s"
  proof -
    have "partPath x ?s = partPath x s \<and> partSynced x ?s ?w" for x
      using au(2,3) us(2,3) pc(2,3) sc(2,3) tp(2,3) vn(2,3) ms(2,3) sy(8) by (cases x) simp_all
    with saved show ?thesis by (simp add: saved_def)
  qed
  ultimately show ?thesis by blast
qed

lemma saved_first:
  assumes "separate cfg" "noFault env" "\<And>x. files w (dataPath cfg x) = None"
  shows "\<exists>s. openServer cfg env w = Inr s \<and> saved cfg s"
proof -
  let ?p = "dataPath cfg"
  define s where "s = \<lparr>svAuto = \<lparr>Path = ?p AutoPart, sdata = []\<rparr>, svMounts = \<lparr>mmStore = \<lparr>Path = ?p MountsPart, sdata = []\<rparr>, mmLast = []\<rparr>,
      svUSB = \<lparr>Path = ?p UsbPart, sdata = []\<rparr>, svPCI = \<lparr>Path = ?p PciPart, sdata = []\<rparr>, svSched = \<lparr>Path = ?p SchedPart, sdata = []\<rparr>,
      svBackup = [], svVNC = \<lparr>Path = ?p VncPart, sdata = []\<rparr>, svTPM = \<lparr>Path = ?p TpmPart, sdata = []\<rparr>,
      svSettings = \<lparr>ssPath = ?p SettingsPart, ssData = zeroSettings\<rparr>, svArmed = [], svLaunched = [], svWorld = w\<rparr>"
  have "partPath x s = ?p x \<and> partSynced x s w" for x
    using assms(3) by (cases x) (simp_all add: s_def auto_json.synced_fresh mount_json.synced_fresh usb_json.synced_fresh
        pci_json.synced_fresh sched_json.synced_fresh tpm_json.synced_fresh vnc_json.synced_fresh settingsSynced_def)
  then have "saved cfg s" using assms(1) by (simp add: saved_def s_def)
  from saved_opens [OF this assms(2)] show ?thesis by (auto simp: s_def)
qed

subsection \<open>A restart loses nothing\<close>

text \<open>
  A run of the daemon over any number of restarts, on a host whose file operations work: its steps, and each
  start from the files the one before left.
\<close>

inductive calmRun :: "Config \<Rightarrow> 'h world \<Rightarrow> 'h server \<Rightarrow> bool" for cfg w0 where
  started: "noFault env \<Longrightarrow> openServer cfg env w0 = Inr s \<Longrightarrow> calmRun cfg w0 s"
| stepped: "calmRun cfg w0 s \<Longrightarrow> calm (srCtx sr) \<Longrightarrow> calmRun cfg w0 (step cfg sr ev s)"
| restarted: "calmRun cfg w0 s \<Longrightarrow> noFault env \<Longrightarrow> openServer cfg env (svWorld s) = Inr s' \<Longrightarrow> calmRun cfg w0 s'"

lemma calmRun_saved:
  assumes "separate cfg" "\<And>x. files w0 (dataPath cfg x) = None"
  shows "calmRun cfg w0 s \<Longrightarrow> saved cfg s"
proof (induction rule: calmRun.induct)
  case (started env s)
  with saved_first [OF assms(1) started(1) assms(2)] show ?case by auto
next
  case (stepped s sr ev)
  then show ?case by (intro saved_step)
next
  case (restarted s env s')
  with saved_opens [OF restarted(4,2)] show ?case by auto
qed

text \<open>
  C3: a restart loses nothing and never fails. The daemon starts on a machine that has none of its files and
  runs, over any requests, ticks, backups, changes of the host and earlier restarts, on a host whose file
  operations work. Whenever it is started again from the files it has left by then, every store opens, and
  all the pins, mounts, schedules, boot entries and settings are exactly those it held in memory.
\<close>

theorem restart_loses_nothing:
  assumes "separate cfg" "\<And>x. files w0 (dataPath cfg x) = None" "calmRun cfg w0 s" "noFault env"
  shows "\<exists>s'. openServer cfg env (svWorld s) = Inr s' \<and> sameData s s'"
  using saved_opens [OF calmRun_saved [OF assms(1-3)] assms(4)] by blast

definition firstServer :: "unit server" where
  "firstServer = (case openServer demoCfg quietEnv emptyWorld of Inr s \<Rightarrow> s | Inl _ \<Rightarrow> demoServer)"

definition pinnedServer :: "unit server" where
  "pinnedServer = step demoCfg (demoSurroundings quietEnv) (Request pinRequest) firstServer"

lemma demo_separate: "separate demoCfg"
  by code_simp

lemma firstServer_opens: "is_ok (openServer demoCfg quietEnv emptyWorld)"
  by code_simp

lemma pinnedServer_pin: "map_option upVM (gget ''win/046D:c52b'' (sdata (svUSB pinnedServer))) = Some ''win''"
  by code_simp

theorem restart_loses_nothing_witness:
  "\<exists>s'. openServer demoCfg quietEnv (svWorld pinnedServer) = Inr s' \<and>
     map_option upVM (gget ''win/046D:c52b'' (sdata (svUSB s'))) = Some ''win''"
proof -
  have nf: "noFault quietEnv" by (simp add: noFault_def)
  then have calm: "calm (srCtx (demoSurroundings quietEnv))"
    by (simp add: calm_def demo_orders) (simp add: demoCtx_def maxInt64_def)
  have "openServer demoCfg quietEnv emptyWorld = Inr firstServer"
    using firstServer_opens by (auto simp: firstServer_def is_ok_iff)
  from calmRun.stepped [OF calmRun.started [OF nf this] calm]
  have "calmRun demoCfg emptyWorld pinnedServer" by (simp add: pinnedServer_def)
  from restart_loses_nothing [OF demo_separate _ this nf] obtain s'
    where "openServer demoCfg quietEnv (svWorld pinnedServer) = Inr s'" "sameData pinnedServer s'"
    by (auto simp: emptyWorld_def)
  with pinnedServer_pin show ?thesis by (auto simp: sameData_def)
qed

end
