(* ===== verification/HostdevProps.thy ===== *)
theory HostdevProps
  imports DeviceProps HostListProps
begin

section \<open>Finding an attached device again\<close>

text \<open>
  The XML parser on the text that the program itself writes, and with it that the reconcilers recognise a device
  they have attached. An element is written by \<open>openTag\<close>, \<open>emptyTag\<close> and \<open>closeTag\<close>; the lemmas say what
  the parser makes of each.
\<close>

subsection \<open>Tags\<close>

definition attrText :: "string \<times> string \<Rightarrow> string" where
  "attrText nv = '' '' @ fst nv @ ''='' @ sq (snd nv)"

definition openTag :: "string \<Rightarrow> (string \<times> string) list \<Rightarrow> string" where
  "openTag n as = ''<'' @ n @ concat (map attrText as) @ ''>''"

definition emptyTag :: "string \<Rightarrow> (string \<times> string) list \<Rightarrow> string" where
  "emptyTag n as = ''<'' @ n @ concat (map attrText as) @ ''/>''"

definition closeTag :: "string \<Rightarrow> string" where
  "closeTag n = ''</'' @ n @ ''>''"

definition plainName :: "string \<Rightarrow> bool" where
  "plainName n \<longleftrightarrow> n \<noteq> [] \<and> list_all (\<lambda>c. CHR ''a'' \<le> c \<and> c \<le> CHR ''z'') n"

definition plainValue :: "string \<Rightarrow> bool" where
  "plainValue v \<longleftrightarrow> list_all (\<lambda>c. c \<notin> {apos, CHR ''<'', CHR ''&''}) v"

lemma lower_nameByte: "CHR ''a'' \<le> c \<and> c \<le> CHR ''z'' \<Longrightarrow> isNameByte c \<and> isNameStart c \<and> c \<noteq> CHR '':'' \<and> c \<noteq> CHR ''/'' \<and> c \<noteq> CHR ''!'' \<and> c \<noteq> CHR ''?''"
  by (auto simp: isNameByte_def isNameStart_def isAlnum_def isDigit_def less_eq_char_def)

lemma plainName_take:
  assumes "plainName n" "\<not> isNameByte c"
  shows "takeName (n @ c # t) = Some (n, c # t)"
proof -
  have "\<forall>x \<in> set n. isNameByte x" "isNameStart (hd n)" "n \<noteq> []"
    using assms(1) lower_nameByte by (auto simp: plainName_def list_all_iff)
  with assms(2) show ?thesis
    by (cases n) (auto simp: takeName_def takeWhile_append2 dropWhile_append2)
qed

lemma plainName_local: "plainName n \<Longrightarrow> localName n = n"
proof -
  assume "plainName n"
  then have "CHR '':'' \<notin> set n" using lower_nameByte by (auto simp: plainName_def list_all_iff)
  then show "localName n = n" using Cut_byte_None_iff [of n "CHR '':''"] by (simp add: localName_def)
qed

lemma unescape_plain: "CHR ''&'' \<notin> set v \<Longrightarrow> unescape v = Some v"
  by (induction v) (auto simp: unescape.simps)

lemma skipSpace_other: "c \<notin> {CHR '' '', nl, tab, CHR 0x0D} \<Longrightarrow> skipSpace (c # t) = c # t"
  by (simp add: skipSpace_def)

lemma takeAttr_plain:
  assumes "plainName n" "plainValue v"
  shows "takeAttr (n @ ''='' @ sq v @ t) = Some ((n, v), t)"
proof -
  have v: "apos \<notin> set v" "CHR ''<'' \<notin> set v" "CHR ''&'' \<notin> set v"
    using assms(2) by (auto simp: plainValue_def list_all_iff)
  have "\<not> isNameByte (CHR ''='')" by (simp add: isNameByte_def isAlnum_def isDigit_def less_eq_char_def)
  from plainName_take [OF assms(1) this] v show ?thesis
    by (simp add: takeAttr_def sq_def skipSpace_other plainName_local [OF assms(1)] unescape_plain)
qed

lemma not_tagEnd:
  assumes "plainName n"
  shows "\<not> HasPrefix (n @ t) ''/>'' \<and> \<not> HasPrefix (n @ t) ''>'' \<and> skipSpace (n @ t) = n @ t"
proof (cases n)
  case Nil
  with assms show ?thesis by (simp add: plainName_def)
next
  case (Cons c u)
  with assms have "CHR ''a'' \<le> c" by (simp add: plainName_def)
  then have "c \<notin> {CHR ''/'', CHR ''>'', CHR '' '', nl, tab, CHR 0x0D}" by (auto simp: less_eq_char_def)
  with Cons show ?thesis by (auto simp: skipSpace_def)
qed

lemma takeAttrs_plain:
  assumes "\<forall>(n, v) \<in> set as. plainName n \<and> plainValue v"
  shows "takeAttrs (concat (map attrText as) @ ''>'' @ t) = Some (as, False, t)"
    "takeAttrs (concat (map attrText as) @ ''/>'' @ t) = Some (as, True, t)"
  using assms
proof (induction as)
  case Nil
  { case 1 show ?case by (simp add: takeAttrs.simps [of "CHR ''>'' # t"] skipSpace_other) }
  { case 2 show ?case by (simp add: takeAttrs.simps [of "CHR ''/'' # CHR ''>'' # t"] skipSpace_other) }
next
  case (Cons a as)
  obtain n v where a: "a = (n, v)" by (cases a)
  have step: "takeAttrs (attrText a @ r) = map_option (\<lambda>(as, c, t). (a # as, c, t)) (takeAttrs r)"
    if n: "plainName n" and v: "plainValue v" for r
  proof -
    have "skipSpace (attrText a @ r) = n @ ''='' @ sq v @ r"
      using not_tagEnd [OF n] by (simp add: a attrText_def skipSpace_def)
    moreover have "\<not> HasPrefix (n @ ''='' @ sq v @ r) ''/>''" "\<not> HasPrefix (n @ ''='' @ sq v @ r) ''>''"
      using not_tagEnd [OF n] by blast+
    ultimately show ?thesis
      using takeAttr_plain [OF n v, of r] by (subst takeAttrs.simps) (simp add: Let_def a)
  qed
  { case 1 then show ?case using Cons.IH(1) step by (simp add: a) }
  { case 2 then show ?case using Cons.IH(2) step by (simp add: a) }
qed

subsection \<open>The parser on tags\<close>

definition plainText :: "string \<Rightarrow> bool" where
  "plainText s \<longleftrightarrow> list_all (\<lambda>c. c \<notin> {CHR ''<'', CHR ''&''}) s"

lemma plainText_cut:
  assumes "plainText s"
  shows "Cut (s @ ''<'' @ r) ''<'' = Some (s, r)" "unescape s = Some s"
proof -
  have "CHR ''<'' \<notin> set s" "CHR ''&'' \<notin> set s" using assms by (auto simp: plainText_def list_all_iff)
  then show "Cut (s @ ''<'' @ r) ''<'' = Some (s, r)" "unescape s = Some s"
    by (simp_all add: unescape_plain)
qed

lemma tagName_start:
  assumes "plainName n"
  shows "\<not> HasPrefix (n @ t) ''!''" "\<not> HasPrefix (n @ t) ''?''" "\<not> HasPrefix (n @ t) ''/''"
  using assms by (cases n; auto simp: plainName_def less_eq_char_def)+

lemma attrs_start: "\<exists>c u. concat (map attrText as) @ ''>'' @ t = c # u \<and> \<not> isNameByte c"
  "\<exists>c u. concat (map attrText as) @ ''/>'' @ t = c # u \<and> \<not> isNameByte c"
  by (cases as; simp add: attrText_def isNameByte_def isAlnum_def isDigit_def less_eq_char_def)+

lemma tag_shapes:
  "txt @ openTag n as @ t = txt @ ''<'' @ n @ concat (map attrText as) @ ''>'' @ t"
  "txt @ emptyTag n as @ t = txt @ ''<'' @ n @ concat (map attrText as) @ ''/>'' @ t"
  "txt @ closeTag n @ t = txt @ ''<'' @ ''/'' @ n @ ''>'' @ t"
  by (simp_all add: openTag_def emptyTag_def closeTag_def)

lemma xmlLoop_open:
  assumes "plainText txt" "plainName n" "\<forall>(n, v) \<in> set as. plainName n \<and> plainValue v"
  shows "xmlLoop st (txt @ openTag n as @ t) = xmlLoop ((n, as, []) # st) t"
proof -
  obtain c u where c: "concat (map attrText as) @ ''>'' @ t = c # u" "\<not> isNameByte c" using attrs_start(1) by blast
  have name: "takeName (n @ concat (map attrText as) @ ''>'' @ t) = Some (n, concat (map attrText as) @ ''>'' @ t)"
    unfolding c(1) by (rule plainName_take [OF assms(2) c(2)])
  show ?thesis
    unfolding tag_shapes xmlLoop.simps [of st "txt @ ''<'' @ n @ concat (map attrText as) @ ''>'' @ t"]
    using plainText_cut [OF assms(1)] tagName_start [OF assms(2)] takeAttrs_plain(1) [OF assms(3), of t] name by simp
qed

lemma xmlLoop_empty:
  assumes "plainText txt" "plainName n" "\<forall>(n, v) \<in> set as. plainName n \<and> plainValue v"
  shows "xmlLoop (e # st) (txt @ emptyTag n as @ t) = xmlLoop (addChild (Elem n as []) (e # st)) t"
proof -
  obtain c u where c: "concat (map attrText as) @ ''/>'' @ t = c # u" "\<not> isNameByte c" using attrs_start(2) by blast
  have name: "takeName (n @ concat (map attrText as) @ ''/>'' @ t) = Some (n, concat (map attrText as) @ ''/>'' @ t)"
    unfolding c(1) by (rule plainName_take [OF assms(2) c(2)])
  show ?thesis
    unfolding tag_shapes xmlLoop.simps [of "e # st" "txt @ ''<'' @ n @ concat (map attrText as) @ ''/>'' @ t"]
    using plainText_cut [OF assms(1)] tagName_start [OF assms(2)] takeAttrs_plain(2) [OF assms(3), of t] name
      plainName_local [OF assms(2)] by simp
qed

lemma xmlLoop_close:
  assumes "plainText txt" "plainName n" "fst e = n"
  shows "xmlLoop (e # st) (txt @ closeTag n @ t) =
    (if st = [] then Some (closeElem e) else xmlLoop (addChild (closeElem e) st) t)"
proof -
  have "\<not> isNameByte (CHR ''>'')" by (simp add: isNameByte_def isAlnum_def isDigit_def less_eq_char_def)
  from plainName_take [OF assms(2) this] show ?thesis
    unfolding tag_shapes xmlLoop.simps [of "e # st" "txt @ ''<'' @ ''/'' @ n @ ''>'' @ t"]
    using plainText_cut [OF assms(1)] assms(3) by (simp add: skipSpace_other)
qed

subsection \<open>The devices as the program writes them\<close>

definition hostElem :: "string \<Rightarrow> xmlElem list \<Rightarrow> xmlElem" where
  "hostElem type cs =
     Elem ''hostdev'' [(''mode'', ''subsystem''), (''type'', type), (''managed'', ''yes'')] [Elem ''source'' [] cs]"

lemma plain_names:
  "plainName ''hostdev''" "plainName ''source''" "plainName ''vendor''" "plainName ''product''" "plainName ''address''"
  "plainName ''id''" "plainName ''mode''" "plainName ''type''" "plainName ''managed''" "plainName ''domain''" "plainName ''bus''"
  "plainName ''slot''" "plainName ''function''" "plainName ''devices''"
  by (simp_all add: plainName_def less_eq_char_def)

lemma plain_values: "plainValue ''subsystem''" "plainValue ''usb''" "plainValue ''pci''" "plainValue ''yes''"
  by (simp_all add: plainValue_def)

lemma plain_texts: "plainText []" "plainText [nl]" "plainText (nl # ''  '')" "plainText (nl # ''    '')"
  by (simp_all add: plainText_def)

lemma lower_hex_all: "\<forall>x. isHexDigit x \<longrightarrow> isLowerHex (toLowerChar x)"
proof (intro allI impI)
  fix x
  assume x: "isHexDigit x"
  have "(of_char (char_of (of_char x + 32 :: nat) :: char) :: nat) = of_char x + 32" if "of_char x \<le> (70::nat)"
    using that by simp
  with x show "isLowerHex (toLowerChar x)"
    by (auto simp: isHexDigit_def isLowerHex_def isDigit_def toLowerChar_def less_eq_char_def)
qed

lemma lower_hex: "list_all isHexDigit v \<Longrightarrow> list_all isLowerHex (ToLower v)"
  using lower_hex_all by (auto simp: ToLower_def list_all_iff)

lemma hex_plain: "list_all isHexDigit v \<Longrightarrow> plainValue (''0x'' @ ToLower v)"
proof -
  have "isLowerHex c \<Longrightarrow> c \<notin> {apos, CHR ''<'', CHR ''&''}" for c
    by (auto simp: isLowerHex_def isDigit_def less_eq_char_def)
  then show "list_all isHexDigit v \<Longrightarrow> plainValue (''0x'' @ ToLower v)"
    using lower_hex [of v] by (auto simp: plainValue_def list_all_iff)
qed

lemma digitVal_lower:
  "isLowerHex c \<Longrightarrow> digitVal c < 16"
  "isLowerHex c \<Longrightarrow> isLowerHex d \<Longrightarrow> digitVal c = digitVal d \<Longrightarrow> c = d"
proof -
  have c: "(isDigit c \<and> 48 \<le> (of_char c :: nat) \<and> of_char c \<le> (57 :: nat) \<and> digitVal c = of_char c - 48) \<or>
      (97 \<le> (of_char c :: nat) \<and> of_char c \<le> (102 :: nat) \<and> digitVal c = of_char c - 87)" if "isLowerHex c" for c
    using that by (auto simp: isLowerHex_def digitVal_def isDigit_def less_eq_char_def)
  show "isLowerHex c \<Longrightarrow> digitVal c < 16" using c [of c] by auto
  have inj: "x = y" if "(48 \<le> x \<and> x \<le> 57 \<and> v = x - 48) \<or> (97 \<le> x \<and> x \<le> 102 \<and> v = x - 87)"
    "(48 \<le> y \<and> y \<le> 57 \<and> v = y - 48) \<or> (97 \<le> y \<and> y \<le> 102 \<and> v = y - 87)" for x y v :: nat
    using that by arith
  assume "isLowerHex c" "isLowerHex d" "digitVal c = digitVal d"
  with c [of c] c [of d] inj [of "of_char c" "digitVal c" "of_char d"] have "(of_char c :: nat) = of_char d" by metis
  then show "c = d" by simp
qed

text \<open>Hexadecimal numbers of the same length are the same number only if they are the same digits.\<close>

lemma digitsValue_inj:
  "length s = length t \<Longrightarrow> list_all isLowerHex s \<Longrightarrow> list_all isLowerHex t \<Longrightarrow> digitsValue 16 s = digitsValue 16 t \<Longrightarrow> s = t"
proof (induction s arbitrary: t rule: rev_induct)
  case (snoc c s)
  then obtain t' d where t: "t = t' @ [d]" by (cases t rule: rev_exhaust) auto
  have lt: "digitVal c < 16" "digitVal d < 16" and hex: "isLowerHex c" "isLowerHex d"
    using snoc.prems digitVal_lower(1) by (auto simp: t)
  have eq: "digitsValue 16 s * 16 + digitVal c = digitsValue 16 t' * 16 + digitVal d"
    using snoc.prems(4) by (simp add: t digitsValue_snoc)
  have val: "x = y \<and> a = b" if "x * 16 + a = y * 16 + b" "a < 16" "b < 16" for x y a b :: nat
    using that by arith
  have "digitsValue 16 s = digitsValue 16 t'" "digitVal c = digitVal d" using val [OF eq lt] by simp_all
  moreover have "length s = length t'" "list_all isLowerHex s" "list_all isLowerHex t'"
    using snoc.prems(1-3) by (simp_all add: t)
  ultimately show ?case using snoc.IH [of t'] digitVal_lower(2) [OF hex] by (simp add: t)
qed simp

lemma digitsValue_bound: "list_all isLowerHex s \<Longrightarrow> digitsValue 16 s < 16 ^ length s"
proof (induction s rule: rev_induct)
  case (snoc c s)
  then have "digitVal c < 16" "digitsValue 16 s < 16 ^ length s" using digitVal_lower(1) by auto
  then show ?case by (simp add: digitsValue_snoc)
qed (simp add: digitsValue_def)

lemma parseHexU_digits:
  assumes "list_all isHexDigit d" "d \<noteq> []" "length d \<le> 4"
  shows "parseHexU d = digitsValue 16 (ToLower d)" "parseHexU (''0x'' @ ToLower d) = digitsValue 16 (ToLower d)"
proof -
  have low: "list_all isLowerHex (ToLower d)" by (rule lower_hex [OF assms(1)])
  have len: "length (ToLower d) = length d" by (simp add: ToLower_def)
  have "(16::nat) ^ length d \<le> 16 ^ 4" by (intro power_increasing assms(3)) simp
  with digitsValue_bound [OF low] len have "digitsValue 16 (ToLower d) \<le> maxUint64" by (simp add: maxUint64_def)
  moreover have "\<not> list_ex (\<lambda>c. 16 \<le> digitVal c) (ToLower d)"
    using low digitVal_lower(1) by (fastforce simp: list_ex_iff list_all_iff)
  ultimately have P: "ParseUint (ToLower d) 16 = digitsValue 16 (ToLower d)"
    using assms(2) len by (auto simp: ParseUint_def)
  have x: "\<not> isLowerHex (CHR ''x'')" by (simp add: isLowerHex_def isDigit_def less_eq_char_def)
  have noprefix: "\<not> HasPrefix (ToLower d) ''0x''"
  proof
    assume "HasPrefix (ToLower d) ''0x''"
    then have "CHR ''x'' \<in> set (ToLower d)" by (auto simp: prefix_def)
    with low x show False by (auto simp: list_all_iff)
  qed
  have sp: "\<not> isSpace c" if "isHexDigit c" for c
    using that by (auto simp: isSpace_def isHexDigit_def isLowerHex_def isDigit_def less_eq_char_def)
  have trim: "TrimSpace s = s" if "\<forall>c \<in> set s. \<not> isSpace c" for s
  proof -
    have drop: "\<forall>c \<in> set u. \<not> isSpace c \<Longrightarrow> dropWhile isSpace u = u" for u by (cases u) auto
    show ?thesis using that drop [of s] drop [of "rev s"]
      by (simp add: TrimSpace_def TrimFunc_def TrimRightFunc_def TrimLeftFunc_def)
  qed
  have lows: "isLowerHex c \<Longrightarrow> \<not> isSpace c \<and> toLowerChar c = c" for c
    using sp [of c] by (auto simp: isHexDigit_def toLowerChar_def isLowerHex_def isDigit_def less_eq_char_def)
  have low2: "ToLower (ToLower d) = ToLower d"
    using low lows by (simp add: ToLower_def list_all_iff map_idI)
  have "TrimSpace d = d" using assms(1) sp by (intro trim) (auto simp: list_all_iff)
  then show "parseHexU d = digitsValue 16 (ToLower d)"
    using P noprefix by (simp add: parseHexU_def TrimPrefix_def)
  have "TrimSpace (''0x'' @ ToLower d) = ''0x'' @ ToLower d"
    using low lows by (intro trim) (auto simp: list_all_iff isSpace_def)
  moreover have "ToLower (''0x'' @ ToLower d) = ''0x'' @ ToLower d"
    using low2 by (simp add: ToLower_def toLowerChar_def less_eq_char_def)
  ultimately show "parseHexU (''0x'' @ ToLower d) = digitsValue 16 (ToLower d)"
    using P by (simp add: parseHexU_def TrimPrefix_def)
qed

text \<open>The parts that the two kinds of devices share: the parser reads the source element's children \<open>cs\<close>.\<close>

lemma xmlLoop_hostdev:
  assumes "plainValue type"
    and cs: "\<And>st r. xmlLoop ((''source'', [], []) # st) (body @ r) = xmlLoop ((''source'', [], rev cs) # st) r"
  shows "xmlLoop (e # st) (''<hostdev mode='' @ sq ''subsystem'' @ '' type='' @ sq type @ '' managed='' @ sq ''yes'' @ ''>'' @ [nl] @
      ''  <source>'' @ body @ [nl] @ ''  </source>'' @ [nl] @ ''</hostdev>'' @ t) =
    xmlLoop (addChild (hostElem type cs) (e # st)) t"
proof -
  have doc: "''<hostdev mode='' @ sq ''subsystem'' @ '' type='' @ sq type @ '' managed='' @ sq ''yes'' @ ''>'' @ [nl] @
      ''  <source>'' @ body @ [nl] @ ''  </source>'' @ [nl] @ ''</hostdev>'' @ t =
    [] @ openTag ''hostdev'' [(''mode'', ''subsystem''), (''type'', type), (''managed'', ''yes'')] @
      (nl # ''  '') @ openTag ''source'' [] @ body @ (nl # ''  '') @ closeTag ''source'' @ [nl] @ closeTag ''hostdev'' @ t"
    by (simp add: openTag_def closeTag_def attrText_def)
  let ?as = "[(''mode'', ''subsystem''), (''type'', type), (''managed'', ''yes'')]"
  have attrs: "\<forall>(n, v) \<in> set ?as. plainName n \<and> plainValue v" "\<forall>(n, v) \<in> set []. plainName n \<and> plainValue v"
    using plain_names plain_values assms(1) by simp_all
  let ?r1 = "(nl # ''  '') @ closeTag ''source'' @ [nl] @ closeTag ''hostdev'' @ t"
  have "xmlLoop (e # st) ([] @ openTag ''hostdev'' ?as @ (nl # ''  '') @ openTag ''source'' [] @ body @ ?r1) =
      xmlLoop ((''hostdev'', ?as, []) # e # st) ((nl # ''  '') @ openTag ''source'' [] @ body @ ?r1)"
    by (rule xmlLoop_open [OF plain_texts(1) plain_names(1) attrs(1)])
  also have "\<dots> = xmlLoop ((''source'', [], []) # (''hostdev'', ?as, []) # e # st) (body @ ?r1)"
    by (rule xmlLoop_open [OF plain_texts(3) plain_names(2) attrs(2)])
  also have "\<dots> = xmlLoop ((''source'', [], rev cs) # (''hostdev'', ?as, []) # e # st) ?r1"
    by (rule cs)
  also have "\<dots> = xmlLoop (addChild (closeElem (''source'', [], rev cs)) ((''hostdev'', ?as, []) # e # st)) ([nl] @ closeTag ''hostdev'' @ t)"
    using xmlLoop_close [OF plain_texts(3) plain_names(2), of "(''source'', [], rev cs)" "(''hostdev'', ?as, []) # e # st"] by simp
  also have "addChild (closeElem (''source'', [], rev cs)) ((''hostdev'', ?as, []) # e # st) =
      (''hostdev'', ?as, [Elem ''source'' [] cs]) # e # st"
    using plainName_local [OF plain_names(2)] by (simp add: addChild_def closeElem_def)
  also have "xmlLoop \<dots> ([nl] @ closeTag ''hostdev'' @ t) = xmlLoop (addChild (closeElem (''hostdev'', ?as, [Elem ''source'' [] cs])) (e # st)) t"
    using xmlLoop_close [OF plain_texts(2) plain_names(1), of "(''hostdev'', ?as, [Elem ''source'' [] cs])" "e # st"] by simp
  finally show ?thesis
    unfolding doc using plainName_local [OF plain_names(1)] by (simp add: closeElem_def hostElem_def)
qed

definition usbElem :: "string \<Rightarrow> string \<Rightarrow> xmlElem" where
  "usbElem v p = hostElem ''usb'' [Elem ''vendor'' [(''id'', ''0x'' @ ToLower v)] [], Elem ''product'' [(''id'', ''0x'' @ ToLower p)] []]"

definition pciElem :: "string \<Rightarrow> string \<Rightarrow> string \<Rightarrow> string \<Rightarrow> xmlElem" where
  "pciElem d b s f = hostElem ''pci'' [Elem ''address''
     [(''domain'', ''0x'' @ ToLower d), (''bus'', ''0x'' @ ToLower b), (''slot'', ''0x'' @ ToLower s), (''function'', ''0x'' @ ToLower f)] []]"

lemma xmlLoop_usb:
  assumes "list_all isHexDigit v" "list_all isHexDigit p"
  shows "xmlLoop (e # st) (usb_HostdevXML v p @ t) = xmlLoop (addChild (usbElem v p) (e # st)) t"
proof -
  let ?v = "[(''id'', ''0x'' @ ToLower v)]" and ?p = "[(''id'', ''0x'' @ ToLower p)]"
  have attrs: "\<forall>(n, x) \<in> set ?v. plainName n \<and> plainValue x" "\<forall>(n, x) \<in> set ?p. plainName n \<and> plainValue x"
    using hex_plain assms plain_names by simp_all
  have body: "xmlLoop ((''source'', [], []) # st) (((nl # ''    '') @ emptyTag ''vendor'' ?v @ (nl # ''    '') @ emptyTag ''product'' ?p) @ r)
      = xmlLoop ((''source'', [], rev [Elem ''vendor'' ?v [], Elem ''product'' ?p []]) # st) r" for st r
    using xmlLoop_empty [OF plain_texts(4) plain_names(3) attrs(1), of "(''source'', [], [])" st]
      xmlLoop_empty [OF plain_texts(4) plain_names(4) attrs(2), of "(''source'', [], [Elem ''vendor'' ?v []])" st r]
    by (simp add: addChild_def)
  have doc: "usb_HostdevXML v p @ t = ''<hostdev mode='' @ sq ''subsystem'' @ '' type='' @ sq ''usb'' @ '' managed='' @ sq ''yes'' @ ''>'' @ [nl] @
      ''  <source>'' @ ((nl # ''    '') @ emptyTag ''vendor'' ?v @ (nl # ''    '') @ emptyTag ''product'' ?p) @ [nl] @
      ''  </source>'' @ [nl] @ ''</hostdev>'' @ t"
    by (simp add: usb_HostdevXML_def emptyTag_def attrText_def)
  show ?thesis unfolding doc usbElem_def by (rule xmlLoop_hostdev [OF plain_values(2) body])
qed

lemma xmlLoop_pci:
  assumes "pci_HostdevXML a = Inr x"
  shows "\<exists>d b s f. parsePCIAddr a = Some (parseHexU d, parseHexU b, parseHexU s, parseHexU f) \<and>
    a = d @ '':'' @ b @ '':'' @ s @ ''.'' @ f \<and>
    list_all (\<lambda>u. list_all isHexDigit u \<and> u \<noteq> [] \<and> length u \<le> 4) [d, b, s, f] \<and>
    (length d, length b, length s, length f) = (4, 2, 2, 1) \<and>
    (\<forall>e st t. xmlLoop (e # st) (x @ t) = xmlLoop (addChild (pciElem d b s f) (e # st)) t)"
proof -
  have "ValidAddress a" using assms by (simp add: pci_HostdevXML_def split: if_splits)
  then obtain d b s f where a: "a = d @ CHR '':'' # b @ CHR '':'' # s @ CHR ''.'' # f"
    and len: "length d = 4" "length b = 2" "length s = 2" "length f = 1"
    and hex: "list_all isHexDigit d" "list_all isHexDigit b" "list_all isHexDigit s" "CHR ''0'' \<le> hd f" "hd f \<le> CHR ''7''"
    unfolding ValidAddress_iff isHex_def by blast
  have f: "list_all isHexDigit f" using len(4) hex(4,5)
    by (cases f) (auto simp: isHexDigit_def isLowerHex_def isDigit_def less_eq_char_def)
  have "\<not> isHexDigit (CHR '':'')" "\<not> isHexDigit (CHR ''.'')"
    by (simp_all add: isHexDigit_def isLowerHex_def isDigit_def less_eq_char_def)
  then have cuts: "CHR '':'' \<notin> set d" "CHR '':'' \<notin> set b" "CHR ''.'' \<notin> set s"
    using hex by (auto simp: list_all_iff)
  let ?as = "[(''domain'', ''0x'' @ ToLower d), (''bus'', ''0x'' @ ToLower b), (''slot'', ''0x'' @ ToLower s), (''function'', ''0x'' @ ToLower f)]"
  have attrs: "\<forall>(n, y) \<in> set ?as. plainName n \<and> plainValue y"
    using hex_plain hex f plain_names by simp
  have body: "xmlLoop ((''source'', [], []) # st) (((nl # ''    '') @ emptyTag ''address'' ?as) @ r)
      = xmlLoop ((''source'', [], rev [Elem ''address'' ?as []]) # st) r" for st r
    using xmlLoop_empty [OF plain_texts(4) plain_names(5) attrs, of "(''source'', [], [])" st r] by (simp add: addChild_def)
  have doc: "x @ t = ''<hostdev mode='' @ sq ''subsystem'' @ '' type='' @ sq ''pci'' @ '' managed='' @ sq ''yes'' @ ''>'' @ [nl] @
      ''  <source>'' @ ((nl # ''    '') @ emptyTag ''address'' ?as) @ [nl] @ ''  </source>'' @ [nl] @ ''</hostdev>'' @ t" for t
    using assms \<open>ValidAddress a\<close> cuts by (simp add: a pci_HostdevXML_def emptyTag_def attrText_def)
  have "xmlLoop (e # st) (x @ t) = xmlLoop (addChild (pciElem d b s f) (e # st)) t" for e st t
    unfolding doc pciElem_def by (rule xmlLoop_hostdev [OF plain_values(3) body])
  moreover have "parsePCIAddr a = Some (parseHexU d, parseHexU b, parseHexU s, parseHexU f)"
    using cuts by (simp add: a parsePCIAddr_def)
  moreover have "d \<noteq> []" "b \<noteq> []" "s \<noteq> []" "f \<noteq> []" using len by auto
  ultimately show ?thesis using a len hex f by (intro exI [of _ d] exI [of _ b] exI [of _ s] exI [of _ f]) simp
qed

subsection \<open>A document with several devices\<close>

definition reads :: "string \<Rightarrow> xmlElem \<Rightarrow> bool" where
  "reads x el \<longleftrightarrow> (\<forall>e st t. xmlLoop (e # st) (x @ t) = xmlLoop (addChild el (e # st)) t)"

definition deviceXML :: "(string \<times> string) + string \<Rightarrow> string" where
  "deviceXML d =
     (case d of
        Inl (v, p) \<Rightarrow> usb_HostdevXML v p
      | Inr a \<Rightarrow> (case pci_HostdevXML a of Inl _ \<Rightarrow> [] | Inr x \<Rightarrow> x))"

definition deviceOk :: "(string \<times> string) + string \<Rightarrow> bool" where
  "deviceOk d \<longleftrightarrow> (case d of Inl (v, p) \<Rightarrow> validHexID v \<and> validHexID p | Inr a \<Rightarrow> ValidAddress a)"

definition domainWith :: "((string \<times> string) + string) list \<Rightarrow> string" where
  "domainWith ds = ''<domain><devices>'' @ concat (map deviceXML ds) @ ''</devices></domain>''"

lemma reads_list:
  "list_all2 reads xs els \<Longrightarrow> xmlLoop ((n, as, cs) # st) (concat xs @ t) = xmlLoop ((n, as, rev els @ cs) # st) t"
proof (induction xs els arbitrary: cs rule: list_all2_induct)
  case (Cons x xs el els)
  then show ?case by (simp add: reads_def addChild_def)
qed simp

lemma parse_domain:
  assumes "list_all2 reads xs els"
  shows "parseXML (''<domain><devices>'' @ concat xs @ ''</devices></domain>'') = Some (Elem ''domain'' [] [Elem ''devices'' [] els])"
proof -
  have none: "\<forall>(n, v) \<in> set []. plainName n \<and> plainValue v" by simp
  note nm = plain_names(10) plain_names(14)
  have "parseXML (''<domain><devices>'' @ concat xs @ ''</devices></domain>'') =
      xmlLoop [] ([] @ openTag ''domain'' [] @ [] @ openTag ''devices'' [] @ concat xs @ [] @ closeTag ''devices'' @ [] @ closeTag ''domain'' @ [])"
    by (simp add: parseXML_def openTag_def closeTag_def)
  also have "\<dots> = xmlLoop [(''domain'', [], [])] ([] @ openTag ''devices'' [] @ concat xs @ [] @ closeTag ''devices'' @ [] @ closeTag ''domain'' @ [])"
    by (rule xmlLoop_open [OF plain_texts(1) nm(1) none])
  also have "\<dots> = xmlLoop [(''devices'', [], []), (''domain'', [], [])] (concat xs @ [] @ closeTag ''devices'' @ [] @ closeTag ''domain'' @ [])"
    by (rule xmlLoop_open [OF plain_texts(1) nm(2) none])
  also have "\<dots> = xmlLoop [(''devices'', [], rev els @ []), (''domain'', [], [])] ([] @ closeTag ''devices'' @ [] @ closeTag ''domain'' @ [])"
    by (rule reads_list [OF assms])
  also have "\<dots> = xmlLoop (addChild (closeElem (''devices'', [], rev els)) [(''domain'', [], [])]) ([] @ closeTag ''domain'' @ [])"
    using xmlLoop_close [OF plain_texts(1) nm(2), of "(''devices'', [], rev els)" "[(''domain'', [], [])]" "[] @ closeTag ''domain'' @ []"] by simp
  also have "addChild (closeElem (''devices'', [], rev els)) [(''domain'', [], [])] = [(''domain'', [], [Elem ''devices'' [] els])]"
    using plainName_local [OF nm(2)] by (simp add: addChild_def closeElem_def)
  also have "xmlLoop \<dots> ([] @ closeTag ''domain'' @ []) = Some (Elem ''domain'' [] [Elem ''devices'' [] els])"
    using xmlLoop_close [OF plain_texts(1) nm(1), of "(''domain'', [], [Elem ''devices'' [] els])" "[]" "[]"] plainName_local [OF nm(1)]
    by (simp add: closeElem_def)
  finally show ?thesis .
qed

text \<open>What the program finds in the element of a device.\<close>

definition pciParts :: "string \<Rightarrow> string \<times> string \<times> string \<times> string" where
  "pciParts a = (let (d, r) = the (Cut a '':''); (b, r) = the (Cut r '':''); (s, f) = the (Cut r ''.'') in (d, b, s, f))"

definition deviceElem :: "(string \<times> string) + string \<Rightarrow> xmlElem" where
  "deviceElem d =
     (case d of Inl (v, p) \<Rightarrow> usbElem v p | Inr a \<Rightarrow> (case pciParts a of (d, b, s, f) \<Rightarrow> pciElem d b s f))"

lemma hostdevs_list:
  "hostdevs type (Elem ''domain'' [] [Elem ''devices'' [] (map deviceElem ds)]) =
     filter (\<lambda>h. xattr [] ''type'' h = type) (map deviceElem ds)"
proof -
  have "filter (case_xmlElem (\<lambda>m _ _. m = ''hostdev'')) (map deviceElem ds) = map deviceElem ds"
    by (rule filter_True) (auto simp: deviceElem_def usbElem_def pciElem_def hostElem_def split: sum.split prod.split)
  moreover have "concat (map (xpath [] \<circ> deviceElem) ds) = map deviceElem ds" by (induction ds) simp_all
  ultimately show ?thesis by (simp add: hostdevs_def xchildren_def)
qed

lemma elem_attrs:
  "xattr [] ''type'' (usbElem v p) = ''usb''" "xattr [] ''type'' (pciElem d b s f) = ''pci''"
  "xattr [''source'', ''vendor''] ''id'' (usbElem v p) = ''0x'' @ ToLower v"
  "xattr [''source'', ''product''] ''id'' (usbElem v p) = ''0x'' @ ToLower p"
  "hostdevAddr (pciElem d b s f) =
     (parseHexU (''0x'' @ ToLower d), parseHexU (''0x'' @ ToLower b), parseHexU (''0x'' @ ToLower s), parseHexU (''0x'' @ ToLower f))"
  by (simp_all add: xattr_def xattrs_def xchildren_def usbElem_def pciElem_def hostElem_def hostdevAddr_def)

lemma ToLower_idem: "ToLower (ToLower s) = ToLower s"
proof -
  have "toLowerChar (toLowerChar c) = toLowerChar c" for c
    by (auto simp: toLowerChar_def less_eq_char_def)
  then show ?thesis by (simp add: ToLower_def)
qed

lemma validHexID_hex: "validHexID v \<Longrightarrow> list_all isHexDigit v"
  by (simp add: validHexID_def split: if_splits)

lemma pci_parts:
  assumes "ValidAddress a"
  obtains d b s f where "pciParts a = (d, b, s, f)" "a = d @ '':'' @ b @ '':'' @ s @ ''.'' @ f"
    "parsePCIAddr a = Some (parseHexU d, parseHexU b, parseHexU s, parseHexU f)"
    "list_all (\<lambda>u. list_all isHexDigit u \<and> u \<noteq> [] \<and> length u \<le> 4) [d, b, s, f]"
    "(length d, length b, length s, length f) = (4, 2, 2, 1)" "reads (deviceXML (Inr a)) (pciElem d b s f)"
proof -
  obtain x where x: "pci_HostdevXML a = Inr x" using pci_HostdevXML_ok_iff [of a] assms by (auto simp: is_ok_iff)
  from xmlLoop_pci [OF x] obtain d b s f where
    *: "parsePCIAddr a = Some (parseHexU d, parseHexU b, parseHexU s, parseHexU f)" "a = d @ '':'' @ b @ '':'' @ s @ ''.'' @ f"
    "list_all (\<lambda>u. list_all isHexDigit u \<and> u \<noteq> [] \<and> length u \<le> 4) [d, b, s, f]"
    "(length d, length b, length s, length f) = (4, 2, 2, 1)"
    "\<forall>e st t. xmlLoop (e # st) (x @ t) = xmlLoop (addChild (pciElem d b s f) (e # st)) t"
    by blast
  have "\<not> isHexDigit (CHR '':'')" "\<not> isHexDigit (CHR ''.'')"
    by (simp_all add: isHexDigit_def isLowerHex_def isDigit_def less_eq_char_def)
  then have "CHR '':'' \<notin> set d" "CHR '':'' \<notin> set b" "CHR ''.'' \<notin> set s"
    using *(3) by (auto simp: list_all_iff)
  then have "pciParts a = (d, b, s, f)" by (simp add: *(2) pciParts_def)
  moreover have "reads (deviceXML (Inr a)) (pciElem d b s f)" using *(5) x by (simp add: reads_def deviceXML_def)
  ultimately show ?thesis using that * by blast
qed

lemma device_reads: "deviceOk d \<Longrightarrow> reads (deviceXML d) (deviceElem d)"
proof (cases d)
  case (Inl vp)
  then show "deviceOk d \<Longrightarrow> reads (deviceXML d) (deviceElem d)"
    using xmlLoop_usb validHexID_hex by (cases vp) (auto simp: reads_def deviceOk_def deviceXML_def deviceElem_def)
next
  case (Inr a)
  assume "deviceOk d"
  with Inr have "ValidAddress a" by (simp add: deviceOk_def)
  then show "reads (deviceXML d) (deviceElem d)"
    by (rule pci_parts) (simp add: Inr deviceElem_def)
qed

lemma parse_domainWith:
  assumes "list_all deviceOk ds"
  shows "parseXML (domainWith ds) = Some (Elem ''domain'' [] [Elem ''devices'' [] (map deviceElem ds)])"
proof -
  have "list_all2 reads (map deviceXML ds) (map deviceElem ds)"
    using assms device_reads by (auto simp: list_all2_conv_all_nth list_all_length)
  then show ?thesis unfolding domainWith_def by (rule parse_domain)
qed

text \<open>Two addresses are the same place exactly when they are the same up to case.\<close>

lemma hexU_eq:
  assumes "list_all isHexDigit u" "u \<noteq> []" "length u \<le> 4" "list_all isHexDigit v" "length v = length u"
  shows "(parseHexU u = parseHexU (''0x'' @ ToLower v)) = EqualFold u v"
proof -
  have v: "v \<noteq> []" "length v \<le> 4" using assms by auto
  have len: "length (ToLower v) = length (ToLower u)" using assms(5) by (simp add: ToLower_def)
  have "digitsValue 16 (ToLower v) = digitsValue 16 (ToLower u) \<longleftrightarrow> ToLower v = ToLower u"
    using digitsValue_inj [OF len lower_hex [OF assms(4)] lower_hex [OF assms(1)]] by metis
  then show ?thesis
    unfolding parseHexU_digits(1) [OF assms(1-3)] parseHexU_digits(2) [OF assms(4) v] EqualFold_def by metis
qed

lemma pci_match:
  assumes "ValidAddress a" "ValidAddress a'"
  shows "parsePCIAddr a = Some (hostdevAddr (deviceElem (Inr a'))) \<longleftrightarrow> EqualFold a a'"
proof -
  from assms(1) obtain d b s f where a: "a = d @ '':'' @ b @ '':'' @ s @ ''.'' @ f"
    "parsePCIAddr a = Some (parseHexU d, parseHexU b, parseHexU s, parseHexU f)"
    "list_all (\<lambda>u. list_all isHexDigit u \<and> u \<noteq> [] \<and> length u \<le> 4) [d, b, s, f]"
    "(length d, length b, length s, length f) = (4, 2, 2, 1)" by (rule pci_parts) blast
  from assms(2) obtain d' b' s' f' where a': "pciParts a' = (d', b', s', f')" "a' = d' @ '':'' @ b' @ '':'' @ s' @ ''.'' @ f'"
    "list_all (\<lambda>u. list_all isHexDigit u \<and> u \<noteq> [] \<and> length u \<le> 4) [d', b', s', f']"
    "(length d', length b', length s', length f') = (4, 2, 2, 1)" by (rule pci_parts) blast
  have u: "(parseHexU d = parseHexU (''0x'' @ ToLower d')) = EqualFold d d'"
    "(parseHexU b = parseHexU (''0x'' @ ToLower b')) = EqualFold b b'"
    "(parseHexU s = parseHexU (''0x'' @ ToLower s')) = EqualFold s s'"
    "(parseHexU f = parseHexU (''0x'' @ ToLower f')) = EqualFold f f'"
    by (rule hexU_eq; use a(3,4) a'(3,4) in simp)+
  have e: "deviceElem (Inr a') = pciElem d' b' s' f'" by (simp add: deviceElem_def a'(1))
  have "parsePCIAddr a = Some (hostdevAddr (deviceElem (Inr a'))) \<longleftrightarrow>
      EqualFold d d' \<and> EqualFold b b' \<and> EqualFold s s' \<and> EqualFold f f'"
    unfolding a(2) e elem_attrs option.inject prod.inject u ..
  also have "\<dots> \<longleftrightarrow> EqualFold a a'"
    using a(4) a'(4) by (auto simp: a(1) a'(2) EqualFold_def ToLower_def)
  finally show ?thesis .
qed

lemma hostdevs_match:
  assumes "list_all deviceOk ds"
  shows "hasUSBHostdev (domainWith ds) v p \<longleftrightarrow> (\<exists>v' p'. Inl (v', p') \<in> set ds \<and> EqualFold v v' \<and> EqualFold p p')"
    "ValidAddress a \<Longrightarrow> hasPCIHostdev (domainWith ds) a \<longleftrightarrow> (\<exists>a'. Inr a' \<in> set ds \<and> EqualFold a a')"
proof -
  have usb: "hasUSBHostdev (domainWith ds) v p \<longleftrightarrow> (\<exists>d \<in> set ds. xattr [] ''type'' (deviceElem d) = ''usb'' \<and>
      ToLower (xattr [''source'', ''vendor''] ''id'' (deviceElem d)) = ''0x'' @ ToLower v \<and>
      ToLower (xattr [''source'', ''product''] ''id'' (deviceElem d)) = ''0x'' @ ToLower p)"
    by (auto simp: hasUSBHostdev_def parse_domainWith [OF assms] hostdevs_list list_ex_iff)
  have low: "ToLower (CHR ''0'' # CHR ''x'' # s) = CHR ''0'' # CHR ''x'' # ToLower s" for s by (simp add: ToLower_def toLowerChar_def less_eq_char_def)
  show "hasUSBHostdev (domainWith ds) v p \<longleftrightarrow> (\<exists>v' p'. Inl (v', p') \<in> set ds \<and> EqualFold v v' \<and> EqualFold p p')"
    unfolding usb
  proof (intro iffI; elim bexE exE conjE)
    fix d
    assume "d \<in> set ds" "xattr [] ''type'' (deviceElem d) = ''usb''"
      "ToLower (xattr [''source'', ''vendor''] ''id'' (deviceElem d)) = ''0x'' @ ToLower v"
      "ToLower (xattr [''source'', ''product''] ''id'' (deviceElem d)) = ''0x'' @ ToLower p"
    then show "\<exists>v' p'. Inl (v', p') \<in> set ds \<and> EqualFold v v' \<and> EqualFold p p'"
      by - (cases d, auto simp: deviceElem_def elem_attrs low ToLower_idem EqualFold_def split: prod.splits, metis)
  next
    fix v' p'
    assume "Inl (v', p') \<in> set ds" "EqualFold v v'" "EqualFold p p'"
    then show "\<exists>d \<in> set ds. xattr [] ''type'' (deviceElem d) = ''usb'' \<and>
      ToLower (xattr [''source'', ''vendor''] ''id'' (deviceElem d)) = ''0x'' @ ToLower v \<and>
      ToLower (xattr [''source'', ''product''] ''id'' (deviceElem d)) = ''0x'' @ ToLower p"
      by (intro bexI [of _ "Inl (v', p')"]) (simp_all add: deviceElem_def elem_attrs low ToLower_idem EqualFold_def)
  qed
  assume a: "ValidAddress a"
  from a obtain n where n: "parsePCIAddr a = Some n" by (rule pci_parts) blast
  have "hasPCIHostdev (domainWith ds) a \<longleftrightarrow> (\<exists>d \<in> set ds. xattr [] ''type'' (deviceElem d) = ''pci'' \<and> hostdevAddr (deviceElem d) = n)"
    by (auto simp: hasPCIHostdev_def n parse_domainWith [OF assms] hostdevs_list list_ex_iff)
  also have "\<dots> \<longleftrightarrow> (\<exists>a'. Inr a' \<in> set ds \<and> hostdevAddr (deviceElem (Inr a')) = n)"
  proof -
    have "xattr [] ''type'' (deviceElem d) = ''pci'' \<longleftrightarrow> (\<exists>a'. d = Inr a')" for d
      by (cases d) (auto simp: deviceElem_def elem_attrs split: prod.splits)
    then show ?thesis by (simp only:) blast
  qed
  also have "\<dots> \<longleftrightarrow> (\<exists>a'. Inr a' \<in> set ds \<and> EqualFold a a')"
  proof -
    have "hostdevAddr (deviceElem (Inr a')) = n \<longleftrightarrow> EqualFold a a'" if "Inr a' \<in> set ds" for a'
      using pci_match [OF a, of a'] that assms n by (auto simp: list_all_iff deviceOk_def)
    then show ?thesis by blast
  qed
  finally show "hasPCIHostdev (domainWith ds) a \<longleftrightarrow> (\<exists>a'. Inr a' \<in> set ds \<and> EqualFold a a')" .
qed

text \<open>
  C18: the reconcilers recognise the devices that the program attaches, and no others. In a domain with any
  devices that were attached as the program writes them, a USB device counts as present exactly when one with
  its vendor and product number is there, and a PCI device exactly when one with its address is,
  whatever the case of the digits and whatever comes before it. So a pinned device that is there is not
  attached a second time, and one that was lost is noticed.
\<close>

theorem hostdevs_found:
  assumes "list_all deviceOk ds" "ValidAddress a"
  shows "(hasUSBHostdev (domainWith ds) v p \<longleftrightarrow> (\<exists>v' p'. Inl (v', p') \<in> set ds \<and> EqualFold v v' \<and> EqualFold p p')) \<and>
    (hasPCIHostdev (domainWith ds) a \<longleftrightarrow> (\<exists>a'. Inr a' \<in> set ds \<and> EqualFold a a'))"
  using hostdevs_match [OF assms(1)] assms(2) by blast

definition demoDevices :: "((string \<times> string) + string) list" where
  "demoDevices = [Inl (''046d'', ''c52b''), Inr ''0000:02:00.0'']"

theorem hostdevs_found_witness:
  "hasUSBHostdev (domainWith demoDevices) ''046D'' ''c52b'' \<and> \<not> hasUSBHostdev (domainWith demoDevices) ''046d'' ''0000'' \<and>
   hasPCIHostdev (domainWith demoDevices) ''0000:02:00.0''"
proof -
  have "list_all deviceOk demoDevices" "ValidAddress ''0000:02:00.0''" "EqualFold ''046D'' ''046d''" "\<not> EqualFold ''0000'' ''c52b''"
    by code_simp+
  then show ?thesis
    using hostdevs_found [of demoDevices "''0000:02:00.0''" "''046D''" "''c52b''"]
      hostdevs_found [of demoDevices "''0000:02:00.0''" "''046d''" "''0000''"]
    by (auto simp: demoDevices_def EqualFold_def)
qed

end
