(* ===== verification/DeviceRounds.thy ===== *)
theory DeviceRounds
  imports HostdevProps ReconcileProps
begin

section \<open>The device reconcilers\<close>

text \<open>
  What a round of the USB and the PCI reconciler makes of the domains: the devices a domain has
  afterwards are those it had and those pinned to it. \<open>hotplug\<close> is what the code relies on of
  \<open>virsh\<close>: \<open>doc\<close> reads the inactive documents off the state of the host, and \<open>attach-device --config\<close> adds
  the device of the file it is given to the document of an existing domain that does not have it yet.
\<close>

type_synonym device = "(string \<times> string) + string"

definition hasDevice :: "string \<Rightarrow> device \<Rightarrow> bool" where
  "hasDevice x e = (case e of Inl (v, p) \<Rightarrow> hasUSBHostdev x v p | Inr a \<Rightarrow> hasPCIHostdev x a)"

definition sameDevice :: "device \<Rightarrow> device \<Rightarrow> bool" where
  "sameDevice e f =
     (case (e, f) of
        (Inl (v, p), Inl (v', p')) \<Rightarrow> EqualFold v v' \<and> EqualFold p p'
      | (Inr a, Inr a') \<Rightarrow> EqualFold a a'
      | _ \<Rightarrow> False)"

definition hotplug :: "'h env \<Rightarrow> Client \<Rightarrow> ('h \<Rightarrow> string \<Rightarrow> string option) \<Rightarrow> bool" where
  "hotplug env c doc \<longleftrightarrow>
     (\<forall>fs h d x. doc h d = Some x \<longrightarrow>
        (\<exists>st. exec env (Bin c) [''domstate'', d] fs h = (ExecOK st, h)) \<and>
        exec env (Bin c) [''dumpxml'', ''--inactive'', d] fs h = (ExecOK x, h)) \<and>
     (\<forall>fs h d. doc h d = None \<longrightarrow> (\<exists>out err ex. exec env (Bin c) [''domstate'', d] fs h = (ExecFail out err ex, h))) \<and>
     (\<forall>fs h d x t f. doc h d = Some x \<and> fs t = Some (Text (deviceXML f)) \<and> deviceOk f \<and> \<not> hasDevice x f \<longrightarrow>
        (\<exists>out h' y. exec env (Bin c) [''attach-device'', d, t, ''--config''] fs h = (ExecOK out, h') \<and>
           doc h' = (doc h)(d \<mapsto> y) \<and> (\<forall>e. deviceOk e \<longrightarrow> hasDevice y e = (hasDevice x e \<or> sameDevice e f))))"

text \<open>One pin of either kind.\<close>

definition attachMissing :: "'h env \<Rightarrow> Client \<Rightarrow> string \<Rightarrow> device \<Rightarrow> (unit, 'h world) act" where
  "attachMissing env c d f =
     bindAct (virsh_State env c d) (\<lambda>_.
     bindAct (case f of Inl (v, p) \<Rightarrow> virsh_HasUSBHostdev env c d v p | Inr a \<Rightarrow> virsh_HasPCIHostdev env c d a) (\<lambda>has.
       if has then retAct () else virsh_AttachDeviceConfig env c d (deviceXML f)))"

lemma reconcile_attaches:
  "usb_reconcile1 (usb_controller env c) p = attachMissing env c (upVM p) (Inl (upVendorID p, upProductID p))"
  "ValidAddress (ppAddress q) \<Longrightarrow>
     pci_reconcile1 (pci_controller env c) q = attachMissing env c (ppVM q) (Inr (ppAddress q))"
  using pci_HostdevXML_ok_iff [of "ppAddress q"]
  by (auto simp: usb_reconcile1_def usb_controller_def pci_reconcile1_def pci_controller_def attachMissing_def
      deviceXML_def is_ok_iff cong: if_cong)

lemma sameDevice_refl: "sameDevice e e"
  by (auto simp: sameDevice_def EqualFold_def split: sum.split)

lemma EqualFold_parts:
  assumes "length a = length a'"
  shows "EqualFold (a @ b) (a' @ b') \<longleftrightarrow> EqualFold a a' \<and> EqualFold b b'"
  using assms by (auto simp: EqualFold_def ToLower_def)

lemma EqualFold_sep: "EqualFold (c # b) (c # b') \<longleftrightarrow> EqualFold b b'"
  by (simp add: EqualFold_def ToLower_def)

lemma same_parsePCIAddr:
  assumes "ValidAddress a" "ValidAddress a'" "EqualFold a a'"
  shows "parsePCIAddr a = parsePCIAddr a'"
proof -
  from assms(1) obtain d b s f where a: "a = d @ '':'' @ b @ '':'' @ s @ ''.'' @ f"
    "parsePCIAddr a = Some (parseHexU d, parseHexU b, parseHexU s, parseHexU f)"
    "list_all (\<lambda>u. list_all isHexDigit u \<and> u \<noteq> [] \<and> length u \<le> 4) [d, b, s, f]"
    "(length d, length b, length s, length f) = (4, 2, 2, 1)" by (rule pci_parts) blast
  from assms(2) obtain d' b' s' f' where a': "a' = d' @ '':'' @ b' @ '':'' @ s' @ ''.'' @ f'"
    "parsePCIAddr a' = Some (parseHexU d', parseHexU b', parseHexU s', parseHexU f')"
    "list_all (\<lambda>u. list_all isHexDigit u \<and> u \<noteq> [] \<and> length u \<le> 4) [d', b', s', f']"
    "(length d', length b', length s', length f') = (4, 2, 2, 1)" by (rule pci_parts) blast
  have "EqualFold d d'" "EqualFold b b'" "EqualFold s s'" "EqualFold f f'"
    using assms(3) a(4) a'(4) by (auto simp: a(1) a'(1) EqualFold_parts EqualFold_sep)
  with a(3) a'(3) have "parseHexU d = parseHexU d'" "parseHexU b = parseHexU b'" "parseHexU s = parseHexU s'"
    "parseHexU f = parseHexU f'"
    by (simp_all add: parseHexU_digits(1) EqualFold_def)
  then show ?thesis by (simp add: a(2) a'(2))
qed

lemma hasDevice_same:
  assumes "deviceOk e" "deviceOk f" "sameDevice e f"
  shows "hasDevice x e = hasDevice x f"
proof -
  have usb: "hasUSBHostdev x v p = hasUSBHostdev x v' p'" if "EqualFold v v'" "EqualFold p p'" for v p v' p'
    using that by (simp add: hasUSBHostdev_def EqualFold_def split: option.split)
  have pci: "hasPCIHostdev x a = hasPCIHostdev x a'" if "ValidAddress a" "ValidAddress a'" "EqualFold a a'" for a a'
    using same_parsePCIAddr [OF that] by (simp add: hasPCIHostdev_def)
  show ?thesis
  proof (cases e)
    case (Inl vp)
    with assms(3) show ?thesis
      using usb by (cases vp) (auto simp: sameDevice_def hasDevice_def split: sum.splits prod.splits)
  next
    case (Inr a)
    with assms pci show ?thesis by (auto simp: sameDevice_def hasDevice_def deviceOk_def split: sum.splits)
  qed
qed

subsection \<open>One pin\<close>

text \<open>The documents \<open>D'\<close> are \<open>D\<close> with what the pins \<open>ps\<close> were missing: nothing else is different.\<close>

definition gains :: "(string \<times> device) list \<Rightarrow> (string \<Rightarrow> string option) \<Rightarrow> (string \<Rightarrow> string option) \<Rightarrow> bool" where
  "gains ps D D' \<longleftrightarrow>
     (\<forall>d. case D d of
        None \<Rightarrow> D' d = None
      | Some x \<Rightarrow> \<exists>y. D' d = Some y \<and>
          (\<forall>e. deviceOk e \<longrightarrow> hasDevice y e = (hasDevice x e \<or> (\<exists>f. (d, f) \<in> set ps \<and> sameDevice e f))) \<and>
          ((\<forall>f. (d, f) \<in> set ps \<longrightarrow> hasDevice x f) \<longrightarrow> y = x))"

lemma gains_noneD: "gains ps D D' \<Longrightarrow> D d = None \<Longrightarrow> D' d = None"
  unfolding gains_def by (erule allE [of _ d]) simp

lemma gains_someE:
  assumes "gains ps D D'" "D d = Some x"
  obtains y where "D' d = Some y"
    "\<And>e. deviceOk e \<Longrightarrow> hasDevice y e = (hasDevice x e \<or> (\<exists>f. (d, f) \<in> set ps \<and> sameDevice e f))"
    "(\<And>f. (d, f) \<in> set ps \<Longrightarrow> hasDevice x f) \<Longrightarrow> y = x"
  using assms unfolding gains_def by (elim allE [of _ d]) auto

lemma gains_none: "gains [] D D"
  by (auto simp: gains_def split: option.split)

lemma gains_present:
  assumes "\<And>x. D d = Some x \<Longrightarrow> hasDevice x f" "deviceOk f"
  shows "gains [(d, f)] D D"
  using assms hasDevice_same by (fastforce simp: gains_def split: option.split)

lemma gains_attached:
  assumes "D d = Some x" "\<not> hasDevice x f"
    and "\<And>e. deviceOk e \<Longrightarrow> hasDevice y e = (hasDevice x e \<or> sameDevice e f)"
  shows "gains [(d, f)] D (D(d \<mapsto> y))"
  using assms by (auto simp: gains_def split: option.split)

lemma gains_append:
  assumes "gains ps D D1" "gains qs D1 D2"
  shows "gains (ps @ qs) D D2"
  unfolding gains_def
proof
  fix d
  show "case D d of
        None \<Rightarrow> D2 d = None
      | Some x \<Rightarrow> \<exists>y. D2 d = Some y \<and>
          (\<forall>e. deviceOk e \<longrightarrow> hasDevice y e = (hasDevice x e \<or> (\<exists>f. (d, f) \<in> set (ps @ qs) \<and> sameDevice e f))) \<and>
          ((\<forall>f. (d, f) \<in> set (ps @ qs) \<longrightarrow> hasDevice x f) \<longrightarrow> y = x)"
  proof (cases "D d")
    case None
    with gains_noneD [OF assms(2) gains_noneD [OF assms(1)]] show ?thesis by simp
  next
    case (Some x)
    from assms(1) Some obtain y where y: "D1 d = Some y"
      "\<And>e. deviceOk e \<Longrightarrow> hasDevice y e = (hasDevice x e \<or> (\<exists>f. (d, f) \<in> set ps \<and> sameDevice e f))"
      "(\<And>f. (d, f) \<in> set ps \<Longrightarrow> hasDevice x f) \<Longrightarrow> y = x" by (rule gains_someE) blast
    from assms(2) y(1) obtain z where z: "D2 d = Some z"
      "\<And>e. deviceOk e \<Longrightarrow> hasDevice z e = (hasDevice y e \<or> (\<exists>f. (d, f) \<in> set qs \<and> sameDevice e f))"
      "(\<And>f. (d, f) \<in> set qs \<Longrightarrow> hasDevice y f) \<Longrightarrow> z = y" by (rule gains_someE) blast
    have "hasDevice z e = (hasDevice x e \<or> (\<exists>f. (d, f) \<in> set (ps @ qs) \<and> sameDevice e f))" if "deviceOk e" for e
      using y(2) [OF that] z(2) [OF that] by auto
    moreover have "z = x" if "\<forall>f. (d, f) \<in> set (ps @ qs) \<longrightarrow> hasDevice x f" using that y(3) z(3) by auto
    ultimately show ?thesis using Some z(1) by simp
  qed
qed

lemma hotplug_calls:
  assumes hp: "hotplug env c doc" and dom: "doc (hyp w) d = Some x"
  shows "\<exists>st w'. virsh_State env c d w = (Inr st, w') \<and> files w' = files w \<and> hyp w' = hyp w"
    "\<exists>w'. (case f of Inl (v, p) \<Rightarrow> virsh_HasUSBHostdev env c d v p | Inr a \<Rightarrow> virsh_HasPCIHostdev env c d a) w =
      (Inr (hasDevice x f), w') \<and> files w' = files w \<and> hyp w' = hyp w"
proof -
  obtain st where st: "exec env (Bin c) [''domstate'', d] (files w) (hyp w) = (ExecOK st, hyp w)"
    "exec env (Bin c) [''dumpxml'', ''--inactive'', d] (files w) (hyp w) = (ExecOK x, hyp w)"
    using hp [unfolded hotplug_def, THEN conjunct1] dom by blast
  show "\<exists>st w'. virsh_State env c d w = (Inr st, w') \<and> files w' = files w \<and> hyp w' = hyp w"
    by (simp add: virsh_State_def bindAct_def Client_run_def os_exec_def st retAct_def)
  show "\<exists>w'. (case f of Inl (v, p) \<Rightarrow> virsh_HasUSBHostdev env c d v p | Inr a \<Rightarrow> virsh_HasPCIHostdev env c d a) w =
      (Inr (hasDevice x f), w') \<and> files w' = files w \<and> hyp w' = hyp w"
    by (auto simp: virsh_HasUSBHostdev_def virsh_HasPCIHostdev_def bindAct_def Client_run_def os_exec_def st retAct_def
        hasDevice_def split: sum.split)
qed

lemma attach_gains:
  assumes hp: "hotplug env c doc" and calm: "calm env (files w)" and f: "deviceOk f"
  shows "files (snd (attachMissing env c d f w)) = files w \<and>
    gains [(d, f)] (doc (hyp w)) (doc (hyp (snd (attachMissing env c d f w))))"
proof (cases "doc (hyp w) d")
  case None
  then obtain out err ex where "exec env (Bin c) [''domstate'', d] (files w) (hyp w) = (ExecFail out err ex, hyp w)"
    using hp [unfolded hotplug_def] by metis
  then have "files (snd (attachMissing env c d f w)) = files w \<and> hyp (snd (attachMissing env c d f w)) = hyp w"
    by (simp add: attachMissing_def virsh_State_def bindAct_def Client_run_def os_exec_def)
  with gains_present [of "doc (hyp w)" d f] None f show ?thesis by simp
next
  case (Some x)
  obtain st w1 where w1: "virsh_State env c d w = (Inr st, w1)" "files w1 = files w" "hyp w1 = hyp w"
    using hotplug_calls(1) [where doc = doc, OF hp Some] by blast
  obtain w2 where w2: "(case f of Inl (v, p) \<Rightarrow> virsh_HasUSBHostdev env c d v p | Inr a \<Rightarrow> virsh_HasPCIHostdev env c d a) w1 =
      (Inr (hasDevice x f), w2)" "files w2 = files w" "hyp w2 = hyp w"
    using hotplug_calls(2) [where doc = doc and w = w1 and f = f, OF hp] Some w1 by auto
  have run: "attachMissing env c d f w = (if hasDevice x f then retAct () else virsh_AttachDeviceConfig env c d (deviceXML f)) w2"
    using w1(1) w2(1) by (simp add: attachMissing_def bindAct_def)
  show ?thesis
  proof (cases "hasDevice x f")
    case True
    with run w2 gains_present [of "doc (hyp w)" d f] Some f show ?thesis by (simp add: retAct_def)
  next
    case False
    from calm w2(2) have "calm env (files w2)" by simp
    then obtain t where t: "\<And>out h'. exec env (Bin c) [''attach-device'', d, t, ''--config''] ((files w2)(t \<mapsto> Text (deviceXML f))) (hyp w2)
          = (ExecOK out, h') \<Longrightarrow>
        \<exists>w'. withTempXML env (deviceXML f) (\<lambda>tmp. runCmd env c [''attach-device'', d, tmp, ''--config'']) w2 = (Inr (), w') \<and>
          files w' = files w2 \<and> hyp w' = h'"
      using with_temp_run [where args = "\<lambda>t. [''attach-device'', d, t, ''--config'']" and y = "deviceXML f"] by metis
    have "doc (hyp w2) d = Some x \<and> ((files w2)(t \<mapsto> Text (deviceXML f))) t = Some (Text (deviceXML f)) \<and> deviceOk f \<and> \<not> hasDevice x f"
      using Some w2(3) f False by simp
    with hp [unfolded hotplug_def, THEN conjunct2, THEN conjunct2] obtain out h' y where
      h': "exec env (Bin c) [''attach-device'', d, t, ''--config''] ((files w2)(t \<mapsto> Text (deviceXML f))) (hyp w2) = (ExecOK out, h')"
        "doc h' = (doc (hyp w2))(d \<mapsto> y)" "\<And>e. deviceOk e \<Longrightarrow> hasDevice y e = (hasDevice x e \<or> sameDevice e f)"
      by blast
    with t run False w2 gains_attached [where D = "doc (hyp w)" and d = d, OF Some False] show ?thesis
      by (auto simp: virsh_AttachDeviceConfig_def)
  qed
qed

subsection \<open>A round\<close>

lemma fold_gains:
  assumes hp: "hotplug env c doc" and run: "\<And>p w. p \<in> set ps \<Longrightarrow> run p w = snd (attachMissing env c (fst (dv p)) (snd (dv p)) w)"
    and "\<forall>p \<in> set ps. deviceOk (snd (dv p))" "calm env (files w)"
  shows "files (fold run ps w) = files w \<and> gains (map dv ps) (doc (hyp w)) (doc (hyp (fold run ps w)))"
  using assms(2-4)
proof (induction ps arbitrary: w)
  case (Cons p ps)
  obtain d f where p: "dv p = (d, f)" by (cases "dv p")
  have step: "files (run p w) = files w" "gains [dv p] (doc (hyp w)) (doc (hyp (run p w)))"
    using attach_gains [OF hp Cons.prems(3), of f d] Cons.prems(1) [of p w] Cons.prems(2) p by simp_all
  have "files (fold run ps (run p w)) = files (run p w) \<and>
      gains (map dv ps) (doc (hyp (run p w))) (doc (hyp (fold run ps (run p w))))"
    using Cons.prems step(1) by (intro Cons.IH) auto
  with step gains_append [OF step(2), of "map dv ps"] Cons.prems(2) show ?case by auto
qed (simp add: gains_none)


text \<open>The pins of the two stores as devices, by domain.\<close>

definition usbDev :: "UsbPin \<Rightarrow> string \<times> device" where
  "usbDev p = (upVM p, Inl (upVendorID p, upProductID p))"

definition pciDev :: "PciPin \<Rightarrow> string \<times> device" where
  "pciDev p = (ppVM p, Inr (ppAddress p))"

definition pinnedTo :: "UsbPin store \<Rightarrow> PciPin store \<Rightarrow> string \<Rightarrow> device \<Rightarrow> bool" where
  "pinnedTo us pc d e \<longleftrightarrow>
     (\<exists>f. (d, f) \<in> usbDev ` snd ` set (sdata us) \<union> pciDev ` snd ` set (sdata pc) \<and> sameDevice e f)"

text \<open>A tick of each of the two loops.\<close>

definition deviceRound ::
  "'h env \<Rightarrow> Client \<Rightarrow> UsbPin order \<Rightarrow> PciPin order \<Rightarrow> UsbPin store \<Rightarrow> PciPin store \<Rightarrow> 'h world \<Rightarrow> 'h world" where
  "deviceRound env c uo po us pc w =
     pci_Reconcile po (pci_controller env c) pc (usb_Reconcile uo (usb_controller env c) us w)"

lemma deviceRound_ticks:
  "svWorld (step cfg sr PciTick (step cfg sr UsbTick s)) =
     deviceRound (cxEnv (srCtx sr)) (cxVirsh (srCtx sr)) (cxUsbOrder (srCtx sr)) (cxPciOrder (srCtx sr))
       (svUSB s) (svPCI s) (svWorld s)"
  by (simp add: step_def Let_def onWorldS_def deviceRound_def)

lemma round_gains:
  assumes hp: "hotplug env c doc" and calm: "calm env (files w)"
    and pins: "usbStoreOk us" "pciStoreOk pc" and ord: "is_order uo" "is_order po"
  obtains ps where "files (deviceRound env c uo po us pc w) = files w"
    "gains ps (doc (hyp w)) (doc (hyp (deviceRound env c uo po us pc w)))" "\<forall>(d, f) \<in> set ps. deviceOk f"
    "\<And>d e. (\<exists>f. (d, f) \<in> set ps \<and> sameDevice e f) = pinnedTo us pc d e"
proof -
  let ?us = "usb_All uo us" and ?pc = "pci_All po pc"
  have set: "set ?us = snd ` set (sdata us)" "set ?pc = snd ` set (sdata pc)"
    using ord by (simp_all add: usb_All_def pci_All_def set_storeAll)
  have ok: "\<forall>p \<in> set ?us. deviceOk (snd (usbDev p))" "\<forall>p \<in> set ?pc. deviceOk (snd (pciDev p)) \<and> ValidAddress (ppAddress p)"
    using pins by (auto simp: set usbStoreOk_def pciStoreOk_def usbPinOk_def pciPinOk_def usbDev_def pciDev_def deviceOk_def)
  let ?w1 = "usb_Reconcile uo (usb_controller env c) us w"
  have 1: "files ?w1 = files w \<and> gains (map usbDev ?us) (doc (hyp w)) (doc (hyp ?w1))"
    unfolding usb_Reconcile_def
    by (rule fold_gains [OF hp _ ok(1) calm]) (simp add: reconcile_attaches usbDev_def)
  have 2: "files (deviceRound env c uo po us pc w) = files ?w1 \<and>
      gains (map pciDev ?pc) (doc (hyp ?w1)) (doc (hyp (deviceRound env c uo po us pc w)))"
    unfolding pci_Reconcile_def deviceRound_def
    by (rule fold_gains [OF hp]) (use ok(2) calm 1 in \<open>simp_all add: reconcile_attaches pciDev_def\<close>)
  show ?thesis
  proof (rule that [of "map usbDev ?us @ map pciDev ?pc"])
    show "gains (map usbDev ?us @ map pciDev ?pc) (doc (hyp w)) (doc (hyp (deviceRound env c uo po us pc w)))"
      using 1 2 by (blast intro: gains_append)
  qed (use 1 2 ok in \<open>auto simp: pinnedTo_def set usbDev_def pciDev_def\<close>)
qed


definition devicesOf :: "string \<Rightarrow> device set" where
  "devicesOf x = {e. deviceOk e \<and> hasDevice x e}"

definition devicesPinned :: "UsbPin store \<Rightarrow> PciPin store \<Rightarrow> string \<Rightarrow> device set" where
  "devicesPinned us pc d = {e. deviceOk e \<and> pinnedTo us pc d e}"

lemma gains_devices:
  assumes "gains ps D D'" "\<forall>(d, f) \<in> set ps. deviceOk f" "\<And>d e. (\<exists>f. (d, f) \<in> set ps \<and> sameDevice e f) = pinnedTo us pc d e"
    and "D d = Some x"
  shows "\<exists>y. D' d = Some y \<and> devicesOf y = devicesOf x \<union> devicesPinned us pc d \<and>
    (devicesPinned us pc d \<subseteq> devicesOf x \<longrightarrow> y = x)"
proof -
  from assms(1,4) obtain y where y: "D' d = Some y"
    "\<And>e. deviceOk e \<Longrightarrow> hasDevice y e = (hasDevice x e \<or> (\<exists>f. (d, f) \<in> set ps \<and> sameDevice e f))"
    "(\<And>f. (d, f) \<in> set ps \<Longrightarrow> hasDevice x f) \<Longrightarrow> y = x" by (rule gains_someE) blast
  have "devicesOf y = devicesOf x \<union> devicesPinned us pc d"
    using y(2) by (auto simp: devicesOf_def devicesPinned_def assms(3))
  moreover have "y = x" if "devicesPinned us pc d \<subseteq> devicesOf x"
  proof (rule y(3))
    fix f
    assume f: "(d, f) \<in> set ps"
    then have "deviceOk f" "pinnedTo us pc d f" using assms(2) assms(3) [of d f] sameDevice_refl by blast+
    with that show "hasDevice x f" by (auto simp: devicesOf_def devicesPinned_def)
  qed
  ultimately show ?thesis using y(1) by blast
qed

text \<open>
  C9: the device pins win. Against a \<open>virsh\<close> that attaches devices as libvirt does, a tick of the USB and the
  PCI reconciler leaves every existing domain with the devices it had and those pinned to it, up to the case of the
  identifiers and in whatever order the pins are visited; a domain that has all its pins keeps its very
  document, domains that do not exist are skipped, no temporary file is left, and the next tick changes
  nothing.
\<close>

theorem device_round_refines:
  assumes "hotplug env c doc" "calm env (files w)" "usbStoreOk us" "pciStoreOk pc" "is_order uo" "is_order po"
  shows "let w1 = deviceRound env c uo po us pc w in
    files w1 = files w \<and>
    (\<forall>d. case doc (hyp w) d of
       None \<Rightarrow> doc (hyp w1) d = None
     | Some x \<Rightarrow> \<exists>y. doc (hyp w1) d = Some y \<and> devicesOf y = devicesOf x \<union> devicesPinned us pc d \<and>
         (devicesPinned us pc d \<subseteq> devicesOf x \<longrightarrow> y = x)) \<and>
    doc (hyp (deviceRound env c uo po us pc w1)) = doc (hyp w1)"
proof -
  let ?run = "deviceRound env c uo po us pc"
  obtain ps where ps: "files (?run w) = files w" "gains ps (doc (hyp w)) (doc (hyp (?run w)))" "\<forall>(d, f) \<in> set ps. deviceOk f"
    "\<And>d e. (\<exists>f. (d, f) \<in> set ps \<and> sameDevice e f) = pinnedTo us pc d e"
    by (rule round_gains [OF assms]) blast
  have "calm env (files (?run w))" using ps(1) assms(2) by simp
  then obtain qs where qs: "gains qs (doc (hyp (?run w))) (doc (hyp (?run (?run w))))" "\<forall>(d, f) \<in> set qs. deviceOk f"
    "\<And>d e. (\<exists>f. (d, f) \<in> set qs \<and> sameDevice e f) = pinnedTo us pc d e"
    by (rule round_gains [OF assms(1) _ assms(3-6)]) blast
  have "doc (hyp (?run (?run w))) d = doc (hyp (?run w)) d" for d
  proof (cases "doc (hyp w) d")
    case None
    from gains_noneD [OF qs(1) gains_noneD [OF ps(2) None]] gains_noneD [OF ps(2) None] show ?thesis by simp
  next
    case (Some x)
    then obtain y where y: "doc (hyp (?run w)) d = Some y" "devicesPinned us pc d \<subseteq> devicesOf y"
      using gains_devices [OF ps(2-4)] by blast
    from gains_devices [OF qs y(1)] y show ?thesis by auto
  qed
  moreover have "case doc (hyp w) d of
       None \<Rightarrow> doc (hyp (?run w)) d = None
     | Some x \<Rightarrow> \<exists>y. doc (hyp (?run w)) d = Some y \<and> devicesOf y = devicesOf x \<union> devicesPinned us pc d \<and>
         (devicesPinned us pc d \<subseteq> devicesOf x \<longrightarrow> y = x)" for d
    using gains_noneD [OF ps(2), of d] gains_devices [OF ps(2-4), of d] by (auto split: option.split)
  ultimately show ?thesis using ps(1) by (auto simp: Let_def)
qed


text \<open>A host with one domain, whose devices are the state of the host; it reads a snippet at fixed positions.\<close>

definition plugDecode :: "string \<Rightarrow> device" where
  "plugDecode s =
     (if s ! 32 = CHR ''u'' then Inl (take 4 (drop 81 s), take 4 (drop 108 s))
      else Inr (take 4 (drop 86 s) @ '':'' @ take 2 (drop 99 s) @ '':'' @ take 2 (drop 111 s) @ ''.'' @ take 1 (drop 127 s)))"

definition plugExec :: "string list \<Rightarrow> fileset \<Rightarrow> device list \<Rightarrow> exec_result \<times> device list" where
  "plugExec args fs h =
     (let failed = (ExecFail [] [] ''exit status 1'', h) in
      if \<not> list_all deviceOk h then failed
      else if args = [''domstate'', ''win''] then (ExecOK ''running'', h)
      else if args = [''dumpxml'', ''--inactive'', ''win''] then (ExecOK (domainWith h), h)
      else if length args = 4 \<and> args ! 0 = ''attach-device'' \<and> args ! 1 = ''win'' then
        (case fs (args ! 2) of Some (Text s) \<Rightarrow> (ExecOK [], h @ [plugDecode s]) | _ \<Rightarrow> failed)
      else failed)"

definition plugEnv :: "device list env" where
  "plugEnv = \<lparr>exec = \<lambda>_. plugExec, osFault = \<lambda>_ _ _. False, osTorn = \<lambda>_ _. None, tmpTag = \<lambda>_. ''1'', procMounts = \<lambda>_. None\<rparr>"

definition plugDoc :: "device list \<Rightarrow> string \<Rightarrow> string option" where
  "plugDoc h d = (if d = ''win'' \<and> list_all deviceOk h then Some (domainWith h) else None)"

definition plugWorld :: "device list \<Rightarrow> device list world" where
  "plugWorld h = \<lparr>files = \<lambda>_. None, hyp = h, cmds = []\<rparr>"

lemma sameDevice_Inl: "sameDevice (Inl (v, p)) g \<longleftrightarrow> (\<exists>v' p'. g = Inl (v', p') \<and> EqualFold v v' \<and> EqualFold p p')"
  by (cases g) (auto simp: sameDevice_def)

lemma sameDevice_Inr: "sameDevice (Inr a) g \<longleftrightarrow> (\<exists>a'. g = Inr a' \<and> EqualFold a a')"
  by (cases g) (auto simp: sameDevice_def)

lemma hasDevice_domainWith:
  assumes "list_all deviceOk ds" "deviceOk e"
  shows "hasDevice (domainWith ds) e \<longleftrightarrow> (\<exists>g \<in> set ds. sameDevice e g)"
proof (cases e)
  case (Inl vp)
  obtain v p where vp: "vp = (v, p)" by (cases vp)
  have "hasDevice (domainWith ds) e \<longleftrightarrow> hasUSBHostdev (domainWith ds) v p" by (simp add: Inl vp hasDevice_def)
  also have "\<dots> \<longleftrightarrow> (\<exists>g \<in> set ds. sameDevice e g)"
    unfolding hostdevs_match(1) [OF assms(1)] Inl vp sameDevice_Inl by blast
  finally show ?thesis .
next
  case (Inr a)
  then have a: "ValidAddress a" using assms(2) by (simp add: deviceOk_def)
  have "hasDevice (domainWith ds) e \<longleftrightarrow> hasPCIHostdev (domainWith ds) a" by (simp add: Inr hasDevice_def)
  also have "\<dots> \<longleftrightarrow> (\<exists>g \<in> set ds. sameDevice e g)"
    unfolding hostdevs_match(2) [OF assms(1) a] Inr sameDevice_Inr by blast
  finally show ?thesis .
qed

lemma take_at:
  assumes "length a = n" "length b = k"
  shows "take k (drop n (a @ b @ r)) = b"
  unfolding assms [symmetric] by simp

lemma plugDecode_usb:
  assumes "length v = 4" "length p = 4"
  shows "plugDecode (usb_HostdevXML v p) = Inl (ToLower v, ToLower p)"
proof -
  let ?a = "''<hostdev mode='' @ sq ''subsystem'' @ '' type='' @ sq ''usb'' @ '' managed='' @ sq ''yes'' @ ''>'' @ [nl] @
     ''  <source>'' @ [nl] @ ''    <vendor id='' @ [apos] @ ''0x''"
  let ?b = "[apos] @ ''/>'' @ [nl] @ ''    <product id='' @ [apos] @ ''0x''"
  let ?c = "[apos] @ ''/>'' @ [nl] @ ''  </source>'' @ [nl] @ ''</hostdev>''"
  have x: "usb_HostdevXML v p = ?a @ ToLower v @ ?b @ ToLower p @ ?c"
    by (simp only: usb_HostdevXML_def sq_def append_assoc append_Cons append_Nil)
  have la: "length ?a = 81" by (simp only: sq_def) code_simp
  have lb: "length ?b = 23" by code_simp
  have at: "?a ! 32 = CHR ''u''" by (simp only: sq_def) code_simp
  have low: "length (ToLower v) = 4" "length (ToLower p) = 4" using assms by (simp_all add: ToLower_def)
  have "usb_HostdevXML v p ! 32 = CHR ''u''"
    unfolding x using at la by (simp only: nth_append) simp
  moreover have "take 4 (drop 81 (usb_HostdevXML v p)) = ToLower v"
    unfolding x by (rule take_at [OF la low(1)])
  moreover have "take 4 (drop 108 (usb_HostdevXML v p)) = ToLower p"
  proof -
    have "length (?a @ ToLower v @ ?b) = 108" using la lb low by (simp only: length_append)
    from take_at [OF this low(2), of ?c] show ?thesis by (simp only: x append_assoc)
  qed
  ultimately show ?thesis by (simp only: plugDecode_def if_True simp_thms)
qed


lemma plugDecode_pci:
  assumes "ValidAddress a"
  shows "plugDecode (deviceXML (Inr a)) = Inr (ToLower a)"
proof -
  from assms obtain d b s f where a: "a = d @ '':'' @ b @ '':'' @ s @ ''.'' @ f"
    "list_all (\<lambda>u. list_all isHexDigit u \<and> u \<noteq> [] \<and> length u \<le> 4) [d, b, s, f]"
    "(length d, length b, length s, length f) = (4, 2, 2, 1)" by (rule pci_parts) blast
  have "\<not> isHexDigit (CHR '':'')" "\<not> isHexDigit (CHR ''.'')"
    by (simp_all add: isHexDigit_def isLowerHex_def isDigit_def less_eq_char_def)
  then have cuts: "CHR '':'' \<notin> set d" "CHR '':'' \<notin> set b" "CHR ''.'' \<notin> set s"
    using a(2) by (auto simp: list_all_iff)
  let ?a = "''<hostdev mode='' @ sq ''subsystem'' @ '' type='' @ sq ''pci'' @ '' managed='' @ sq ''yes'' @ ''>'' @ [nl] @
     ''  <source>'' @ [nl] @ ''    <address domain='' @ [apos] @ ''0x''"
  let ?b = "[apos] @ '' bus='' @ [apos] @ ''0x''" and ?c = "[apos] @ '' slot='' @ [apos] @ ''0x''"
    and ?d = "[apos] @ '' function='' @ [apos] @ ''0x''"
    and ?e = "[apos] @ ''/>'' @ [nl] @ ''  </source>'' @ [nl] @ ''</hostdev>''"
  have cut: "Cut a '':'' = Some (d, b @ '':'' @ s @ ''.'' @ f)" "Cut (b @ '':'' @ s @ ''.'' @ f) '':'' = Some (b, s @ ''.'' @ f)"
    "Cut (s @ ''.'' @ f) ''.'' = Some (s, f)"
    using cuts by (simp_all add: a(1))
  have x: "deviceXML (Inr a) = ?a @ ToLower d @ ?b @ ToLower b @ ?c @ ToLower s @ ?d @ ToLower f @ ?e"
    unfolding deviceXML_def pci_HostdevXML_def sum.case if_not_P [OF not_not [THEN iffD2, OF assms]] Let_def cut option.sel
      prod.case
    by (simp only: sq_def append_assoc append_Cons append_Nil)
  have la: "length ?a = 86" by (simp only: sq_def) code_simp
  have lens: "length ?b = 9" "length ?c = 10" "length ?d = 14" by code_simp+
  have at: "?a ! 32 = CHR ''p''" by (simp only: sq_def) code_simp
  have low: "length (ToLower d) = 4" "length (ToLower b) = 2" "length (ToLower s) = 2" "length (ToLower f) = 1"
    using a(3) by (simp_all add: ToLower_def)
  have "deviceXML (Inr a) ! 32 = CHR ''p''"
    unfolding x using at la by (simp only: nth_append) simp
  moreover have "take 4 (drop 86 (deviceXML (Inr a))) = ToLower d"
    unfolding x by (rule take_at [OF la low(1)])
  moreover have "take 2 (drop 99 (deviceXML (Inr a))) = ToLower b"
  proof -
    have "length (?a @ ToLower d @ ?b) = 99" using la lens low by (simp only: length_append)
    from take_at [OF this low(2)] show ?thesis by (simp only: x append_assoc)
  qed
  moreover have "take 2 (drop 111 (deviceXML (Inr a))) = ToLower s"
  proof -
    have "length (?a @ ToLower d @ ?b @ ToLower b @ ?c) = 111" using la lens low by (simp only: length_append)
    from take_at [OF this low(3)] show ?thesis by (simp only: x append_assoc)
  qed
  moreover have "take 1 (drop 127 (deviceXML (Inr a))) = ToLower f"
  proof -
    have "length (?a @ ToLower d @ ?b @ ToLower b @ ?c @ ToLower s @ ?d) = 127" using la lens low by (simp only: length_append)
    from take_at [OF this low(4)] show ?thesis by (simp only: x append_assoc)
  qed
  moreover have "ToLower a = ToLower d @ '':'' @ ToLower b @ '':'' @ ToLower s @ ''.'' @ ToLower f"
    by (simp add: a(1) ToLower_def toLowerChar_def)
  ultimately show ?thesis by (simp add: plugDecode_def)
qed


lemma lower_ids:
  "validHexID v \<Longrightarrow> validHexID (ToLower v)" "ValidAddress a \<Longrightarrow> ValidAddress (ToLower a)"
proof -
  have hex: "isLowerHex c \<Longrightarrow> isHexDigit c" for c by (simp add: isHexDigit_def)
  have lower: "list_all isHexDigit u \<Longrightarrow> list_all isHexDigit (ToLower u)" for u
    using lower_hex hex by (auto simp: list_all_iff)
  show "validHexID v \<Longrightarrow> validHexID (ToLower v)"
    using lower validHexID_hex [of v] by (auto simp: validHexID_def ToLower_def split: if_splits)
  assume "ValidAddress a"
  then obtain d b s f where a: "a = d @ CHR '':'' # b @ CHR '':'' # s @ CHR ''.'' # f" "length d = 4" "length b = 2"
    "length s = 2" "length f = 1" "list_all isHexDigit d" "list_all isHexDigit b" "list_all isHexDigit s" "CHR ''0'' \<le> hd f" "hd f \<le> CHR ''7''"
    unfolding ValidAddress_iff isHex_def by blast
  then have f: "ToLower f = f"
    by (cases f) (auto simp: ToLower_def toLowerChar_def less_eq_char_def)
  have "ToLower a = ToLower d @ CHR '':'' # ToLower b @ CHR '':'' # ToLower s @ CHR ''.'' # f"
    by (simp add: a(1) ToLower_def toLowerChar_def f [unfolded ToLower_def])
  moreover have "length (ToLower u) = length u" "ToLower u = [] \<longleftrightarrow> u = []" for u by (simp_all add: ToLower_def)
  moreover have "d \<noteq> []" "b \<noteq> []" "s \<noteq> []" using a(2-4) by auto
  ultimately show "ValidAddress (ToLower a)"
    unfolding ValidAddress_iff isHex_def using a(2-10) lower
    by (intro exI [of _ "ToLower d"] exI [of _ "ToLower b"] exI [of _ "ToLower s"] exI [of _ f]) simp
qed

lemma plugDecode_same:
  assumes "deviceOk f"
  shows "deviceOk (plugDecode (deviceXML f))" "sameDevice e (plugDecode (deviceXML f)) = sameDevice e f"
proof -
  have len: "validHexID v \<Longrightarrow> length v = 4" for v by (simp add: validHexID_def split: if_splits)
  have dec: "plugDecode (deviceXML f) = (case f of Inl (v, p) \<Rightarrow> Inl (ToLower v, ToLower p) | Inr a \<Rightarrow> Inr (ToLower a))"
  proof (cases f)
    case (Inl vp)
    obtain v p where vp: "vp = (v, p)" by (cases vp)
    have "length v = 4" "length p = 4" using assms len by (simp_all add: Inl vp deviceOk_def)
    from plugDecode_usb [OF this] show ?thesis by (simp add: Inl vp deviceXML_def)
  next
    case (Inr a)
    with assms plugDecode_pci [of a] show ?thesis by (simp add: deviceOk_def)
  qed
  show "deviceOk (plugDecode (deviceXML f))"
    using assms lower_ids unfolding dec by (auto simp: deviceOk_def split: sum.splits)
  show "sameDevice e (plugDecode (deviceXML f)) = sameDevice e f"
    unfolding dec by (auto simp: sameDevice_def EqualFold_def ToLower_idem split: sum.splits)
qed

lemma plug_hotplug: "hotplug plugEnv c plugDoc" "calm plugEnv (files (plugWorld h))"
proof -
  have grow: "list_all deviceOk (h @ [plugDecode (deviceXML f)]) \<and>
      (\<forall>e. deviceOk e \<longrightarrow> hasDevice (domainWith (h @ [plugDecode (deviceXML f)])) e = (hasDevice (domainWith h) e \<or> sameDevice e f))"
    if "list_all deviceOk h" "deviceOk f" for h f
  proof -
    have "list_all deviceOk (h @ [plugDecode (deviceXML f)])" using that plugDecode_same(1) by simp
    with that plugDecode_same(2) [OF that(2)] show ?thesis by (auto simp: hasDevice_domainWith)
  qed
  show "hotplug plugEnv c plugDoc"
    unfolding hotplug_def
  proof (intro conjI allI impI; (elim conjE)?)
    fix fs h d x and t :: string and f
    assume "plugDoc h d = Some x" "fs t = Some (Text (deviceXML f))" "deviceOk f"
    with grow [of h f] show "\<exists>out h' y. exec plugEnv (Bin c) [''attach-device'', d, t, ''--config''] fs h = (ExecOK out, h') \<and>
        plugDoc h' = (plugDoc h)(d \<mapsto> y) \<and> (\<forall>e. deviceOk e \<longrightarrow> hasDevice y e = (hasDevice x e \<or> sameDevice e f))"
      by (intro exI [of _ "[]"] exI [of _ "h @ [plugDecode (deviceXML f)]"] exI [of _ "domainWith (h @ [plugDecode (deviceXML f)])"])
        (auto simp: plugDoc_def plugEnv_def plugExec_def fun_eq_iff split: if_splits)
  qed (auto simp: plugDoc_def plugEnv_def plugExec_def Let_def split: if_splits)
qed (simp_all add: calm_def plugEnv_def plugWorld_def)


definition winUsb :: UsbPin where
  "winUsb = \<lparr>upVM = ''win'', upVendorID = ''046D'', upProductID = ''c52b'', upDescription = []\<rparr>"

definition winPci :: PciPin where
  "winPci = \<lparr>ppVM = ''win'', ppAddress = ''0000:02:00.0'', ppDescription = []\<rparr>"

text \<open>A domain with a device of its own and two that were pinned and lost.\<close>

theorem device_round_refines_witness:
  "let us = \<lparr>Path = ''/d/usb.json'', sdata = [(usb_key winUsb, winUsb)]\<rparr>;
       pc = \<lparr>Path = ''/d/pci.json'', sdata = [(pci_key winPci, winPci)]\<rparr>;
       w1 = deviceRound plugEnv (virsh_New []) id id us pc (plugWorld [Inl (''1a2b'', ''0001'')])
   in \<exists>y. plugDoc (hyp w1) ''win'' = Some y \<and> hasUSBHostdev y ''046d'' ''c52b'' \<and> hasUSBHostdev y ''1a2b'' ''0001'' \<and>
        hasPCIHostdev y ''0000:02:00.0'' \<and> \<not> hasPCIHostdev y ''0000:03:00.0''"
proof -
  let ?us = "\<lparr>Path = ''/d/usb.json'', sdata = [(usb_key winUsb, winUsb)]\<rparr>"
  let ?pc = "\<lparr>Path = ''/d/pci.json'', sdata = [(pci_key winPci, winPci)]\<rparr>"
  let ?own = "[Inl (''1a2b'', ''0001'')] :: device list"
  let ?w1 = "deviceRound plugEnv (virsh_New []) id id ?us ?pc (plugWorld ?own)"
  have pins: "usbPinOk winUsb" "pciPinOk winPci" "list_all deviceOk ?own" by code_simp+
  then have ok: "usbStoreOk ?us" "pciStoreOk ?pc"
    by (simp_all add: usbStoreOk_def pciStoreOk_def keyed_def gmap_ok_def)
  have "plugDoc (hyp (plugWorld ?own)) ''win'' = Some (domainWith ?own)"
    using pins(3) by (simp add: plugDoc_def plugWorld_def)
  then obtain y where y: "plugDoc (hyp ?w1) ''win'' = Some y"
    "devicesOf y = devicesOf (domainWith ?own) \<union> devicesPinned ?us ?pc ''win''"
    using device_round_refines [OF plug_hotplug ok is_order_id(1,1), of "virsh_New []" ?own,
        unfolded Let_def, THEN conjunct2, THEN conjunct1, THEN spec, of "''win''"] by auto
  have has: "hasDevice y e = (deviceOk e \<and> (sameDevice e (Inl (''1a2b'', ''0001'')) \<or> sameDevice e (Inl (''046D'', ''c52b'')) \<or>
      sameDevice e (Inr ''0000:02:00.0'')))" if "deviceOk e" for e
    using y(2) [THEN set_eq_iff [THEN iffD1], THEN spec, of e] that hasDevice_domainWith [OF pins(3) that]
    by (auto simp: devicesOf_def devicesPinned_def pinnedTo_def usbDev_def pciDev_def winUsb_def winPci_def)
  have "deviceOk (Inl (''046d'', ''c52b''))" "deviceOk (Inl (''1a2b'', ''0001''))" "deviceOk (Inr ''0000:02:00.0'')"
    "deviceOk (Inr ''0000:03:00.0'')" "EqualFold ''046d'' ''046D''" "\<not> EqualFold ''0000:03:00.0'' ''0000:02:00.0''"
    by code_simp+
  with y(1) has [of "Inl (''046d'', ''c52b'')"] has [of "Inl (''1a2b'', ''0001'')"] has [of "Inr ''0000:02:00.0''"]
    has [of "Inr ''0000:03:00.0''"]
  show ?thesis by (simp add: Let_def hasDevice_def sameDevice_def EqualFold_def)
qed

end
