(* ===== verification/FindingProps.thy ===== *)
theory FindingProps
  imports DeviceProps ConsoleProps ScheduleProps MountProps SystemProps HostListProps
begin

section \<open>Where the program does not do what it means to\<close>

text \<open>
  Runs of the model that show behaviour at odds with the code's own comments or with its other checks. Each
  lemma evaluates the operations concerned on concrete values.
\<close>

text \<open>Two snapshot names that the daemon accepts share their overlay files.\<close>

lemma stem_collision:
  "validSnapshotName ''a b'' \<and> validSnapshotName ''a_b'' \<and> fileStem ''a b'' = fileStem ''a_b''"
  by code_simp

text \<open>A comma in the directory of an external snapshot passes the checks and adds a second \<open>file=\<close>.\<close>

lemma dir_injects_option:
  "\<not> badDir ''/DATA,file=/etc'' \<and> \<not> forbiddenSnapshotDir ''/DATA,file=/etc'' \<and>
   memSpec ''/DATA,file=/etc'' ''s'' (Inr ''running'') =
     [''--memspec'', ''file=/DATA,file=/etc/s-memory.save,snapshot=external'']"
  by code_simp

text \<open>
  The base remembered after an external snapshot of \<open>win\<close> into \<open>/win\<close> is the root directory, which the
  settings handler refuses.
\<close>

lemma remembered_root:
  "\<not> badDir ''/win'' \<and> \<not> forbiddenSnapshotDir ''/win'' \<and> Base ''/win'' = ''win'' \<and> Dir ''/win'' = ''/'' \<and>
   forbiddenSnapshotDir (Dir ''/win'')"
  by code_simp

text \<open>The longest wait between two registrations is longer than the bound.\<close>

lemma delay_above_bound: "maxDelay < nextDelay (16 * second)"
  by (simp add: nextDelay_def maxDelay_def second_def int64_def signed_take_bit_eq_take_bit_minus take_bit_eq_mod)

text \<open>The user's mount options come after the protective ones, so they can take them back.\<close>

lemma options_undo_nosuid:
  "mount_validate (demoMount\<lparr>meType := ''nfs'', meOptions := ''suid,dev''\<rparr>) = Inr () \<and>
   nfsArgs (demoMount\<lparr>meType := ''nfs'', meOptions := ''suid,dev''\<rparr>) ! 3 =
     ''ro,nosuid,nodev,hard,timeo=600,retrans=2,_netdev,suid,dev''"
  by code_simp

text \<open>A mountpoint with a blank is accepted, but the kernel writes its blank as an escape, and so it is never found.\<close>

lemma blank_never_mounted:
  "mount_validate (demoMount\<lparr>meMountpoint := ''/media/my nas''\<rparr>) = Inr () \<and>
   \<not> IsMounted (quietEnv\<lparr>procMounts := \<lambda>_. Some (''//nas/x /media/my'' @ [CHR 0x5C] @ ''040nas cifs rw 0 0'')\<rparr>)
       ''/media/my nas'' emptyWorld"
  by code_simp

text \<open>
  A valid password can hold the name of an attribute. Removing that attribute then cuts the tag in the wrong
  place: the console loses its type, and its password becomes \<open>vnc\<close>.
\<close>

lemma password_breaks_tag:
  "ValidPassword '' port='' \<and>
   map_sum id (\<lambda>doc. setGraphicsListenXML doc ''127.0.0.1'' 0)
     (setGraphicsPasswordXML (''<graphics type='' @ sq ''vnc'' @ '' port='' @ sq ''5900'' @ ''/>'') '' port='') =
   Inr (Inr (''<graphics listen='' @ sq ''127.0.0.1'' @ '' autoport='' @ sq ''yes'' @
     '' passwd='' @ sq ''vnc'' @ '' port='' @ sq ''5900'' @ ''/>''))"
  by code_simp

text \<open>A user may give a snapshot the prefix of the scheduler; it then counts as an automatic one.\<close>

lemma auto_name_accepted:
  "validSnapshotName ''auto-mine'' \<and> HasPrefix ''auto-mine'' AutoPrefix"
  by code_simp

text \<open>The search for shell characters leaves the mountpoint out.\<close>

lemma mountpoint_unchecked:
  "mount_validate (demoMount\<lparr>meMountpoint := ''/media/a;b$c'' @ [CHR 0x0A]\<rparr>) = Inr ()"
  by code_simp

end
