(* ===== verification/Spec2Isabelle.thy ===== *)
theory Spec2Isabelle
  imports ConsoleProps ScheduleProps RequestProps FileProps BackupProps DeviceProps HostListProps MountProps
    ArgsProps ReconcileProps BootProps SnapshotProps SystemProps ResponseProps RestartProps DeviceRounds FindingProps
begin

text \<open>
  ZimaOS VM Extras is a daemon beside the virtual machine manager of ZimaOS. It serves a JSON API over HTTP
  and repairs, from background loops, what the manager's own interface drops from the domains. It reaches libvirt only by
  running \<open>virsh\<close>, and it keeps its own state in JSON files. This development models the Go code of the
  daemon, from the bytes of a domain document up to the running process, and proves what makes it correct.

  \<^bold>\<open>The program and its model.\<close> Paths are below \<open>src/\<close>; a theory's definitions have the names
  of the functions they translate, with the package as a prefix where two packages share a name.

  \<^item> \<open>Prelude\<close> has the errors, the fallible calls, the Go map with its unspecified order of iteration and
    the locale \<open>frame\<close>. \<open>GoStrings\<close>, \<open>GoPath\<close>, \<open>Url\<close> and \<open>Xml\<close> are what the code uses of \<open>strings\<close>,
    \<open>strconv\<close>, \<open>path/filepath\<close>, \<open>net/url\<close> and \<open>encoding/xml\<close>. \<open>Host\<close> is the world: the files, the
    state behind the external programs, a ghost trace of the programs that were run; and the environment, which
    decides what programs answer and which file operations fail. \<open>Dialogue\<close> gives the commands of a run with
    their answers, recomputed from the trace.
  \<^item> \<open>VncXml\<close> and \<open>TpmXml\<close>: the text edits of a domain document in \<open>internal/virsh/vnc.go\<close> and
    \<open>tpm.go\<close>. \<open>Virsh\<close>: all methods of \<open>virsh.Client\<close> (\<open>internal/virsh/virsh.go\<close>, and the methods in the
    two other files), with their argument lists and the parsers of what they print.
  \<^item> \<open>Validate\<close>: the checks of names, identifiers, addresses, passwords and directories in
    \<open>internal/handlers\<close>, \<open>internal/vnc/vnc.go\<close> and \<open>internal/pci/pci.go\<close>.
  \<^item> \<open>Stores\<close>: \<open>load\<close> and \<open>saveLocked\<close>, which seven packages have word by word, over the type of the entry.
    \<open>Usb\<close>, \<open>Pci\<close>, \<open>VncStore\<close>, \<open>TpmStore\<close>, \<open>Autostart\<close>, \<open>Schedule\<close>, \<open>Mounts\<close>: the
    package of that name with its store, its operations and its loop. \<open>Backup\<close>, \<open>Settings\<close>, \<open>Storage\<close>,
    \<open>Gateway\<close> (with \<open>internal/config\<close>), \<open>Watchdog\<close>: the package of that name.
  \<^item> \<open>Http\<close> is the monad of the handlers, with early returns as left results. \<open>Server\<close> is the
    struct \<open>Server\<close> with the world it acts on. \<open>HandlersVm\<close>, \<open>HandlersSnapshot\<close>, \<open>HandlersDevices\<close>
    and \<open>HandlersConsole\<close> are the handlers of \<open>internal/handlers/handlers.go\<close>, one definition per method.
  \<^item> \<open>Daemon\<close>: the routes, the root handler, the opening of the stores and the goroutines of
    \<open>cmd/zima-vm-extras/main.go\<close>. \<open>step\<close> is one event: a request, a tick of one of the loops, the run of a
    backup that was launched, the boot run, the automatic mounts, the registration of the route, the installation of the
    units, or any change of the host by somebody else. \<open>reachable\<close> are the states after any sequence of
    events, \<open>calmRun\<close> (in \<open>RestartProps\<close>) adds restarts of the process.

  \<^bold>\<open>The interfaces.\<close> Each is a locale, interpreted on the definitions of the model.

  \<^item> \<open>frame\<close>: a reflexive and transitive relation on states and what sequences of fallible calls keep of it.
    \<open>virsh_frame\<close> extends it by what every \<open>virsh\<close> command keeps and gives the same for every method
    of the client; its instances are the files outside the temporary ones (\<open>files_frame\<close>), the trace of
    safe argument lists (\<open>args_frame\<close>), the commands that only read (\<open>read_frame\<close>) and the
    dialogue with the programs (\<open>talk_frame\<close>).
  \<^item> \<open>lifted\<close> and \<open>handlers\<close> extend \<open>virsh_frame\<close> to relations on the server: what the calls
    of the components keep, every handler and the root handler keep. Each invariant of the daemon is an
    instance of it (\<open>vnc_frame\<close>, \<open>usb_frame\<close>, \<open>pci_frame\<close>, \<open>sched_frame\<close>,
    \<open>mounts_frame\<close>, \<open>backup_frame\<close>, \<open>safe_frame\<close>, \<open>read_lift\<close>, \<open>calm_frame\<close>), so that a property
    of all requests needs a proof only for the handlers that touch what it is about.
  \<^item> \<open>json_store\<close>: an entry type whose decoder reads back what its encoder wrote. Its lemmas say what opening a
    store gives after a save, a put, a delete or a crash, and all seven stores are instances.

  \<^bold>\<open>What is proved.\<close>

  \<^item> All requests: \<open>RequestProps\<close> (a cross-origin request is refused if it changes state, and otherwise
    only reads, but for the statistics that a metrics request switches on), \<open>ArgsProps\<close> (no word of a
    caller is read as an option of \<open>virsh\<close>), \<open>ResponseProps\<close> (the shapes of the answers; an answer from
    400 to 499 means that nothing was done).
  \<^item> All runs: \<open>ConsoleProps\<close>, \<open>DeviceProps\<close>, \<open>MountProps\<close> and \<open>BackupProps\<close> (what the stores
    ever hold), \<open>RestartProps\<close> with \<open>Synced\<close> (memory and files agree, so a restart loses nothing).
  \<^item> The loops: \<open>ReconcileProps\<close> and \<open>DeviceRounds\<close> (a round of the TPM, VNC, USB and PCI
    reconcilers has its specified effect on the documents, against a host described by \<open>libvirt\<close> and
    \<open>hotplug\<close>), \<open>ScheduleProps\<close> (a due schedule runs once, pruning keeps the newest), \<open>BootProps\<close>
    (the boot run and the watchdog), \<open>BackupProps\<close> (a job always ends).
  \<^item> The texts: \<open>VncXmlProofs\<close>, \<open>TpmXmlProofs\<close>, \<open>HostdevProps\<close> (an edit of a document is read
    back), \<open>HostListProps\<close>, \<open>SnapshotProps\<close> (the parsers recover what the tools print),
    \<open>FileProps\<close> (directories and file names).
  \<^item> The rest: \<open>StoreProps\<close>, \<open>SystemProps\<close>; and \<open>FindingProps\<close>, runs of the model that
    show behaviour the code's own comments or its other checks exclude.

  \<^bold>\<open>Bounds and fuel.\<close> The XML parser and the scanners recurse on a text that gets shorter, with the length as the
  measure. The boot run tries libvirt twelve times, as the code does. The registration with
  the gateway goes on until it succeeds, so it has a bound as an argument; the theorem about it holds for every
  bound and says that a success is final for all larger ones. The background loops run for ever in the code; here a run
  is any finite list of their ticks.

  \<^bold>\<open>What is a parameter.\<close> The external programs, as functions of their arguments, of the files they see and
  of their own state; faults of the file system; the names of temporary files; \<open>/proc/mounts\<close>, \<open>statfs\<close> and
  \<open>readlink\<close>; the clock and its rendering; random identifiers; the orders in which maps are
  iterated; the HTTP exchange with the gateway. What a property relies on of \<open>virsh\<close> is a hypothesis of it, and its
  witness has a concrete host that satisfies it. The rounds of the VNC reconciler assume \<open>editsFit\<close>: the edit of a
  pinned domain's current document keeps the name that the document declares, which a password with markup in it
  can break. A command that runs into its timeout is one that fails.

  \<^bold>\<open>Not modelled.\<close>

  \<^item> Log output, file modes, the existence of directories, data that a power failure loses because the code does
    not sync it, and the environment of a command (the C locale is assumed
    of what it prints).
  \<^item> The text of JSON: a file holds a JSON value or another text, and a request body is a value or a decoding
    error. So neither syntax errors nor strings that are not UTF-8 are looked into.
  \<^item> Interleavings inside a step. Each event is atomic, while in the code two goroutines may work
    on the same domain at once, between a read of its document and the write; a lock of a store is held for one
    operation only.
  \<^item> The contents of static files (the file server answers a constant), timeouts and graceful shutdown of the
    HTTP server. \<open>url.Parse\<close> has every error of Go 1.22 and the host, not the other fields. Regular expressions are translated by hand to matchers; of XML the encodings other
    than UTF-8 and nested directives are left out.
  \<^item> The version (\<open>internal/buildinfo\<close>) is a parameter. The web interface, the build scripts, the
    packaging and the documents are not Go code and not modelled.
\<close>

end
